(* ===== verification/Prelude.thy ===== *)
theory Prelude
  imports Main "HOL-Library.Word" "HOL-Library.Finite_Map" "HOL-Library.List_Lexorder"
    "HOL-Library.Char_ord"
begin

text \<open>
  Shared ground of the development: Go statements as programs over an explicit state with panics,
  Go maps with their unspecified iteration order, machine integers, and the lemma collections the
  component theories extend.

  \<^item> A Go call returns a value or panics. \<open>('s, 'a) prog\<close> maps a state to an outcome and the
    state after it; a panic ends the program in the state it was raised in.
  \<^item> A \<open>map[string]string\<close> is \<open>None\<close> (the nil map) or a finite map. A \<open>range\<close> statement visits
    the entries in an order the language leaves open: the order is a parameter, indexed by the
    line of the \<open>range\<close> statement, and \<open>range_ok\<close> says what the language promises of it.
\<close>

named_theorems prog_simps "equations that run the program combinators"
named_theorems string_simps "equations of the Go string operations"

type_synonym int32 = "32 word"
type_synonym int64 = "64 word"

subsection \<open>Programs: state, value or panic\<close>

datatype 'a outcome = Done 'a | Panicked

type_synonym ('s, 'a) prog = "'s \<Rightarrow> 'a outcome \<times> 's"

definition ret :: "'a \<Rightarrow> ('s, 'a) prog" where
  "ret x = (\<lambda>s. (Done x, s))"

definition panic :: "('s, 'a) prog" where
  "panic = (\<lambda>s. (Panicked, s))"

definition bindP :: "('s, 'a) prog \<Rightarrow> ('a \<Rightarrow> ('s, 'b) prog) \<Rightarrow> ('s, 'b) prog" where
  "bindP m f = (\<lambda>s. case m s of (Done x, s') \<Rightarrow> f x s' | (Panicked, s') \<Rightarrow> (Panicked, s'))"

text \<open>Reading through a pointer: a nil pointer panics.\<close>

definition deref :: "'a option \<Rightarrow> ('s, 'a) prog" where
  "deref p = (case p of None \<Rightarrow> panic | Some x \<Rightarrow> ret x)"

text \<open>The idiom \<open>err = f(); if err != nil return err\<close> followed by the rest of the body.\<close>

definition orReturn :: "('s, 'e option) prog \<Rightarrow> ('e \<Rightarrow> ('s, 'b) prog) \<Rightarrow> ('s, 'b) prog
    \<Rightarrow> ('s, 'b) prog" where
  "orReturn m onErr rest = bindP m (\<lambda>err. case err of Some e \<Rightarrow> onErr e | None \<Rightarrow> rest)"

lemma ret_run [prog_simps]: "ret x s = (Done x, s)"
  by (simp add: ret_def)

lemma panic_run [prog_simps]: "panic s = (Panicked, s)"
  by (simp add: panic_def)

lemma bindP_Done [prog_simps]: "m s = (Done x, s') \<Longrightarrow> bindP m f s = f x s'"
  by (simp add: bindP_def)

lemma bindP_Panicked [prog_simps]: "m s = (Panicked, s') \<Longrightarrow> bindP m f s = (Panicked, s')"
  by (simp add: bindP_def)

lemma bindP_ret [simp]: "bindP (ret x) f = f x"
  by (rule ext) (simp add: bindP_def ret_def)

lemma bindP_ret_right [simp]: "bindP m ret = m"
  by (rule ext) (simp add: bindP_def ret_def split: prod.splits outcome.splits)

lemma bindP_panic [simp]: "bindP panic f = panic"
  by (rule ext) (simp add: bindP_def panic_def)

lemma bindP_assoc: "bindP (bindP m f) g = bindP m (\<lambda>x. bindP (f x) g)"
  by (rule ext) (simp add: bindP_def split: prod.splits outcome.splits)

lemma deref_Some [simp]: "deref (Some x) = ret x"
  by (simp add: deref_def)

lemma deref_None [simp]: "deref None = panic"
  by (simp add: deref_def)

lemma orReturn_ret_None [simp]: "orReturn (ret None) h rest = rest"
  by (simp add: orReturn_def)

lemma orReturn_ret_Some [simp]: "orReturn (ret (Some e)) h rest = h e"
  by (simp add: orReturn_def)

lemma orReturn_None [prog_simps]: "m s = (Done None, s') \<Longrightarrow> orReturn m h rest s = rest s'"
  by (simp add: orReturn_def bindP_def)

lemma orReturn_Some [prog_simps]: "m s = (Done (Some e), s') \<Longrightarrow> orReturn m h rest s = h e s'"
  by (simp add: orReturn_def bindP_def)

lemma orReturn_Panicked [prog_simps]:
  "m s = (Panicked, s') \<Longrightarrow> orReturn m h rest s = (Panicked, s')"
  by (simp add: orReturn_def bindP_def)

text \<open>\<open>lands P m s\<close>: from \<open>s\<close> the program returns, without a panic, and \<open>P\<close> holds of its value and
  the state it ends in.\<close>

definition lands :: "('a \<Rightarrow> 's \<Rightarrow> bool) \<Rightarrow> ('s, 'a) prog \<Rightarrow> 's \<Rightarrow> bool" where
  "lands P m s \<longleftrightarrow> (\<exists>x s'. m s = (Done x, s') \<and> P x s')"

lemma landsI: "m s = (Done x, s') \<Longrightarrow> P x s' \<Longrightarrow> lands P m s"
  by (auto simp: lands_def)

lemma landsE:
  assumes "lands P m s"
  obtains x s' where "m s = (Done x, s')" and "P x s'"
  using assms by (auto simp: lands_def)

lemma lands_ret [simp]: "lands P (ret x) s \<longleftrightarrow> P x s"
  by (simp add: lands_def ret_def)

lemma lands_mono: "lands P m s \<Longrightarrow> (\<And>x s'. P x s' \<Longrightarrow> Q x s') \<Longrightarrow> lands Q m s"
  by (auto simp: lands_def)

lemma lands_bindP: "lands (\<lambda>x. lands P (f x)) m s \<Longrightarrow> lands P (bindP m f) s"
  by (auto simp: lands_def bindP_def)

lemma lands_orReturn:
  "lands (\<lambda>err s'. err = None \<and> lands P rest s') m s \<Longrightarrow> lands P (orReturn m h rest) s"
  by (auto simp: lands_def orReturn_def bindP_def)

subsection \<open>Go maps and range statements\<close>

type_synonym strmap = "(string, string) fmap option"

type_synonym range_order = "nat \<Rightarrow> (string, string) fmap \<Rightarrow> (string \<times> string) list"

text \<open>Every entry is visited exactly once, in some order.\<close>

definition range_ok :: "range_order \<Rightarrow> bool" where
  "range_ok ord \<longleftrightarrow>
     (\<forall>site m. distinct (map fst (ord site m)) \<and> map_of (ord site m) = fmlookup m)"

text \<open>Ranging over the nil map visits nothing.\<close>

definition rangeMap :: "range_order \<Rightarrow> nat \<Rightarrow> strmap \<Rightarrow> (string \<times> string) list" where
  "rangeMap ord site m = (case m of None \<Rightarrow> [] | Some f \<Rightarrow> ord site f)"

text \<open>\<open>m[k]\<close> on a missing key or the nil map is the empty string.\<close>

definition mapLookup :: "strmap \<Rightarrow> string \<rightharpoonup> string" where
  "mapLookup m = (case m of None \<Rightarrow> Map.empty | Some f \<Rightarrow> fmlookup f)"

definition mapIndex :: "strmap \<Rightarrow> string \<Rightarrow> string" where
  "mapIndex m k = (case mapLookup m k of None \<Rightarrow> [] | Some v \<Rightarrow> v)"

definition mapKeys :: "strmap \<Rightarrow> string set" where
  "mapKeys m = dom (mapLookup m)"

text \<open>One order the language allows: by key. Witnesses run with it.\<close>

definition sorted_range :: range_order where
  "sorted_range site m =
     map (\<lambda>k. (k, the (fmlookup m k))) (sorted_list_of_fset (fmdom m))"

lemma map_of_map_self:
  "map_of (map (\<lambda>k. (k, f k)) ks) = (\<lambda>k. if k \<in> set ks then Some (f k) else None)"
  by (induction ks) auto

lemma sorted_range_ok: "range_ok sorted_range"
proof -
  have "map_of (sorted_range site m) = fmlookup m" for site m
    by (rule ext) (auto simp: sorted_range_def map_of_map_self fmdom_notI fmdom'_alt_def
        intro: fmdomE dest: fmdom_notD)
  moreover have "distinct (map fst (sorted_range site m))" for site m
    by (simp add: sorted_range_def comp_def sorted_list_of_fset.rep_eq)
  ultimately show ?thesis by (simp add: range_ok_def)
qed

lemma rangeMap_None [simp]: "rangeMap ord site None = []"
  by (simp add: rangeMap_def)

lemma mapLookup_None [simp]: "mapLookup None = Map.empty"
  by (simp add: mapLookup_def)

lemma mapLookup_Some [simp]: "mapLookup (Some f) = fmlookup f"
  by (simp add: mapLookup_def)

lemma mapKeys_None [simp]: "mapKeys None = {}"
  by (simp add: mapKeys_def)

lemma rangeMap_map_of: "range_ok ord \<Longrightarrow> map_of (rangeMap ord site m) = mapLookup m"
  by (auto simp: range_ok_def rangeMap_def mapLookup_def split: option.splits)

lemma rangeMap_distinct: "range_ok ord \<Longrightarrow> distinct (map fst (rangeMap ord site m))"
  by (auto simp: range_ok_def rangeMap_def split: option.splits)

lemma rangeMap_keys: "range_ok ord \<Longrightarrow> set (map fst (rangeMap ord site m)) = mapKeys m"
  using rangeMap_map_of [of ord site m] dom_map_of_conv_image_fst [of "rangeMap ord site m"]
  by (simp add: mapKeys_def)

lemma finite_mapKeys [simp]: "finite (mapKeys m)"
  by (cases m) (simp_all add: mapKeys_def)

text \<open>Sorting the visited keys removes the freedom of the order.\<close>

lemma sort_range_keys:
  "range_ok ord \<Longrightarrow> sort (map fst (rangeMap ord site m)) = sorted_list_of_set (mapKeys m)"
  using rangeMap_distinct [of ord site m] rangeMap_keys [of ord site m]
    sorted_list_of_set_sort_remdups [of "map fst (rangeMap ord site m)"]
  by (simp add: distinct_remdups_id)

end
