(* ===== verification/GoStrings.thy ===== *)
theory GoStrings
  imports Prelude
begin

text \<open>
  The operations of Go's standard library on strings that the operator calls. A Go string is a
  byte string, a HOL \<open>string\<close> a list of 8-bit characters, so the model is byte for byte.

  \<^item> \<open>splitOn\<close> is \<open>strings.Split\<close> for a separator of one byte, \<open>joinWith\<close> its inverse.
  \<^item> \<open>fields\<close> is \<open>strings.Fields\<close>. Its white space is \<open>unicode.IsSpace\<close> on the decoded runes;
    every white-space rune is recognised by its UTF-8 bytes. Each pattern starts with an ASCII or
    a lead byte, and its other bytes are continuation bytes, so a byte-wise scan finds the same
    cuts as decoding does.
  \<^item> \<open>showInt32\<close> is the \<open>%v\<close> verb on an \<open>int32\<close>; \<open>line k\<close> is \<open>Sprintf("%s\n", k)\<close>.
\<close>

abbreviation newline :: char where
  "newline \<equiv> CHR 0x0A"

subsection \<open>strings.Split with a one-byte separator\<close>

fun splitOn :: "char \<Rightarrow> string \<Rightarrow> string list" where
  "splitOn c [] = [[]]"
| "splitOn c (x # xs) =
     (if x = c then [] # splitOn c xs
      else case splitOn c xs of [] \<Rightarrow> [[x]] | w # ws \<Rightarrow> (x # w) # ws)"

fun joinWith :: "char \<Rightarrow> string list \<Rightarrow> string" where
  "joinWith c [] = []"
| "joinWith c [w] = w"
| "joinWith c (w # ws) = w @ c # joinWith c ws"

lemma splitOn_nonempty [simp]: "splitOn c s \<noteq> []"
  by (induction s) (auto split: list.splits)

lemma joinWith_cons_char: "joinWith c ((x # w) # ws) = x # joinWith c (w # ws)"
  by (cases ws) simp_all

lemma joinWith_Nil_Cons: "ws \<noteq> [] \<Longrightarrow> joinWith c ([] # ws) = c # joinWith c ws"
  by (cases ws) simp_all

lemma joinWith_splitOn [string_simps]: "joinWith c (splitOn c s) = s"
proof (induction s)
  case Nil
  then show ?case by simp
next
  case (Cons x xs)
  show ?case
  proof (cases "x = c")
    case True
    with Cons show ?thesis by (simp add: joinWith_Nil_Cons)
  next
    case False
    obtain w ws where "splitOn c xs = w # ws"
      by (cases "splitOn c xs") auto
    with False Cons show ?thesis by (simp add: joinWith_cons_char)
  qed
qed

lemma splitOn_no_sep [simp]: "c \<notin> set w \<Longrightarrow> splitOn c w = [w]"
  by (induction w) auto

lemma splitOn_append_sep:
  "c \<notin> set w \<Longrightarrow> splitOn c (w @ c # s) = w # splitOn c s"
  by (induction w) auto

lemma splitOn_joinWith [string_simps]:
  "ws \<noteq> [] \<Longrightarrow> \<forall>w \<in> set ws. c \<notin> set w \<Longrightarrow> splitOn c (joinWith c ws) = ws"
  by (induction c ws rule: joinWith.induct) (simp_all add: splitOn_append_sep)

lemma splitOn_pieces: "w \<in> set (splitOn c s) \<Longrightarrow> c \<notin> set w"
proof (induction s arbitrary: w)
  case Nil
  then show ?case by simp
next
  case (Cons x xs)
  obtain v vs where v: "splitOn c xs = v # vs"
    by (cases "splitOn c xs") auto
  with Cons show ?case by (auto split: if_splits)
qed

lemma length_splitOn: "length (splitOn c s) = Suc (count_list s c)"
  by (induction s) (auto split: list.splits)

text \<open>\<open>strings.Split\<close> gives exactly two pieces where the separator occurs exactly once.\<close>

lemma splitOn_pair_iff:
  "splitOn c s = [k, v] \<longleftrightarrow> s = k @ c # v \<and> c \<notin> set k \<and> c \<notin> set v"
proof
  assume h: "splitOn c s = [k, v]"
  have "s = joinWith c [k, v]"
    using joinWith_splitOn [of c s] h by simp
  moreover have "c \<notin> set k" and "c \<notin> set v"
    using splitOn_pieces [of k c s] splitOn_pieces [of v c s] h by simp_all
  ultimately show "s = k @ c # v \<and> c \<notin> set k \<and> c \<notin> set v" by simp
next
  assume "s = k @ c # v \<and> c \<notin> set k \<and> c \<notin> set v"
  then show "splitOn c s = [k, v]" by (simp add: splitOn_append_sep)
qed

subsection \<open>strings.Fields\<close>

definition asciiSpaces :: "char list" where
  "asciiSpaces = [CHR 0x09, CHR 0x0A, CHR 0x0B, CHR 0x0C, CHR 0x0D, CHR 0x20]"

text \<open>U+0085 and U+00A0.\<close>

definition spaces2 :: "string list" where
  "spaces2 = [[CHR 0xC2, CHR 0x85], [CHR 0xC2, CHR 0xA0]]"

text \<open>U+1680, U+2000 to U+200A, U+2028, U+2029, U+202F, U+205F and U+3000.\<close>

definition spaces3 :: "string list" where
  "spaces3 =
     [[CHR 0xE1, CHR 0x9A, CHR 0x80],
      [CHR 0xE2, CHR 0x80, CHR 0x80], [CHR 0xE2, CHR 0x80, CHR 0x81],
      [CHR 0xE2, CHR 0x80, CHR 0x82], [CHR 0xE2, CHR 0x80, CHR 0x83],
      [CHR 0xE2, CHR 0x80, CHR 0x84], [CHR 0xE2, CHR 0x80, CHR 0x85],
      [CHR 0xE2, CHR 0x80, CHR 0x86], [CHR 0xE2, CHR 0x80, CHR 0x87],
      [CHR 0xE2, CHR 0x80, CHR 0x88], [CHR 0xE2, CHR 0x80, CHR 0x89],
      [CHR 0xE2, CHR 0x80, CHR 0x8A], [CHR 0xE2, CHR 0x80, CHR 0xA8],
      [CHR 0xE2, CHR 0x80, CHR 0xA9], [CHR 0xE2, CHR 0x80, CHR 0xAF],
      [CHR 0xE2, CHR 0x81, CHR 0x9F], [CHR 0xE3, CHR 0x80, CHR 0x80]]"

text \<open>The width in bytes of the white-space rune at the head of the string, 0 if there is none.\<close>

definition spaceWidth :: "string \<Rightarrow> nat" where
  "spaceWidth s =
     (if s \<noteq> [] \<and> hd s \<in> set asciiSpaces then 1
      else if take 2 s \<in> set spaces2 then 2
      else if take 3 s \<in> set spaces3 then 3
      else 0)"

text \<open>\<open>acc\<close> is the field being read.\<close>

function fieldsFrom :: "string \<Rightarrow> string \<Rightarrow> string list" where
  "fieldsFrom acc [] = (if acc = [] then [] else [acc])"
| "fieldsFrom acc (c # cs) =
     (if spaceWidth (c # cs) = 0 then fieldsFrom (acc @ [c]) cs
      else (if acc = [] then [] else [acc]) @ fieldsFrom [] (drop (spaceWidth (c # cs)) (c # cs)))"
  by pat_completeness auto
termination
  by (relation "measure (\<lambda>(acc, s). length s)") auto

definition fields :: "string \<Rightarrow> string list" where
  "fields s = fieldsFrom [] s"

text \<open>No white-space rune starts anywhere in the string.\<close>

fun spaceFree :: "string \<Rightarrow> bool" where
  "spaceFree [] = True"
| "spaceFree (c # cs) = (spaceWidth (c # cs) = 0 \<and> spaceFree cs)"

lemma spaceWidth_newline [simp]: "spaceWidth (newline # s) = 1"
  by (simp add: spaceWidth_def asciiSpaces_def)

lemma no_newline_in_patterns:
  "p \<in> set spaces2 \<union> set spaces3 \<Longrightarrow> newline \<notin> set p"
  by (auto simp: spaces2_def spaces3_def)

text \<open>A newline behind a string does not complete a pattern that the string starts.\<close>

lemma spaceWidth_before_newline:
  assumes "w \<noteq> []"
  shows "spaceWidth (w @ newline # s) = spaceWidth w"
proof -
  have eq: "take n (w @ newline # s) \<in> P \<longleftrightarrow> take n w \<in> P"
    if "\<forall>p \<in> P. length p = n" "P \<subseteq> set spaces2 \<union> set spaces3" for n P
  proof (cases "n \<le> length w")
    case False
    then have "newline \<in> set (take n (w @ newline # s))" by (auto simp: take_Cons')
    moreover have "take n w \<notin> P" using that(1) False by auto
    ultimately show ?thesis using that(2) no_newline_in_patterns by blast
  qed simp
  have "take 2 (w @ newline # s) \<in> set spaces2 \<longleftrightarrow> take 2 w \<in> set spaces2"
    by (rule eq) (auto simp: spaces2_def)
  moreover have "take 3 (w @ newline # s) \<in> set spaces3 \<longleftrightarrow> take 3 w \<in> set spaces3"
    by (rule eq) (auto simp: spaces3_def)
  ultimately show ?thesis using assms by (simp add: spaceWidth_def)
qed

lemma take_pattern_prefix:
  "\<forall>p \<in> P. length p = n \<Longrightarrow> take n (w @ s) \<notin> P \<Longrightarrow> take n w \<notin> P"
  by (cases "n \<le> length w") auto

lemma spaceWidth_0_iff:
  "spaceWidth s = 0 \<longleftrightarrow>
     (s = [] \<or> hd s \<notin> set asciiSpaces) \<and> take 2 s \<notin> set spaces2 \<and> take 3 s \<notin> set spaces3"
  by (simp add: spaceWidth_def)

lemma pattern_lengths: "\<forall>p \<in> set spaces2. length p = 2" "\<forall>p \<in> set spaces3. length p = 3"
  by (simp_all add: spaces2_def spaces3_def)

lemma spaceWidth_prefix:
  assumes "w \<noteq> []" and "spaceWidth (w @ s) = 0"
  shows "spaceWidth w = 0"
proof -
  from assms(2) have "take 2 w \<notin> set spaces2" and "take 3 w \<notin> set spaces3"
    using take_pattern_prefix pattern_lengths by (metis spaceWidth_0_iff)+
  with assms show ?thesis by (simp add: spaceWidth_0_iff)
qed

lemma fieldsFrom_field:
  "spaceFree w \<Longrightarrow> fieldsFrom acc (w @ newline # s) =
     (if acc @ w = [] then fields s else (acc @ w) # fields s)"
proof (induction w arbitrary: acc)
  case Nil
  then show ?case by (simp add: fields_def)
next
  case (Cons c cs)
  then have "spaceWidth (c # cs @ newline # s) = 0"
    using spaceWidth_before_newline [of "c # cs" s] by simp
  with Cons show ?case by simp
qed

lemma fields_line: "spaceFree w \<Longrightarrow> w \<noteq> [] \<Longrightarrow> fields (w @ newline # s) = w # fields s"
  by (simp add: fields_def [of "w @ newline # s"] fieldsFrom_field)

lemma fields_Nil [simp]: "fields [] = []"
  by (simp add: fields_def)

text \<open>
  The fields of a string are non-empty and free of white space. The invariant of the scan: no
  white space starts in the field read so far, whatever follows it.
\<close>

fun scanned :: "string \<Rightarrow> string \<Rightarrow> bool" where
  "scanned [] s = True"
| "scanned (c # cs) s = (spaceWidth (c # cs @ s) = 0 \<and> scanned cs s)"

lemma scanned_snoc: "scanned acc (c # cs) \<Longrightarrow> spaceWidth (c # cs) = 0 \<Longrightarrow> scanned (acc @ [c]) cs"
  by (induction acc) simp_all

lemma scanned_spaceFree: "scanned acc s \<Longrightarrow> spaceFree acc"
proof (induction acc)
  case Nil
  then show ?case by simp
next
  case (Cons c cs)
  then show ?case using spaceWidth_prefix [of "c # cs" s] by simp
qed

lemma fieldsFrom_pieces:
  "scanned acc s \<Longrightarrow> w \<in> set (fieldsFrom acc s) \<Longrightarrow> w \<noteq> [] \<and> spaceFree w"
proof (induction acc s rule: fieldsFrom.induct)
  case (1 acc)
  then show ?case by (auto dest: scanned_spaceFree split: if_splits)
next
  case (2 acc c cs)
  show ?case
  proof (cases "spaceWidth (c # cs) = 0")
    case True
    with "2.IH"(1) "2.prems" show ?thesis by (simp add: scanned_snoc)
  next
    case False
    with "2.IH"(2) "2.prems" show ?thesis
      by (auto dest: scanned_spaceFree split: if_splits)
  qed
qed

lemma fields_pieces: "w \<in> set (fields s) \<Longrightarrow> w \<noteq> [] \<and> spaceFree w"
  unfolding fields_def by (rule fieldsFrom_pieces [of "[]" s]) simp_all

subsection \<open>fmt.Sprintf\<close>

text \<open>\<open>Sprintf("%s\n", k)\<close>.\<close>

definition line :: "string \<Rightarrow> string" where
  "line k = k @ [newline]"

lemma fields_lines:
  "\<forall>w \<in> set ws. w \<noteq> [] \<and> spaceFree w \<Longrightarrow> fields (concat (map line ws)) = ws"
  by (induction ws) (simp_all add: line_def fields_line)

lemma splitOn_lines:
  "\<forall>w \<in> set ws. newline \<notin> set w \<Longrightarrow> splitOn newline (concat (map line ws)) = ws @ [[]]"
  by (induction ws) (simp_all add: line_def splitOn_append_sep)

text \<open>The decimal digits of a number, and what they denote.\<close>

definition digit :: "nat \<Rightarrow> char" where
  "digit d = char_of (48 + d)"

fun showNat :: "nat \<Rightarrow> string" where
  "showNat n = (if n < 10 then [digit n] else showNat (n div 10) @ [digit (n mod 10)])"

declare showNat.simps [simp del]

definition showInt32 :: "int32 \<Rightarrow> string" where
  "showInt32 w = (let i = sint w in
     if i < 0 then CHR ''-'' # showNat (nat (- i)) else showNat (nat i))"

definition readNat :: "string \<Rightarrow> nat" where
  "readNat = foldl (\<lambda>n c. 10 * n + (of_char c - 48)) 0"

definition readInt32 :: "string \<Rightarrow> int32" where
  "readInt32 s = (case s of
     [] \<Rightarrow> 0
   | c # cs \<Rightarrow> if c = CHR ''-'' then of_int (- int (readNat cs)) else of_int (int (readNat s)))"

lemma of_char_digit: "d < 10 \<Longrightarrow> of_char (digit d) = (48 + d :: nat)"
  by (simp add: digit_def take_bit_eq_mod)

lemma readNat_snoc: "readNat (s @ [c]) = 10 * readNat s + (of_char c - 48)"
  by (simp add: readNat_def)

lemma readNat_showNat [simp]: "readNat (showNat n) = n"
proof (induction n rule: showNat.induct)
  case (1 n)
  show ?case
  proof (cases "n < 10")
    case True
    then show ?thesis
      by (simp add: showNat.simps [of n] readNat_def of_char_digit)
  next
    case False
    then have "readNat (showNat n) = 10 * readNat (showNat (n div 10)) + n mod 10"
      by (simp add: showNat.simps [of n] readNat_snoc of_char_digit)
    with "1" False show ?thesis by simp
  qed
qed

lemma digit_not_minus: "d < 10 \<Longrightarrow> digit d \<noteq> CHR ''-''"
proof
  assume "d < 10" and "digit d = CHR ''-''"
  then have "(48 + d :: nat) = of_char (CHR ''-'')" by (metis of_char_digit)
  then show False by simp
qed

lemma hd_showNat: "showNat n \<noteq> [] \<and> hd (showNat n) \<noteq> CHR ''-''"
proof (induction n rule: showNat.induct)
  case (1 n)
  then show ?case
    by (cases "n < 10") (simp_all add: showNat.simps [of n] digit_not_minus)
qed

text \<open>The rendering loses nothing: reading it back gives the word.\<close>

lemma readInt32_showInt32 [string_simps]: "readInt32 (showInt32 w) = w"
proof (cases "sint w < 0")
  case True
  then show ?thesis by (simp add: showInt32_def readInt32_def)
next
  case False
  obtain c cs where s: "showNat (nat (sint w)) = c # cs" "c \<noteq> CHR ''-''"
    using hd_showNat [of "nat (sint w)"] by (cases "showNat (nat (sint w))") auto
  have "readNat (c # cs) = nat (sint w)"
    using readNat_showNat [of "nat (sint w)"] s by simp
  with False s show ?thesis by (simp add: showInt32_def readInt32_def)
qed

end
