(* ===== verification/Utils.thy ===== *)
theory Utils
  imports GoStrings "HOL-Library.Sublist"
begin

text \<open>
  \<open>src/controllers/utils.go\<close>: the names of a cluster's children, the rendering of property maps
  and the splitting of \<open>key=value\<close> strings. Two interfaces are stated as locales:
  \<open>child_name\<close> (a naming function that appends a fixed suffix), interpreted for every naming
  function of the file, and \<open>pair_splitter\<close> (split at the only occurrence of a separator),
  interpreted for \<open>splitDynamicArgs\<close> and \<open>splitDynamicConfigs\<close>.
\<close>

subsection \<open>Names of the children\<close>

definition getPrestoConfigMapName :: "string \<Rightarrow> string" where
  "getPrestoConfigMapName clusterName = clusterName @ ''-presto-configmap''"

definition getCatalogConfigMapName :: "string \<Rightarrow> string" where
  "getCatalogConfigMapName clusterName = clusterName @ ''-catalog-configmap''"

definition getCoordinatorDeploymentName :: "string \<Rightarrow> string" where
  "getCoordinatorDeploymentName clusterName = clusterName @ ''-coordinator''"

definition getCoordinatorServiceName :: "string \<Rightarrow> string" where
  "getCoordinatorServiceName clusterName = clusterName"

definition getWorkerDeploymentName :: "string \<Rightarrow> string" where
  "getWorkerDeploymentName clusterName = clusterName @ ''-worker''"

locale child_name =
  fixes name :: "string \<Rightarrow> string" and suffix :: string
  assumes name_eq: "name c = c @ suffix"
begin

lemma name_inj: "name a = name b \<longleftrightarrow> a = b"
  by (simp add: name_eq)

lemma name_ends: "Sublist.suffix suffix (name c)"
  by (simp add: name_eq suffix_def)

end

text \<open>Two naming functions whose suffixes do not end each other never give the same name.\<close>

locale disjoint_names = left: child_name f u + right: child_name g v
  for f :: "string \<Rightarrow> string" and u :: string and g :: "string \<Rightarrow> string" and v :: string +
  assumes suffixes_clash: "\<not> Sublist.suffix u v" "\<not> Sublist.suffix v u"
begin

lemma names_disjoint: "f a \<noteq> g b"
  using suffixes_clash left.name_ends [of a] right.name_ends [of b] suffix_same_cases by metis

end

interpretation presto_cm: child_name getPrestoConfigMapName "''-presto-configmap''"
  by unfold_locales (simp add: getPrestoConfigMapName_def)

interpretation catalog_cm: child_name getCatalogConfigMapName "''-catalog-configmap''"
  by unfold_locales (simp add: getCatalogConfigMapName_def)

interpretation coordinator_dep: child_name getCoordinatorDeploymentName "''-coordinator''"
  by unfold_locales (simp add: getCoordinatorDeploymentName_def)

interpretation coordinator_svc: child_name getCoordinatorServiceName "[]"
  by unfold_locales (simp add: getCoordinatorServiceName_def)

interpretation worker_dep: child_name getWorkerDeploymentName "''-worker''"
  by unfold_locales (simp add: getWorkerDeploymentName_def)

interpretation configmap_names: disjoint_names getPrestoConfigMapName "''-presto-configmap''"
  getCatalogConfigMapName "''-catalog-configmap''"
  by unfold_locales (simp_all add: suffix_to_prefix)

interpretation deployment_names: disjoint_names getCoordinatorDeploymentName "''-coordinator''"
  getWorkerDeploymentName "''-worker''"
  by unfold_locales (simp_all add: suffix_to_prefix)

lemmas child_names_simps [simp] =
  presto_cm.name_inj catalog_cm.name_inj coordinator_dep.name_inj coordinator_svc.name_inj
  worker_dep.name_inj configmap_names.names_disjoint configmap_names.names_disjoint [symmetric]
  deployment_names.names_disjoint deployment_names.names_disjoint [symmetric]

subsection \<open>Rendering of properties\<close>

text \<open>\<open>keys\<close> is filled in iteration order, then sorted.\<close>

definition getProperties :: "range_order \<Rightarrow> strmap \<Rightarrow> string" where
  "getProperties ord properties =
     (let keys = sort (map fst (rangeMap ord 57 properties))
      in concat (map (\<lambda>key. line (key @ ''='' @ mapIndex properties key)) keys))"

definition getPropertiesFields :: "string \<Rightarrow> string" where
  "getPropertiesFields properties = concat (map line (fields properties))"

definition getPropertiesStrings :: "string \<Rightarrow> string" where
  "getPropertiesStrings properties = concat (map line (splitOn newline properties))"

text \<open>\<open>NameIsDNSSubdomain\<close> is a parameter: it is Kubernetes' validation package.\<close>

definition getPodsPrefix :: "(string \<Rightarrow> bool \<Rightarrow> string list) \<Rightarrow> string \<Rightarrow> string" where
  "getPodsPrefix nameIsDNSSubdomain controllerName =
     (let prefix = controllerName @ ''-''
      in if length (nameIsDNSSubdomain prefix True) \<noteq> 0 then controllerName else prefix)"

subsection \<open>Splitting of dynamic arguments\<close>

text \<open>Both return \<open>"", "", err\<close> on an error: the error is the left summand.\<close>

definition splitDynamicArgs :: "string \<Rightarrow> string + string \<times> string" where
  "splitDynamicArgs argsKeyValues =
     (let splited = splitOn CHR ''='' argsKeyValues
      in if length splited \<noteq> 2 then Inl ''danamic args key values format error''
         else Inr (splited ! 0, splited ! 1))"

definition splitDynamicConfigs :: "string \<Rightarrow> string + string \<times> string" where
  "splitDynamicConfigs argsKeyValues =
     (let splited = splitOn CHR '':'' argsKeyValues
      in if length splited \<noteq> 2 then Inl ''danamic configs format error''
         else Inr (splited ! 0, splited ! 1))"

definition splitDynamicConfigsArgs :: "string \<Rightarrow> string list" where
  "splitDynamicConfigsArgs argsKeyValues = splitOn CHR '';'' argsKeyValues"

locale pair_splitter =
  fixes split :: "string \<Rightarrow> string + string \<times> string" and sep :: char and message :: string
  assumes split_two: "splitOn sep s = [k, v] \<Longrightarrow> split s = Inr (k, v)"
    and split_other: "length (splitOn sep s) \<noteq> 2 \<Longrightarrow> split s = Inl message"
begin

lemma pieces_cases:
  obtains k v where "splitOn sep s = [k, v]" | "length (splitOn sep s) \<noteq> 2"
  by (cases "splitOn sep s"; cases "tl (splitOn sep s)"; cases "tl (tl (splitOn sep s))") auto

lemma split_Inr_iff: "split s = Inr (k, v) \<longleftrightarrow> s = k @ sep # v \<and> sep \<notin> set k \<and> sep \<notin> set v"
proof (cases rule: pieces_cases [of s])
  case (1 k' v')
  then show ?thesis using split_two [OF 1] by (auto simp flip: splitOn_pair_iff)
next
  case 2
  then show ?thesis using split_other [OF 2] by (auto simp flip: splitOn_pair_iff)
qed

lemma split_Inl_iff: "split s = Inl e \<longleftrightarrow> e = message \<and> count_list s sep \<noteq> 1"
proof (cases rule: pieces_cases [of s])
  case (1 k v)
  moreover have "count_list s sep = 1" using length_splitOn [of sep s] 1 by simp
  ultimately show ?thesis using split_two [OF 1] by simp
next
  case 2
  then have "count_list s sep \<noteq> 1" by (simp add: length_splitOn)
  then show ?thesis using split_other [OF 2] by auto
qed

end

lemma two_pieces_nth: "ws = [k, v] \<Longrightarrow> ws ! 0 = k \<and> ws ! 1 = v"
  by simp

interpretation args: pair_splitter splitDynamicArgs "CHR ''=''"
  "''danamic args key values format error''"
  by unfold_locales (simp_all add: splitDynamicArgs_def)

interpretation configs: pair_splitter splitDynamicConfigs "CHR '':''"
  "''danamic configs format error''"
  by unfold_locales (simp_all add: splitDynamicConfigs_def)

subsection \<open>What the renderings mean\<close>

lemma concat_lines_join: "ws \<noteq> [] \<Longrightarrow> concat (map line ws) = joinWith newline ws @ [newline]"
  by (induction newline ws rule: joinWith.induct) (simp_all add: line_def)

text \<open>
  A reader of \<open>key=value\<close> lines, the format \<open>getProperties\<close> writes: the specification its output
  is measured against. A line is cut at its first \<open>=\<close>; the empty line after the last newline is
  not an entry.
\<close>

definition readProperty :: "string \<Rightarrow> string \<times> string" where
  "readProperty l = (takeWhile (\<lambda>c. c \<noteq> CHR ''='') l, drop 1 (dropWhile (\<lambda>c. c \<noteq> CHR ''='') l))"

definition readProperties :: "string \<Rightarrow> (string \<times> string) list" where
  "readProperties s = map readProperty (butlast (splitOn newline s))"

lemma readProperty_line: "CHR ''='' \<notin> set k \<Longrightarrow> readProperty (k @ ''='' @ v) = (k, v)"
proof -
  assume "CHR ''='' \<notin> set k"
  then have "\<forall>c \<in> set k. c \<noteq> CHR ''=''" by auto
  then show ?thesis by (simp add: readProperty_def takeWhile_append2 dropWhile_append2)
qed

definition plainEntries :: "strmap \<Rightarrow> bool" where
  "plainEntries m \<longleftrightarrow> (\<forall>k \<in> mapKeys m. CHR ''='' \<notin> set k \<and> newline \<notin> set k
     \<and> newline \<notin> set (mapIndex m k))"

lemma getProperties_sorted:
  "range_ok ord \<Longrightarrow> getProperties ord m =
     concat (map (\<lambda>k. line (k @ ''='' @ mapIndex m k)) (sorted_list_of_set (mapKeys m)))"
  by (simp add: getProperties_def sort_range_keys)

lemma readProperties_getProperties:
  assumes "range_ok ord" and "plainEntries m"
  shows "readProperties (getProperties ord m)
     = map (\<lambda>k. (k, mapIndex m k)) (sorted_list_of_set (mapKeys m))"
proof -
  let ?ks = "sorted_list_of_set (mapKeys m)"
  let ?entry = "\<lambda>k. k @ ''='' @ mapIndex m k"
  have ks: "k \<in> mapKeys m" if "k \<in> set ?ks" for k using that by simp
  have "splitOn newline (concat (map line (map ?entry ?ks))) = map ?entry ?ks @ [[]]"
    by (rule splitOn_lines) (use assms(2) ks in \<open>auto simp: plainEntries_def\<close>)
  then have "readProperties (getProperties ord m) = map (readProperty \<circ> ?entry) ?ks"
    using assms(1) by (simp add: readProperties_def getProperties_sorted comp_def)
  also have "\<dots> = map (\<lambda>k. (k, mapIndex m k)) ?ks"
    using assms(2) by (intro map_cong) (auto simp: plainEntries_def readProperty_line [simplified])
  finally show ?thesis .
qed

subsection \<open>Properties of the helpers\<close>

text \<open>C35: \<open>getProperties\<close> writes one \<open>key=value\<close> line per entry, sorted by key whatever the
  iteration order, and a reader of such lines gets the map back, when no key holds a \<open>=\<close> and
  nothing holds a newline.\<close>

theorem getProperties_roundtrip:
  assumes "range_ok ord" and "plainEntries m"
  shows "map_of (readProperties (getProperties ord m)) = mapLookup m
    \<and> sorted (map fst (readProperties (getProperties ord m)))"
proof
  have val: "mapLookup m k = Some (mapIndex m k)" if "k \<in> mapKeys m" for k
    using that by (auto simp: mapKeys_def mapIndex_def split: option.split)
  have none: "mapLookup m k = None" if "k \<notin> mapKeys m" for k
    using that by (simp add: mapKeys_def domIff)
  show "map_of (readProperties (getProperties ord m)) = mapLookup m"
    unfolding readProperties_getProperties [OF assms] map_of_map_self
    using val none by (simp add: fun_eq_iff)
  show "sorted (map fst (readProperties (getProperties ord m)))"
    unfolding readProperties_getProperties [OF assms] by (simp add: comp_def)
qed

theorem getProperties_roundtrip_witness:
  "map_of (readProperties (getProperties sorted_range (Some (fmap_of_list [(''b'', ''1=2''), (''a'', [])]))))
     = map_of [(''b'', ''1=2''), (''a'', [])]"
proof -
  have "plainEntries (Some (fmap_of_list [(''b'', ''1=2''), (''a'', [])]))"
    by (auto simp: plainEntries_def mapKeys_def mapIndex_def fmlookup_of_list split: if_splits)
  from getProperties_roundtrip [OF sorted_range_ok this] show ?thesis
    by (auto simp: fmlookup_of_list)
qed

text \<open>\<open>getPropertiesFields\<close> brings a list of fields to its normal form, one per line: it keeps
  the fields, in order, and leaves its own output alone.\<close>

lemma getPropertiesFields_normal_form:
  "fields (getPropertiesFields s) = fields s
   \<and> getPropertiesFields (getPropertiesFields s) = getPropertiesFields s"
proof -
  have "fields (getPropertiesFields s) = fields s"
    unfolding getPropertiesFields_def by (rule fields_lines) (use fields_pieces in blast)
  then show ?thesis by (simp add: getPropertiesFields_def [of "getPropertiesFields s"])
    (simp add: getPropertiesFields_def)
qed

text \<open>Splitting at the newlines and writing the lines back appends exactly one newline: the
  content of \<open>getPropertiesStrings\<close> is its argument's, byte for byte.\<close>

lemma getPropertiesStrings_appends_newline: "getPropertiesStrings s = s @ [newline]"
  by (simp add: getPropertiesStrings_def concat_lines_join joinWith_splitOn)

text \<open>C37: a dynamic argument is accepted exactly when it holds one \<open>=\<close> (a configuration one \<open>:\<close>);
  then key and value are what stands before and after it, and otherwise the error is the fixed
  message of the function.\<close>

theorem dynamic_pairs_accepted_iff:
  "(splitDynamicArgs s = Inr (k, v) \<longleftrightarrow> s = k @ CHR ''='' # v \<and> CHR ''='' \<notin> set k \<union> set v)
   \<and> (splitDynamicArgs s = Inl e \<longleftrightarrow>
        e = ''danamic args key values format error'' \<and> count_list s CHR ''='' \<noteq> 1)
   \<and> (splitDynamicConfigs s = Inr (k, v) \<longleftrightarrow> s = k @ CHR '':'' # v \<and> CHR '':'' \<notin> set k \<union> set v)
   \<and> (splitDynamicConfigs s = Inl e \<longleftrightarrow>
        e = ''danamic configs format error'' \<and> count_list s CHR '':'' \<noteq> 1)"
  by (simp add: args.split_Inr_iff args.split_Inl_iff configs.split_Inr_iff configs.split_Inl_iff)

text \<open>C36: a list of configurations written as \<open>key:value\<close> items with semicolons between them is
  read back exactly by splitting at the semicolons and then each item.\<close>

theorem dynamic_configs_roundtrip:
  assumes "kvs \<noteq> []"
    and "\<forall>(k, v) \<in> set kvs. {CHR '':'', CHR '';''} \<inter> (set k \<union> set v) = {}"
  shows "map splitDynamicConfigs
      (splitDynamicConfigsArgs (joinWith CHR '';'' (map (\<lambda>(k, v). k @ CHR '':'' # v) kvs))) = map Inr kvs"
proof -
  have "splitDynamicConfigsArgs (joinWith CHR '';'' (map (\<lambda>(k, v). k @ CHR '':'' # v) kvs))
      = map (\<lambda>(k, v). k @ CHR '':'' # v) kvs"
    unfolding splitDynamicConfigsArgs_def using assms by (intro splitOn_joinWith) auto
  then show ?thesis using assms(2) by (auto simp: configs.split_Inr_iff)
qed

theorem dynamic_configs_roundtrip_witness:
  "map splitDynamicConfigs (splitDynamicConfigsArgs ''a:1;b:2'') = [Inr (''a'', ''1''), Inr (''b'', ''2'')]"
  using dynamic_configs_roundtrip [of "[(''a'', ''1''), (''b'', ''2'')]"] by simp

end
