(* ===== verification/ApiTypes.thy ===== *)
theory ApiTypes
  imports Utils
begin

text \<open>
  The data of the operator. First the custom resource of \<open>src/api/v1alpha1\<close>, field for field; then
  the Kubernetes objects, with the fields the operator reads or writes (the types themselves are
  Kubernetes' and are not under \<open>src/\<close>). A pointer field is an \<open>option\<close>; a map field is a
  \<open>strmap\<close>, whose \<open>None\<close> is the nil map; \<open>int32\<close> and \<open>int64\<close> keep their width.

  The record \<open>runtime_env\<close> gathers the third-party functions the operator calls and the order in
  which \<open>range\<close> statements run; \<open>env_ok\<close> states their documented behaviour.
\<close>

subsection \<open>Kubernetes metadata\<close>

record group_version_kind =
  gvk_Group :: string
  gvk_Version :: string
  gvk_Kind :: string

record owner_reference =
  or_APIVersion :: string
  or_Kind :: string
  or_Name :: string
  or_UID :: string
  or_Controller :: "bool option"
  or_BlockOwnerDeletion :: "bool option"

record object_meta =
  om_Name :: string
  om_Namespace :: string
  om_UID :: string
  om_ResourceVersion :: string
  om_Labels :: strmap
  om_OwnerReferences :: "owner_reference list"

text \<open>\<open>metav1.ObjectMeta{}\<close>.\<close>

definition zeroObjectMeta :: object_meta where
  "zeroObjectMeta = \<lparr>om_Name = [], om_Namespace = [], om_UID = [], om_ResourceVersion = [],
     om_Labels = None, om_OwnerReferences = []\<rparr>"

record type_meta =
  tm_APIVersion :: string
  tm_Kind :: string

record namespaced_name =
  nn_Namespace :: string
  nn_Name :: string

abbreviation keyOf :: "object_meta \<Rightarrow> namespaced_name" where
  "keyOf m \<equiv> \<lparr>nn_Namespace = om_Namespace m, nn_Name = om_Name m\<rparr>"

record resource_requirements =
  rr_Limits :: strmap
  rr_Requests :: strmap

subsection \<open>The custom resource\<close>

record coordinator_config =
  cc_Resources :: resource_requirements
  cc_EtcConfig :: strmap

record worker_config =
  wc_Resources :: resource_requirements
  wc_EtcConfig :: strmap

record presto_cluster_spec =
  spec_Name :: string
  spec_Image :: string
  spec_Workers :: "int32 option"
  spec_CoordinatorConfig :: coordinator_config
  spec_WorkerConfig :: worker_config
  spec_CatalogConfig :: strmap
  spec_Coresite :: strmap

record presto_cluster_status =
  status_AvailableWorkers :: int32

record presto_cluster =
  pc_TypeMeta :: type_meta
  pc_ObjectMeta :: object_meta
  pc_Spec :: presto_cluster_spec
  pc_Status :: presto_cluster_status

definition GroupVersion_Group :: string where
  "GroupVersion_Group = ''prestooperator.k8s.io''"

definition GroupVersion_Version :: string where
  "GroupVersion_Version = ''v1alpha1''"

subsection \<open>Workloads, services and config maps\<close>

record volume_mount =
  vm_Name :: string
  vm_MountPath :: string
  vm_SubPath :: string
  vm_ReadOnly :: bool

text \<open>A volume whose source is the config map of the given name.\<close>

record volume =
  vol_Name :: string
  vol_ConfigMapName :: string

text \<open>A handler is the command of its \<open>Exec\<close> action.\<close>

record lifecycle =
  lc_PostStart :: "string list option"
  lc_PreStop :: "string list option"

datatype pull_policy = PullAlways | PullIfNotPresent | PullNever

record container =
  ct_Name :: string
  ct_Resources :: resource_requirements
  ct_Image :: string
  ct_ImagePullPolicy :: pull_policy
  ct_Ports :: "int32 list"
  ct_VolumeMounts :: "volume_mount list"
  ct_Lifecycle :: "lifecycle option"

record pod_spec =
  ps_RunAsUser :: "int64 option"
  ps_Containers :: "container list"
  ps_Volumes :: "volume list"

record deployment_spec =
  ds_Replicas :: "int32 option"
  ds_MatchLabels :: strmap
  ds_TemplateLabels :: strmap
  ds_PodSpec :: pod_spec

record deployment =
  dep_ObjectMeta :: object_meta
  dep_Spec :: deployment_spec
  dep_AvailableReplicas :: int32

datatype protocol = ProtocolTCP | ProtocolUDP

text \<open>\<open>intstr.IntOrString\<close>.\<close>

datatype int_or_string = IntVal int32 | StrVal string

record service_port =
  sp_Protocol :: protocol
  sp_Port :: int32
  sp_TargetPort :: int_or_string

record service =
  svc_ObjectMeta :: object_meta
  svc_Selector :: strmap
  svc_Ports :: "service_port list"

record config_map =
  cm_ObjectMeta :: object_meta
  cm_Data :: strmap

record ingress =
  ing_ObjectMeta :: object_meta

record job =
  job_ObjectMeta :: object_meta

subsection \<open>Errors and results\<close>

text \<open>
  An error value of the client: the operator only asks whether it is Kubernetes' \<open>NotFound\<close>.
\<close>

datatype api_error = NotFound string | OtherError string

fun isNotFound :: "api_error \<Rightarrow> bool" where
  "isNotFound (NotFound _) = True"
| "isNotFound (OtherError _) = False"

text \<open>\<open>ctrl.Result\<close>; a \<open>time.Duration\<close> counts nanoseconds in an \<open>int64\<close>.\<close>

record ctrl_result =
  res_Requeue :: bool
  res_RequeueAfter :: int64

definition emptyResult :: ctrl_result where
  "emptyResult = \<lparr>res_Requeue = False, res_RequeueAfter = 0\<rparr>"

definition second :: int64 where
  "second = 1000000000"

subsection \<open>Third-party functions\<close>

record runtime_env =
  NewControllerRef :: "object_meta \<Rightarrow> group_version_kind \<Rightarrow> owner_reference"
  IntOrStringFromInt :: "int \<Rightarrow> int_or_string"
  IgnoreNotFound :: "api_error option \<Rightarrow> api_error option"
  ObjectMetaDeepCopy :: "object_meta \<Rightarrow> object_meta"
  ResourcesDeepCopy :: "resource_requirements \<Rightarrow> resource_requirements"
  rangeOrder :: range_order

text \<open>
  The documentation of each: \<open>client.IgnoreNotFound\<close> returns nil on a NotFound error and every
  other value unmodified; a deep copy equals its receiver; \<open>metav1.NewControllerRef\<close> creates an
  OwnerReference to the owner as a managing controller; \<open>intstr.FromInt\<close> holds the integer.
\<close>

definition env_ok :: "runtime_env \<Rightarrow> bool" where
  "env_ok env \<longleftrightarrow>
     (\<forall>err. IgnoreNotFound env err =
        (case err of Some e \<Rightarrow> if isNotFound e then None else Some e | None \<Rightarrow> None)) \<and>
     (\<forall>m. ObjectMetaDeepCopy env m = m) \<and>
     (\<forall>r. ResourcesDeepCopy env r = r) \<and>
     (\<forall>m gvk. or_Name (NewControllerRef env m gvk) = om_Name m \<and>
        or_UID (NewControllerRef env m gvk) = om_UID m \<and>
        or_Kind (NewControllerRef env m gvk) = gvk_Kind gvk \<and>
        or_Controller (NewControllerRef env m gvk) = Some True) \<and>
     (\<forall>i. IntOrStringFromInt env i = IntVal (of_int i)) \<and>
     range_ok (rangeOrder env)"

lemma env_ok_ignore:
  "env_ok env \<Longrightarrow> IgnoreNotFound env (Some e) = (if isNotFound e then None else Some e)"
  "env_ok env \<Longrightarrow> IgnoreNotFound env None = None"
  unfolding env_ok_def by simp_all

lemma env_ok_copies:
  "env_ok env \<Longrightarrow> ObjectMetaDeepCopy env m = m"
  "env_ok env \<Longrightarrow> ResourcesDeepCopy env r = r"
  by (simp_all add: env_ok_def)

lemma env_ok_controller:
  assumes "env_ok env"
  shows "or_Name (NewControllerRef env m gvk) = om_Name m"
    and "or_UID (NewControllerRef env m gvk) = om_UID m"
    and "or_Kind (NewControllerRef env m gvk) = gvk_Kind gvk"
    and "or_Controller (NewControllerRef env m gvk) = Some True"
  using assms by (simp_all add: env_ok_def)

lemma env_ok_fromInt: "env_ok env \<Longrightarrow> IntOrStringFromInt env i = IntVal (of_int i)"
  by (simp add: env_ok_def)

lemma env_ok_range: "env_ok env \<Longrightarrow> range_ok (rangeOrder env)"
  by (simp add: env_ok_def)

lemmas env_ok_simps = env_ok_ignore env_ok_copies env_ok_controller env_ok_fromInt env_ok_range

text \<open>An environment that keeps the documentation; witnesses run in it.\<close>

definition std_env :: runtime_env where
  "std_env = \<lparr>
     NewControllerRef = (\<lambda>m gvk. \<lparr>or_APIVersion = gvk_Group gvk @ ''/'' @ gvk_Version gvk,
       or_Kind = gvk_Kind gvk, or_Name = om_Name m, or_UID = om_UID m,
       or_Controller = Some True, or_BlockOwnerDeletion = Some True\<rparr>),
     IntOrStringFromInt = (\<lambda>i. IntVal (of_int i)),
     IgnoreNotFound = (\<lambda>err. case err of
       Some e \<Rightarrow> if isNotFound e then None else Some e | None \<Rightarrow> None),
     ObjectMetaDeepCopy = (\<lambda>m. m),
     ResourcesDeepCopy = (\<lambda>r. r),
     rangeOrder = sorted_range\<rparr>"

lemma std_env_ok: "env_ok std_env"
  by (simp add: env_ok_def std_env_def sorted_range_ok)

text \<open>The reverse order is allowed too: a second environment, to compare runs.\<close>

definition reverse_env :: runtime_env where
  "reverse_env = std_env\<lparr>rangeOrder := (\<lambda>site m. rev (sorted_range site m))\<rparr>"

lemma map_of_rev_distinct: "distinct (map fst xs) \<Longrightarrow> map_of (rev xs) = map_of xs"
proof (rule map_of_eqI)
  assume d: "distinct (map fst xs)"
  then have d': "distinct (map fst (rev xs))" by (simp flip: rev_map)
  show "\<forall>k \<in> set (map fst (rev xs)). map_of (rev xs) k = map_of xs k"
  proof
    fix k
    assume "k \<in> set (map fst (rev xs))"
    then obtain v where "(k, v) \<in> set xs" by auto
    then show "map_of (rev xs) k = map_of xs k"
      using map_of_is_SomeI [OF d] map_of_is_SomeI [OF d'] by simp
  qed
qed simp

lemma reverse_env_ok: "env_ok reverse_env"
  using sorted_range_ok
  by (simp add: env_ok_def reverse_env_def std_env_def range_ok_def map_of_rev_distinct
      flip: rev_map)

end
