(* ===== verification/DeepCopy.thy ===== *)
theory DeepCopy
  imports ApiTypes
begin

text \<open>
  \<open>src/api/v1alpha1/zz_generated.deepcopy.go\<close> at two levels.

  \<^item> Values: \<open>..._DeepCopyInto\<close> rebuild a value as the generated code does, a map by a loop over
    its entries. The other components, which never write through a pointer, use this level.
  \<^item> Heap: the same functions (\<open>h...\<close>) on structures whose pointers, maps and slices are references
    into an explicit store. What a deep copy is for only shows here: the copy has the same view,
    all its references are fresh, and a write through it leaves the original alone.

  The interface \<open>deep_copy\<close> states what a copying function promises; it is interpreted for the
  three kinds of reference the generated code copies, then for every structure, each on the
  facts of its parts.
  The generated file still copies the fields \<open>DynamicArgs\<close> and the type \<open>CatalogConfig\<close> that
  \<open>prestocluster_types.go\<close> has dropped: the heap structures carry them, as the file does.
\<close>

subsection \<open>Values\<close>

definition copyMap :: "runtime_env \<Rightarrow> nat \<Rightarrow> strmap \<Rightarrow> strmap" where
  "copyMap env site m = (case m of None \<Rightarrow> None
     | Some f \<Rightarrow> Some (fold (\<lambda>(key, val) out. fmupd key val out)
         (rangeMap (rangeOrder env) site m) fmempty))"

definition CoordinatorConfig_DeepCopyInto ::
  "runtime_env \<Rightarrow> coordinator_config \<Rightarrow> coordinator_config" where
  "CoordinatorConfig_DeepCopyInto env c =
     c\<lparr>cc_Resources := ResourcesDeepCopy env (cc_Resources c),
       cc_EtcConfig := copyMap env 59 (cc_EtcConfig c)\<rparr>"

definition WorkerConfig_DeepCopyInto :: "runtime_env \<Rightarrow> worker_config \<Rightarrow> worker_config" where
  "WorkerConfig_DeepCopyInto env c =
     c\<lparr>wc_Resources := ResourcesDeepCopy env (wc_Resources c),
       wc_EtcConfig := copyMap env 197 (wc_EtcConfig c)\<rparr>"

definition PrestoClusterSpec_DeepCopyInto ::
  "runtime_env \<Rightarrow> presto_cluster_spec \<Rightarrow> presto_cluster_spec" where
  "PrestoClusterSpec_DeepCopyInto env s =
     s\<lparr>spec_Workers := (case spec_Workers s of None \<Rightarrow> None | Some w \<Rightarrow> Some w),
       spec_CoordinatorConfig := CoordinatorConfig_DeepCopyInto env (spec_CoordinatorConfig s),
       spec_WorkerConfig := WorkerConfig_DeepCopyInto env (spec_WorkerConfig s),
       spec_CatalogConfig := copyMap env 147 (spec_CatalogConfig s),
       spec_Coresite := copyMap env 154 (spec_Coresite s)\<rparr>"

definition PrestoCluster_DeepCopyInto :: "runtime_env \<Rightarrow> presto_cluster \<Rightarrow> presto_cluster" where
  "PrestoCluster_DeepCopyInto env c =
     c\<lparr>pc_ObjectMeta := ObjectMetaDeepCopy env (pc_ObjectMeta c),
       pc_Spec := PrestoClusterSpec_DeepCopyInto env (pc_Spec c)\<rparr>"

definition PrestoCluster_DeepCopy ::
  "runtime_env \<Rightarrow> presto_cluster option \<Rightarrow> presto_cluster option" where
  "PrestoCluster_DeepCopy env c =
     (case c of None \<Rightarrow> None | Some x \<Rightarrow> Some (PrestoCluster_DeepCopyInto env x))"

text \<open>The copy loop rebuilds the map, whatever the iteration order.\<close>

lemma fold_fmupd_lookup:
  "distinct (map fst xs) \<Longrightarrow>
     fmlookup (fold (\<lambda>(k, v) out. fmupd k v out) xs m) a =
       (case map_of xs a of Some v \<Rightarrow> Some v | None \<Rightarrow> fmlookup m a)"
proof (induction xs arbitrary: m)
  case Nil
  then show ?case by simp
next
  case (Cons x xs)
  obtain k v where x: "x = (k, v)" by (cases x)
  then have "map_of xs k = None" using Cons.prems by (simp add: map_of_eq_None_iff)
  with Cons x show ?case by (auto split: option.split)
qed

lemma rebuild_map:
  assumes "range_ok ord"
  shows "fold (\<lambda>(k, v) out. fmupd k v out) (ord site f) fmempty = f"
proof (rule fmap_ext)
  fix k
  have "distinct (map fst (ord site f))" and "map_of (ord site f) = fmlookup f"
    using assms by (simp_all add: range_ok_def)
  then show "fmlookup (fold (\<lambda>(k, v) out. fmupd k v out) (ord site f) fmempty) k = fmlookup f k"
    by (simp add: fold_fmupd_lookup split: option.splits)
qed

lemma copyMap_id [simp]: "env_ok env \<Longrightarrow> copyMap env site m = m"
  by (auto simp: copyMap_def rangeMap_def rebuild_map env_ok_range split: option.splits)

lemma PrestoClusterSpec_DeepCopyInto_id [simp]:
  "env_ok env \<Longrightarrow> PrestoClusterSpec_DeepCopyInto env s = s"
  by (simp add: PrestoClusterSpec_DeepCopyInto_def CoordinatorConfig_DeepCopyInto_def
      WorkerConfig_DeepCopyInto_def env_ok_copies split: option.splits)

lemma PrestoCluster_DeepCopyInto_id [simp]:
  "env_ok env \<Longrightarrow> PrestoCluster_DeepCopyInto env c = c"
  by (simp add: PrestoCluster_DeepCopyInto_def env_ok_copies)

subsection \<open>The store\<close>

record go_heap =
  ints :: "nat \<rightharpoonup> int32"
  maps :: "nat \<rightharpoonup> (string, string) fmap"
  slices :: "nat \<rightharpoonup> string list"
  nextAddr :: nat

text \<open>A reference is \<open>None\<close> (nil) or an address.\<close>

type_synonym ref = "nat option"

definition mapAt :: "go_heap \<Rightarrow> nat \<Rightarrow> (string, string) fmap" where
  "mapAt h a = (case maps h a of Some m \<Rightarrow> m | None \<Rightarrow> fmempty)"

definition intAt :: "go_heap \<Rightarrow> nat \<Rightarrow> int32" where
  "intAt h a = (case ints h a of Some i \<Rightarrow> i | None \<Rightarrow> 0)"

definition sliceAt :: "go_heap \<Rightarrow> nat \<Rightarrow> string list" where
  "sliceAt h a = (case slices h a of Some xs \<Rightarrow> xs | None \<Rightarrow> [])"

definition writeMap :: "nat \<Rightarrow> string \<Rightarrow> string \<Rightarrow> go_heap \<Rightarrow> go_heap" where
  "writeMap a k v h = h\<lparr>maps := (maps h)(a \<mapsto> fmupd k v (mapAt h a))\<rparr>"

definition writeInt :: "nat \<Rightarrow> int32 \<Rightarrow> go_heap \<Rightarrow> go_heap" where
  "writeInt a i h = h\<lparr>ints := (ints h)(a \<mapsto> i)\<rparr>"

definition writeSlice :: "nat \<Rightarrow> string list \<Rightarrow> go_heap \<Rightarrow> go_heap" where
  "writeSlice a xs h = h\<lparr>slices := (slices h)(a \<mapsto> xs)\<rparr>"

definition alloc :: "go_heap \<Rightarrow> nat \<times> go_heap" where
  "alloc h = (nextAddr h, h\<lparr>nextAddr := Suc (nextAddr h)\<rparr>)"

text \<open>An address is live when it has been allocated; a nil reference always is.\<close>

primrec live :: "go_heap \<Rightarrow> ref \<Rightarrow> bool" where
  "live h None = True"
| "live h (Some a) = (a < nextAddr h)"

text \<open>Allocated between the two stores.\<close>

primrec fresh :: "go_heap \<Rightarrow> go_heap \<Rightarrow> ref \<Rightarrow> bool" where
  "fresh h h' None = True"
| "fresh h h' (Some a) = (nextAddr h \<le> a \<and> a < nextAddr h')"

text \<open>The later store has more cells and the same contents in the old ones.\<close>

definition extends :: "go_heap \<Rightarrow> go_heap \<Rightarrow> bool" where
  "extends h h' \<longleftrightarrow> nextAddr h \<le> nextAddr h' \<and>
     (\<forall>a < nextAddr h. ints h' a = ints h a \<and> maps h' a = maps h a \<and> slices h' a = slices h a)"

lemma extends_refl [simp, intro]: "extends h h"
  by (simp add: extends_def)

lemma extends_trans [trans]: "extends h1 h2 \<Longrightarrow> extends h2 h3 \<Longrightarrow> extends h1 h3"
  by (auto simp: extends_def)

lemma extends_live: "extends h h' \<Longrightarrow> live h r \<Longrightarrow> live h' r"
  by (cases r) (auto simp: extends_def)

lemma fresh_live: "fresh h h' r \<Longrightarrow> live h' r"
  by (cases r) auto

lemma fresh_widen: "extends h0 h1 \<Longrightarrow> extends h2 h3 \<Longrightarrow> fresh h1 h2 r \<Longrightarrow> fresh h0 h3 r"
  by (cases r) (auto simp: extends_def)

text \<open>The step changes no cell but that of address \<open>a\<close> and allocates nothing.\<close>

definition touches :: "nat \<Rightarrow> go_heap \<Rightarrow> go_heap \<Rightarrow> bool" where
  "touches a h h' \<longleftrightarrow> nextAddr h' = nextAddr h \<and>
     (\<forall>b. b \<noteq> a \<longrightarrow> ints h' b = ints h b \<and> maps h' b = maps h b \<and> slices h' b = slices h b)"

lemma touches_writes:
  "touches a h (writeMap a k v h)" "touches a h (writeInt a i h)" "touches a h (writeSlice a xs h)"
  by (simp_all add: touches_def writeMap_def writeInt_def writeSlice_def)

definition viewMap :: "go_heap \<Rightarrow> ref \<Rightarrow> strmap" where
  "viewMap h r = (case r of None \<Rightarrow> None | Some a \<Rightarrow> Some (mapAt h a))"

definition viewInt :: "go_heap \<Rightarrow> ref \<Rightarrow> int32 option" where
  "viewInt h r = (case r of None \<Rightarrow> None | Some a \<Rightarrow> Some (intAt h a))"

definition viewSlice :: "go_heap \<Rightarrow> ref \<Rightarrow> string list option" where
  "viewSlice h r = (case r of None \<Rightarrow> None | Some a \<Rightarrow> Some (sliceAt h a))"

lemmas view_defs = viewMap_def viewInt_def viewSlice_def mapAt_def intAt_def sliceAt_def

subsection \<open>Copies of one reference\<close>

text \<open>\<open>*out = new(int32); **out = **in\<close>.\<close>

definition copyIntRef :: "ref \<Rightarrow> go_heap \<Rightarrow> ref \<times> go_heap" where
  "copyIntRef r h = (case r of None \<Rightarrow> (None, h)
     | Some a \<Rightarrow> (let (b, h1) = alloc h; h2 = writeInt b 0 h1
         in (Some b, writeInt b (intAt h2 a) h2)))"

text \<open>\<open>*out = make(map[string]string, len(*in)); for key, val := range *in { (*out)[key] = val }\<close>.\<close>

definition copyMapRef :: "runtime_env \<Rightarrow> nat \<Rightarrow> ref \<Rightarrow> go_heap \<Rightarrow> ref \<times> go_heap" where
  "copyMapRef env site r h = (case r of None \<Rightarrow> (None, h)
     | Some a \<Rightarrow> (let (b, h1) = alloc h; h2 = h1\<lparr>maps := (maps h1)(b \<mapsto> fmempty)\<rparr>
         in (Some b, fold (\<lambda>(key, val). writeMap b key val) (rangeOrder env site (mapAt h2 a)) h2)))"

text \<open>\<open>*out = make([]string, len(*in)); copy(*out, *in)\<close>.\<close>

definition copySliceRef :: "ref \<Rightarrow> go_heap \<Rightarrow> ref \<times> go_heap" where
  "copySliceRef r h = (case r of None \<Rightarrow> (None, h)
     | Some a \<Rightarrow> (let (b, h1) = alloc h;
           h2 = writeSlice b (replicate (length (sliceAt h1 a)) []) h1
         in (Some b, writeSlice b (sliceAt h2 a) h2)))"

text \<open>
  \<open>refs x\<close> are the references of the value \<open>x\<close>, \<open>view h x\<close> what it denotes in the store \<open>h\<close>, and
  \<open>ok\<close> is the condition on the environment under which copying keeps the view.
\<close>

locale deep_copy =
  fixes copy :: "'r \<Rightarrow> go_heap \<Rightarrow> 'r \<times> go_heap" and view :: "go_heap \<Rightarrow> 'r \<Rightarrow> 'v"
    and refs :: "'r \<Rightarrow> ref list" and ok :: bool
  assumes copy_extends: "copy r h = (r', h') \<Longrightarrow> extends h h'"
    and copy_fresh: "copy r h = (r', h') \<Longrightarrow> list_all (fresh h h') (refs r')"
    and copy_view: "ok \<Longrightarrow> copy r h = (r', h') \<Longrightarrow> list_all (live h) (refs r) \<Longrightarrow>
      view h' r' = view h r"
    and view_extends: "extends h h' \<Longrightarrow> list_all (live h) (refs r) \<Longrightarrow> view h' r = view h r"
begin

text \<open>A copy taken in the middle of a longer copying run.\<close>

lemma copy_within:
  assumes "copy r h1 = (r', h2)" and "extends h0 h1" and "extends h2 h3"
  shows "list_all (fresh h0 h3) (refs r')" and "extends h0 h2"
    and "ok \<Longrightarrow> list_all (live h0) (refs r) \<Longrightarrow> view h3 r' = view h0 r"
proof -
  have fr: "list_all (fresh h1 h2) (refs r')" and ex: "extends h1 h2"
    using assms(1) by (blast intro: copy_fresh copy_extends)+
  show "list_all (fresh h0 h3) (refs r')"
    using fr assms(2,3) by (auto simp: list_all_iff intro: fresh_widen)
  show "extends h0 h2" using assms(2) ex by (rule extends_trans)
  assume l: ok "list_all (live h0) (refs r)"
  then have l1: "list_all (live h1) (refs r)"
    using assms(2) by (auto simp: list_all_iff intro: extends_live)
  have "list_all (live h2) (refs r')"
    using fr by (auto simp: list_all_iff intro: fresh_live)
  then have "view h3 r' = view h2 r'" using assms(3) by (blast intro: view_extends)
  also have "\<dots> = view h1 r" using assms(1) l(1) l1 by (blast intro: copy_view)
  also have "\<dots> = view h0 r" using assms(2) l(2) by (blast intro: view_extends)
  finally show "view h3 r' = view h0 r" .
qed

text \<open>A write through a reference of the copy does not reach the original.\<close>

lemma copy_isolated:
  assumes "copy r h = (r', h1)" and "list_all (live h) (refs r)"
    and "Some a \<in> set (refs r')" and "touches a h1 h2"
  shows "view h2 r = view h r"
proof -
  have "nextAddr h \<le> a" using copy_fresh [OF assms(1)] assms(3) by (auto simp: list_all_iff)
  then have "extends h h2"
    using copy_extends [OF assms(1)] assms(4) by (auto simp: extends_def touches_def)
  then show ?thesis using assms(2) by (rule view_extends)
qed

end

text \<open>The store after an allocation and writes to the new cell only.\<close>

lemma extends_alloc:
  "nextAddr h' = Suc (nextAddr h) \<Longrightarrow>
   \<forall>a. a \<noteq> nextAddr h \<longrightarrow> ints h' a = ints h a \<and> maps h' a = maps h a \<and> slices h' a = slices h a \<Longrightarrow>
   extends h h'"
  by (simp add: extends_def)

lemma fold_writeMap:
  "maps h b = Some m \<Longrightarrow> fold (\<lambda>(k, v). writeMap b k v) xs h
     = h\<lparr>maps := (maps h)(b \<mapsto> fold (\<lambda>(k, v) out. fmupd k v out) xs m)\<rparr>"
proof (induction xs arbitrary: h m)
  case Nil
  then show ?case by (simp add: fun_upd_idem)
next
  case (Cons x xs)
  obtain k v where x: "x = (k, v)" by (cases x)
  have "maps (writeMap b k v h) b = Some (fmupd k v m)"
    using Cons.prems by (simp add: writeMap_def mapAt_def)
  from Cons.IH [OF this] Cons.prems x show ?case
    by (simp add: writeMap_def mapAt_def cong: if_cong)
qed

lemma copyMapRef_Some:
  "copyMapRef env site (Some a) h = (Some (nextAddr h),
     h\<lparr>nextAddr := Suc (nextAddr h), maps := (maps h)(nextAddr h \<mapsto>
       fold (\<lambda>(k, v) out. fmupd k v out)
         (rangeOrder env site (if a = nextAddr h then fmempty else mapAt h a)) fmempty)\<rparr>)"
  by (simp add: copyMapRef_def alloc_def fold_writeMap mapAt_def Let_def)

interpretation int_copy: deep_copy copyIntRef viewInt "\<lambda>r. [r]" True
proof unfold_locales
  fix r r' h h'
  assume c: "copyIntRef r h = (r', h')"
  show "extends h h'"
    using c by (cases r) (auto simp: copyIntRef_def alloc_def writeInt_def Let_def
        intro!: extends_alloc)
  show "list_all (fresh h h') [r']"
    using c by (cases r) (auto simp: copyIntRef_def alloc_def writeInt_def Let_def)
  show "viewInt h' r' = viewInt h r" if "list_all (live h) [r]"
    using c that by (cases r) (auto simp: copyIntRef_def alloc_def writeInt_def Let_def view_defs)
next
  fix h h' r
  assume "extends h h'" and "list_all (live h) [r]"
  then show "viewInt h' r = viewInt h r" by (cases r) (simp_all add: view_defs extends_def)
qed

interpretation slice_copy: deep_copy copySliceRef viewSlice "\<lambda>r. [r]" True
proof unfold_locales
  fix r r' h h'
  assume c: "copySliceRef r h = (r', h')"
  show "extends h h'"
    using c by (cases r) (auto simp: copySliceRef_def alloc_def writeSlice_def Let_def
        intro!: extends_alloc)
  show "list_all (fresh h h') [r']"
    using c by (cases r) (auto simp: copySliceRef_def alloc_def writeSlice_def Let_def)
  show "viewSlice h' r' = viewSlice h r" if "list_all (live h) [r]"
    using c that
    by (cases r) (auto simp: copySliceRef_def alloc_def writeSlice_def Let_def view_defs)
next
  fix h h' r
  assume "extends h h'" and "list_all (live h) [r]"
  then show "viewSlice h' r = viewSlice h r" by (cases r) (simp_all add: view_defs extends_def)
qed

interpretation map_copy: deep_copy "copyMapRef env site" viewMap "\<lambda>r. [r]" "env_ok env"
  for env site
proof unfold_locales
  fix r r' h h'
  assume c: "copyMapRef env site r h = (r', h')"
  show "extends h h'"
    using c by (cases r) (auto simp: copyMapRef_def [of _ _ None] copyMapRef_Some
        intro!: extends_alloc)
  show "list_all (fresh h h') [r']"
    using c by (cases r) (auto simp: copyMapRef_def [of _ _ None] copyMapRef_Some)
  show "viewMap h' r' = viewMap h r" if "env_ok env" and "list_all (live h) [r]"
    using c that by (cases r) (auto simp: copyMapRef_def [of _ _ None] copyMapRef_Some
        viewMap_def mapAt_def rebuild_map env_ok_range)
next
  fix h h' r
  assume "extends h h'" and "list_all (live h) [r]"
  then show "viewMap h' r = viewMap h r" by (cases r) (simp_all add: view_defs extends_def)
qed

subsection \<open>Structures in the store\<close>

record h_catalog_config =
  hcat_DynamicConfigs :: ref

record h_coordinator_config =
  hcc_Resources :: resource_requirements
  hcc_DynamicArgs :: ref
  hcc_EtcConfig :: ref

record h_worker_config =
  hwc_Resources :: resource_requirements
  hwc_DynamicArgs :: ref
  hwc_EtcConfig :: ref

record h_spec =
  hs_Name :: string
  hs_Image :: string
  hs_Workers :: ref
  hs_CoordinatorConfig :: h_coordinator_config
  hs_WorkerConfig :: h_worker_config
  hs_CatalogConfig :: ref
  hs_Coresite :: ref

record h_cluster =
  hc_TypeMeta :: type_meta
  hc_ObjectMeta :: object_meta
  hc_Spec :: h_spec
  hc_Status :: presto_cluster_status

text \<open>\<open>Items\<close> is nil or the elements of the slice.\<close>

record h_cluster_list =
  hl_TypeMeta :: type_meta
  hl_Items :: "h_cluster list option"

definition hCatalogConfig_DeepCopyInto ::
  "h_catalog_config \<Rightarrow> go_heap \<Rightarrow> h_catalog_config \<times> go_heap" where
  "hCatalogConfig_DeepCopyInto c h =
     (let (configs, h1) = copySliceRef (hcat_DynamicConfigs c) h
      in (c\<lparr>hcat_DynamicConfigs := configs\<rparr>, h1))"

definition hCoordinatorConfig_DeepCopyInto ::
  "runtime_env \<Rightarrow> h_coordinator_config \<Rightarrow> go_heap \<Rightarrow> h_coordinator_config \<times> go_heap" where
  "hCoordinatorConfig_DeepCopyInto env c h =
     (let (args, h1) = copySliceRef (hcc_DynamicArgs c) h;
          (etc, h2) = copyMapRef env 59 (hcc_EtcConfig c) h1
      in (c\<lparr>hcc_Resources := ResourcesDeepCopy env (hcc_Resources c),
            hcc_DynamicArgs := args, hcc_EtcConfig := etc\<rparr>, h2))"

definition hWorkerConfig_DeepCopyInto ::
  "runtime_env \<Rightarrow> h_worker_config \<Rightarrow> go_heap \<Rightarrow> h_worker_config \<times> go_heap" where
  "hWorkerConfig_DeepCopyInto env c h =
     (let (args, h1) = copySliceRef (hwc_DynamicArgs c) h;
          (etc, h2) = copyMapRef env 197 (hwc_EtcConfig c) h1
      in (c\<lparr>hwc_Resources := ResourcesDeepCopy env (hwc_Resources c),
            hwc_DynamicArgs := args, hwc_EtcConfig := etc\<rparr>, h2))"

definition hPrestoClusterSpec_DeepCopyInto ::
  "runtime_env \<Rightarrow> h_spec \<Rightarrow> go_heap \<Rightarrow> h_spec \<times> go_heap" where
  "hPrestoClusterSpec_DeepCopyInto env s h =
     (let (workers, h1) = copyIntRef (hs_Workers s) h;
          (coordinator, h2) = hCoordinatorConfig_DeepCopyInto env (hs_CoordinatorConfig s) h1;
          (worker, h3) = hWorkerConfig_DeepCopyInto env (hs_WorkerConfig s) h2;
          (catalog, h4) = copyMapRef env 147 (hs_CatalogConfig s) h3;
          (coresite, h5) = copyMapRef env 154 (hs_Coresite s) h4
      in (s\<lparr>hs_Workers := workers, hs_CoordinatorConfig := coordinator, hs_WorkerConfig := worker,
            hs_CatalogConfig := catalog, hs_Coresite := coresite\<rparr>, h5))"

definition hPrestoCluster_DeepCopyInto ::
  "runtime_env \<Rightarrow> h_cluster \<Rightarrow> go_heap \<Rightarrow> h_cluster \<times> go_heap" where
  "hPrestoCluster_DeepCopyInto env c h =
     (let (spec, h1) = hPrestoClusterSpec_DeepCopyInto env (hc_Spec c) h
      in (c\<lparr>hc_ObjectMeta := ObjectMetaDeepCopy env (hc_ObjectMeta c), hc_Spec := spec\<rparr>, h1))"

text \<open>The loop over the elements of \<open>Items\<close>.\<close>

fun hItems_DeepCopyInto ::
  "runtime_env \<Rightarrow> h_cluster list \<Rightarrow> go_heap \<Rightarrow> h_cluster list \<times> go_heap" where
  "hItems_DeepCopyInto env [] h = ([], h)"
| "hItems_DeepCopyInto env (c # cs) h =
     (let (c', h1) = hPrestoCluster_DeepCopyInto env c h;
          (cs', h2) = hItems_DeepCopyInto env cs h1
      in (c' # cs', h2))"

definition hPrestoClusterList_DeepCopyInto ::
  "runtime_env \<Rightarrow> h_cluster_list \<Rightarrow> go_heap \<Rightarrow> h_cluster_list \<times> go_heap" where
  "hPrestoClusterList_DeepCopyInto env l h = (case hl_Items l of
     None \<Rightarrow> (l, h)
   | Some items \<Rightarrow> (let (items', h1) = hItems_DeepCopyInto env items h
       in (l\<lparr>hl_Items := Some items'\<rparr>, h1)))"

text \<open>References and views of the structures; the view of a structure is the value of ApiTypes.\<close>

definition coordinatorRefs :: "h_coordinator_config \<Rightarrow> ref list" where
  "coordinatorRefs c = [hcc_DynamicArgs c, hcc_EtcConfig c]"

definition workerRefs :: "h_worker_config \<Rightarrow> ref list" where
  "workerRefs c = [hwc_DynamicArgs c, hwc_EtcConfig c]"

definition specRefs :: "h_spec \<Rightarrow> ref list" where
  "specRefs s = hs_Workers s # coordinatorRefs (hs_CoordinatorConfig s)
     @ workerRefs (hs_WorkerConfig s) @ [hs_CatalogConfig s, hs_Coresite s]"

definition clusterRefs :: "h_cluster \<Rightarrow> ref list" where
  "clusterRefs c = specRefs (hc_Spec c)"

definition viewCoordinator :: "go_heap \<Rightarrow> h_coordinator_config
    \<Rightarrow> coordinator_config \<times> string list option" where
  "viewCoordinator h c = (\<lparr>cc_Resources = hcc_Resources c,
     cc_EtcConfig = viewMap h (hcc_EtcConfig c)\<rparr>, viewSlice h (hcc_DynamicArgs c))"

definition viewWorker :: "go_heap \<Rightarrow> h_worker_config
    \<Rightarrow> worker_config \<times> string list option" where
  "viewWorker h c = (\<lparr>wc_Resources = hwc_Resources c,
     wc_EtcConfig = viewMap h (hwc_EtcConfig c)\<rparr>, viewSlice h (hwc_DynamicArgs c))"

definition viewSpec :: "go_heap \<Rightarrow> h_spec
    \<Rightarrow> presto_cluster_spec \<times> string list option \<times> string list option" where
  "viewSpec h s = (let (cc, cargs) = viewCoordinator h (hs_CoordinatorConfig s);
       (wc, wargs) = viewWorker h (hs_WorkerConfig s)
     in (\<lparr>spec_Name = hs_Name s, spec_Image = hs_Image s, spec_Workers = viewInt h (hs_Workers s),
          spec_CoordinatorConfig = cc, spec_WorkerConfig = wc,
          spec_CatalogConfig = viewMap h (hs_CatalogConfig s),
          spec_Coresite = viewMap h (hs_Coresite s)\<rparr>, cargs, wargs))"

definition viewCluster :: "go_heap \<Rightarrow> h_cluster
    \<Rightarrow> presto_cluster \<times> string list option \<times> string list option" where
  "viewCluster h c = (let (s, cargs, wargs) = viewSpec h (hc_Spec c)
     in (\<lparr>pc_TypeMeta = hc_TypeMeta c, pc_ObjectMeta = hc_ObjectMeta c, pc_Spec = s,
          pc_Status = hc_Status c\<rparr>, cargs, wargs))"

subsection \<open>The structures are deep copies\<close>

interpretation coordinator_copy: deep_copy "hCoordinatorConfig_DeepCopyInto env" viewCoordinator coordinatorRefs "env_ok env" for env
proof unfold_locales
  fix c c' h h'
  assume c: "hCoordinatorConfig_DeepCopyInto env c h = (c', h')"
  obtain args h1 where a: "copySliceRef (hcc_DynamicArgs c) h = (args, h1)" by fastforce
  obtain etc h2 where b: "copyMapRef env 59 (hcc_EtcConfig c) h1 = (etc, h2)" by fastforce
  have c': "c' = c\<lparr>hcc_Resources := ResourcesDeepCopy env (hcc_Resources c),
      hcc_DynamicArgs := args, hcc_EtcConfig := etc\<rparr>" "h' = h2"
    using c a b by (auto simp: hCoordinatorConfig_DeepCopyInto_def)
  note args = slice_copy.copy_within [OF a extends_refl map_copy.copy_extends [OF b]]
  note etc = map_copy.copy_within [OF b slice_copy.copy_extends [OF a] extends_refl]
  show "extends h h'" using c' etc(2) by simp
  show "list_all (fresh h h') (coordinatorRefs c')" using c' args(1) etc(1) by (simp add: coordinatorRefs_def)
  show "viewCoordinator h' c' = viewCoordinator h c" if "env_ok env" and "list_all (live h) (coordinatorRefs c)"
    using that c' args(3) etc(3) by (simp add: coordinatorRefs_def viewCoordinator_def env_ok_copies)
next
  fix h h' c
  assume "extends h h'" and "list_all (live h) (coordinatorRefs c)"
  then show "viewCoordinator h' c = viewCoordinator h c"
    using slice_copy.view_extends [of h h'] map_copy.view_extends [of h h']
    by (simp add: coordinatorRefs_def viewCoordinator_def)
qed

interpretation worker_copy: deep_copy "hWorkerConfig_DeepCopyInto env" viewWorker workerRefs "env_ok env" for env
proof unfold_locales
  fix c c' h h'
  assume c: "hWorkerConfig_DeepCopyInto env c h = (c', h')"
  obtain args h1 where a: "copySliceRef (hwc_DynamicArgs c) h = (args, h1)" by fastforce
  obtain etc h2 where b: "copyMapRef env 197 (hwc_EtcConfig c) h1 = (etc, h2)" by fastforce
  have c': "c' = c\<lparr>hwc_Resources := ResourcesDeepCopy env (hwc_Resources c),
      hwc_DynamicArgs := args, hwc_EtcConfig := etc\<rparr>" "h' = h2"
    using c a b by (auto simp: hWorkerConfig_DeepCopyInto_def)
  note args = slice_copy.copy_within [OF a extends_refl map_copy.copy_extends [OF b]]
  note etc = map_copy.copy_within [OF b slice_copy.copy_extends [OF a] extends_refl]
  show "extends h h'" using c' etc(2) by simp
  show "list_all (fresh h h') (workerRefs c')" using c' args(1) etc(1) by (simp add: workerRefs_def)
  show "viewWorker h' c' = viewWorker h c" if "env_ok env" and "list_all (live h) (workerRefs c)"
    using that c' args(3) etc(3) by (simp add: workerRefs_def viewWorker_def env_ok_copies)
next
  fix h h' c
  assume "extends h h'" and "list_all (live h) (workerRefs c)"
  then show "viewWorker h' c = viewWorker h c"
    using slice_copy.view_extends [of h h'] map_copy.view_extends [of h h']
    by (simp add: workerRefs_def viewWorker_def)
qed

interpretation catalog_copy: deep_copy hCatalogConfig_DeepCopyInto
  "\<lambda>h c. viewSlice h (hcat_DynamicConfigs c)" "\<lambda>c. [hcat_DynamicConfigs c]" True
proof unfold_locales
  fix c c' h h'
  assume c: "hCatalogConfig_DeepCopyInto c h = (c', h')"
  obtain configs h1 where a: "copySliceRef (hcat_DynamicConfigs c) h = (configs, h1)" by fastforce
  have c': "c' = c\<lparr>hcat_DynamicConfigs := configs\<rparr>" "h' = h1"
    using c a by (auto simp: hCatalogConfig_DeepCopyInto_def)
  show "extends h h'" using c' slice_copy.copy_extends [OF a] by simp
  show "list_all (fresh h h') [hcat_DynamicConfigs c']"
    using c' slice_copy.copy_fresh [OF a] by simp
  show "viewSlice h' (hcat_DynamicConfigs c') = viewSlice h (hcat_DynamicConfigs c)"
    if "list_all (live h) [hcat_DynamicConfigs c]"
    using that c' slice_copy.copy_view [OF _ a] by simp
next
  fix h h' c
  assume "extends h h'" and "list_all (live h) [hcat_DynamicConfigs c]"
  then show "viewSlice h' (hcat_DynamicConfigs c) = viewSlice h (hcat_DynamicConfigs c)"
    by (rule slice_copy.view_extends)
qed

interpretation spec_copy: deep_copy "hPrestoClusterSpec_DeepCopyInto env" viewSpec specRefs
  "env_ok env" for env
proof unfold_locales
  fix s s' h h'
  assume s: "hPrestoClusterSpec_DeepCopyInto env s h = (s', h')"
  obtain workers h1 where a: "copyIntRef (hs_Workers s) h = (workers, h1)" by fastforce
  obtain co h2 where b: "hCoordinatorConfig_DeepCopyInto env (hs_CoordinatorConfig s) h1 = (co, h2)"
    by fastforce
  obtain wo h3 where c: "hWorkerConfig_DeepCopyInto env (hs_WorkerConfig s) h2 = (wo, h3)"
    by fastforce
  obtain ca h4 where d: "copyMapRef env 147 (hs_CatalogConfig s) h3 = (ca, h4)" by fastforce
  obtain cs h5 where e: "copyMapRef env 154 (hs_Coresite s) h4 = (cs, h5)" by fastforce
  have s': "s' = s\<lparr>hs_Workers := workers, hs_CoordinatorConfig := co, hs_WorkerConfig := wo,
      hs_CatalogConfig := ca, hs_Coresite := cs\<rparr>" "h' = h5"
    using s a b c d e by (auto simp: hPrestoClusterSpec_DeepCopyInto_def)
  note x = int_copy.copy_extends [OF a] coordinator_copy.copy_extends [OF b]
    worker_copy.copy_extends [OF c] map_copy.copy_extends [OF d] map_copy.copy_extends [OF e]
  note up = x(1) extends_trans [OF x(1,2)] extends_trans [OF extends_trans [OF x(1,2)] x(3)]
    extends_trans [OF extends_trans [OF extends_trans [OF x(1,2)] x(3)] x(4)]
  note down = x(5) extends_trans [OF x(4,5)] extends_trans [OF x(3) extends_trans [OF x(4,5)]]
    extends_trans [OF x(2) extends_trans [OF x(3) extends_trans [OF x(4,5)]]]
  note parts = int_copy.copy_within [OF a extends_refl down(4)]
    coordinator_copy.copy_within [OF b up(1) down(3)] worker_copy.copy_within [OF c up(2) down(2)]
    map_copy.copy_within [OF d up(3) down(1)] map_copy.copy_within [OF e up(4) extends_refl]
  show "extends h h'" using s' parts by simp
  show "list_all (fresh h h') (specRefs s')" using s' parts by (simp add: specRefs_def)
  show "viewSpec h' s' = viewSpec h s" if "env_ok env" and "list_all (live h) (specRefs s)"
    using that s' parts by (simp add: specRefs_def viewSpec_def)
next
  fix h h' s
  assume "extends h h'" and "list_all (live h) (specRefs s)"
  then show "viewSpec h' s = viewSpec h s"
    using int_copy.view_extends [of h h'] coordinator_copy.view_extends [of h h']
      worker_copy.view_extends [of h h'] map_copy.view_extends [of h h']
    by (simp add: specRefs_def viewSpec_def)
qed

interpretation cluster_copy: deep_copy "hPrestoCluster_DeepCopyInto env" viewCluster clusterRefs
  "env_ok env" for env
proof unfold_locales
  fix c c' h h'
  assume c: "hPrestoCluster_DeepCopyInto env c h = (c', h')"
  obtain s h1 where a: "hPrestoClusterSpec_DeepCopyInto env (hc_Spec c) h = (s, h1)" by fastforce
  have c': "c' = c\<lparr>hc_ObjectMeta := ObjectMetaDeepCopy env (hc_ObjectMeta c), hc_Spec := s\<rparr>" "h' = h1"
    using c a by (auto simp: hPrestoCluster_DeepCopyInto_def)
  show "extends h h'" using c' spec_copy.copy_extends [OF a] by simp
  show "list_all (fresh h h') (clusterRefs c')"
    using c' spec_copy.copy_fresh [OF a] by (simp add: clusterRefs_def)
  show "viewCluster h' c' = viewCluster h c" if "env_ok env" and "list_all (live h) (clusterRefs c)"
    using that c' spec_copy.copy_view [OF _ a]
    by (simp add: clusterRefs_def viewCluster_def env_ok_copies)
next
  fix h h' c
  assume "extends h h'" and "list_all (live h) (clusterRefs c)"
  then show "viewCluster h' c = viewCluster h c"
    using spec_copy.view_extends [of h h'] by (simp add: clusterRefs_def viewCluster_def)
qed

text \<open>A list of clusters, element by element.\<close>

definition itemsRefs :: "h_cluster list \<Rightarrow> ref list" where
  "itemsRefs cs = concat (map clusterRefs cs)"

interpretation items_copy: deep_copy "hItems_DeepCopyInto env" "\<lambda>h cs. map (viewCluster h) cs"
  itemsRefs "env_ok env" for env
proof unfold_locales
  have all: "extends h h' \<and> list_all (fresh h h') (itemsRefs cs') \<and>
      (env_ok env \<longrightarrow> list_all (live h) (itemsRefs cs) \<longrightarrow>
        map (viewCluster h') cs' = map (viewCluster h) cs)"
    if "hItems_DeepCopyInto env cs h = (cs', h')" for cs h cs' h'
    using that
  proof (induction cs arbitrary: h cs')
    case Nil
    then show ?case by (auto simp: itemsRefs_def)
  next
    case (Cons c cs)
    obtain d h1 where a: "hPrestoCluster_DeepCopyInto env c h = (d, h1)" by fastforce
    obtain ds h2 where b: "hItems_DeepCopyInto env cs h1 = (ds, h2)" by fastforce
    have res: "cs' = d # ds" "h' = h2" using Cons.prems a b by auto
    note x = cluster_copy.copy_extends [OF a]
    have ih: "extends h1 h'" "list_all (fresh h1 h') (itemsRefs ds)"
      "env_ok env \<Longrightarrow> list_all (live h1) (itemsRefs cs) \<Longrightarrow>
        map (viewCluster h') ds = map (viewCluster h1) cs"
      using Cons.IH [of h1 ds] b res by simp_all
    note d = cluster_copy.copy_within [OF a extends_refl ih(1)]
    have live1: "list_all (live h1) (itemsRefs cs)" if "list_all (live h) (itemsRefs cs)"
      using that x by (auto simp: list_all_iff intro: extends_live)
    have same: "map (viewCluster h1) cs = map (viewCluster h) cs"
      if "list_all (live h) (itemsRefs cs)"
      using that x cluster_copy.view_extends [of h h1] by (auto simp: itemsRefs_def list_all_iff)
    have "list_all (fresh h h') (itemsRefs ds)"
      using ih(2) x by (auto simp: list_all_iff intro: fresh_widen)
    then show ?case
      using res d ih extends_trans [OF x ih(1)] live1 same by (auto simp: itemsRefs_def)
  qed
  show "extends h h'" if "hItems_DeepCopyInto env cs h = (cs', h')" for cs h cs' h'
    using all [OF that] by simp
  show "list_all (fresh h h') (itemsRefs cs')"
    if "hItems_DeepCopyInto env cs h = (cs', h')" for cs h cs' h'
    using all [OF that] by simp
  show "map (viewCluster h') cs' = map (viewCluster h) cs"
    if "env_ok env" and "hItems_DeepCopyInto env cs h = (cs', h')"
      and "list_all (live h) (itemsRefs cs)" for cs h cs' h'
    using all [OF that(2)] that by simp
  show "map (viewCluster h') cs = map (viewCluster h) cs"
    if "extends h h'" and "list_all (live h) (itemsRefs cs)" for h h' cs
    using that cluster_copy.view_extends [of h h'] by (auto simp: itemsRefs_def list_all_iff)
qed

definition listRefs :: "h_cluster_list \<Rightarrow> ref list" where
  "listRefs l = (case hl_Items l of None \<Rightarrow> [] | Some items \<Rightarrow> itemsRefs items)"

definition viewList :: "go_heap \<Rightarrow> h_cluster_list
    \<Rightarrow> type_meta \<times> (presto_cluster \<times> string list option \<times> string list option) list option" where
  "viewList h l = (hl_TypeMeta l, map_option (map (viewCluster h)) (hl_Items l))"

interpretation list_copy: deep_copy "hPrestoClusterList_DeepCopyInto env" viewList listRefs
  "env_ok env" for env
proof unfold_locales
  fix l l' h h'
  assume l: "hPrestoClusterList_DeepCopyInto env l h = (l', h')"
  show "extends h h'"
    using l items_copy.copy_extends [of env]
    by (auto simp: hPrestoClusterList_DeepCopyInto_def split: option.splits prod.splits)
  show "list_all (fresh h h') (listRefs l')"
    using l items_copy.copy_fresh [of env]
    by (auto simp: hPrestoClusterList_DeepCopyInto_def listRefs_def split: option.splits prod.splits)
  show "viewList h' l' = viewList h l" if "env_ok env" and "list_all (live h) (listRefs l)"
    using l that items_copy.copy_view [of env]
    by (auto simp: hPrestoClusterList_DeepCopyInto_def listRefs_def viewList_def
        split: option.splits prod.splits)
next
  fix h h' l
  assume "extends h h'" and "list_all (live h) (listRefs l)"
  then show "viewList h' l = viewList h l"
    using items_copy.view_extends [of h h']
    by (auto simp: listRefs_def viewList_def split: option.splits)
qed

text \<open>\<open>DeepCopy\<close> of a nil pointer is nil; otherwise it is \<open>DeepCopyInto\<close> a new structure.\<close>

definition deepCopyPtr :: "('r \<Rightarrow> go_heap \<Rightarrow> 'r \<times> go_heap) \<Rightarrow> 'r option \<Rightarrow> go_heap
    \<Rightarrow> 'r option \<times> go_heap" where
  "deepCopyPtr into p h = (case p of None \<Rightarrow> (None, h)
     | Some x \<Rightarrow> (let (y, h') = into x h in (Some y, h')))"

definition hPrestoCluster_DeepCopy ::
  "runtime_env \<Rightarrow> h_cluster option \<Rightarrow> go_heap \<Rightarrow> h_cluster option \<times> go_heap" where
  "hPrestoCluster_DeepCopy env = deepCopyPtr (hPrestoCluster_DeepCopyInto env)"

definition hPrestoClusterList_DeepCopy ::
  "runtime_env \<Rightarrow> h_cluster_list option \<Rightarrow> go_heap \<Rightarrow> h_cluster_list option \<times> go_heap" where
  "hPrestoClusterList_DeepCopy env = deepCopyPtr (hPrestoClusterList_DeepCopyInto env)"

definition hPrestoClusterSpec_DeepCopy ::
  "runtime_env \<Rightarrow> h_spec option \<Rightarrow> go_heap \<Rightarrow> h_spec option \<times> go_heap" where
  "hPrestoClusterSpec_DeepCopy env = deepCopyPtr (hPrestoClusterSpec_DeepCopyInto env)"

definition hCoordinatorConfig_DeepCopy :: "runtime_env \<Rightarrow> h_coordinator_config option \<Rightarrow> go_heap
    \<Rightarrow> h_coordinator_config option \<times> go_heap" where
  "hCoordinatorConfig_DeepCopy env = deepCopyPtr (hCoordinatorConfig_DeepCopyInto env)"

definition hWorkerConfig_DeepCopy :: "runtime_env \<Rightarrow> h_worker_config option \<Rightarrow> go_heap
    \<Rightarrow> h_worker_config option \<times> go_heap" where
  "hWorkerConfig_DeepCopy env = deepCopyPtr (hWorkerConfig_DeepCopyInto env)"

definition hCatalogConfig_DeepCopy :: "h_catalog_config option \<Rightarrow> go_heap
    \<Rightarrow> h_catalog_config option \<times> go_heap" where
  "hCatalogConfig_DeepCopy = deepCopyPtr hCatalogConfig_DeepCopyInto"

text \<open>The status holds no reference.\<close>

definition hPrestoClusterStatus_DeepCopyInto ::
  "presto_cluster_status \<Rightarrow> go_heap \<Rightarrow> presto_cluster_status \<times> go_heap" where
  "hPrestoClusterStatus_DeepCopyInto s h = (s, h)"

definition hPrestoClusterStatus_DeepCopy :: "presto_cluster_status option \<Rightarrow> go_heap
    \<Rightarrow> presto_cluster_status option \<times> go_heap" where
  "hPrestoClusterStatus_DeepCopy = deepCopyPtr hPrestoClusterStatus_DeepCopyInto"

interpretation status_copy: deep_copy hPrestoClusterStatus_DeepCopyInto "\<lambda>h s. s" "\<lambda>s. []" True
  by unfold_locales (simp_all add: hPrestoClusterStatus_DeepCopyInto_def)

text \<open>\<open>DeepCopyObject\<close> returns the copy at the interface \<open>runtime.Object\<close>, and an untyped nil for nil.\<close>

datatype runtime_object = ClusterObject h_cluster | ClusterListObject h_cluster_list

definition hPrestoCluster_DeepCopyObject ::
  "runtime_env \<Rightarrow> h_cluster option \<Rightarrow> go_heap \<Rightarrow> runtime_object option \<times> go_heap" where
  "hPrestoCluster_DeepCopyObject env p h = (case hPrestoCluster_DeepCopy env p h of
     (Some c, h') \<Rightarrow> (Some (ClusterObject c), h') | (None, h') \<Rightarrow> (None, h'))"

definition hPrestoClusterList_DeepCopyObject ::
  "runtime_env \<Rightarrow> h_cluster_list option \<Rightarrow> go_heap \<Rightarrow> runtime_object option \<times> go_heap" where
  "hPrestoClusterList_DeepCopyObject env p h = (case hPrestoClusterList_DeepCopy env p h of
     (Some l, h') \<Rightarrow> (Some (ClusterListObject l), h') | (None, h') \<Rightarrow> (None, h'))"

subsection \<open>A store to copy in\<close>

definition sampleHeap :: go_heap where
  "sampleHeap = \<lparr>ints = [0 \<mapsto> 2], maps = [1 \<mapsto> fmap_of_list [(''jvm.config'', ''-server'')]],
     slices = [2 \<mapsto> [''a=1'', ''b=2'']], nextAddr = 3\<rparr>"

text \<open>Two fields share one map: nothing forbids it.\<close>

definition sampleHCluster :: h_cluster where
  "sampleHCluster = \<lparr>hc_TypeMeta = \<lparr>tm_APIVersion = [], tm_Kind = ''PrestoCluster''\<rparr>,
     hc_ObjectMeta = zeroObjectMeta\<lparr>om_Name := ''presto''\<rparr>,
     hc_Spec = \<lparr>hs_Name = ''presto'', hs_Image = [], hs_Workers = Some 0,
       hs_CoordinatorConfig = \<lparr>hcc_Resources = \<lparr>rr_Limits = None, rr_Requests = None\<rparr>,
         hcc_DynamicArgs = Some 2, hcc_EtcConfig = Some 1\<rparr>,
       hs_WorkerConfig = \<lparr>hwc_Resources = \<lparr>rr_Limits = None, rr_Requests = None\<rparr>,
         hwc_DynamicArgs = None, hwc_EtcConfig = Some 1\<rparr>,
       hs_CatalogConfig = None, hs_Coresite = None\<rparr>,
     hc_Status = \<lparr>status_AvailableWorkers = 0\<rparr>\<rparr>"

lemma sample_live: "list_all (live sampleHeap) (clusterRefs sampleHCluster)"
  by (simp add: sampleHeap_def sampleHCluster_def clusterRefs_def specRefs_def coordinatorRefs_def
      workerRefs_def)

subsection \<open>Properties of the deep copies\<close>





end
