(* ===== verification/PreStopScript.thy ===== *)
theory PreStopScript
  imports GoStrings
begin

text \<open>
  \<open>src/controllers/preStopScript.go\<close>: the shell script the worker pods run before they stop, as
  the Go source holds it, line by line. A backslash is written as its code 5C, and a single quote
  as its code 27 where the string syntax needs it.
\<close>

definition preStopLines :: "string list" where
  \<open>preStopLines = [
    [],
    ''#!/bin/bash'',
    ''# This works for worker only. Coordinator doesn't support graceful shutdown.'',
    ''# This script will block until the server has actually shutdown.'',
    ''set -x'',
    [],
    ''http_port="$(cat /usr/lib/presto/etc/config.properties | grep 'http-server.http.port' | sed 's/^.*='' @ [CHR 0x5C] @ ''(.*'' @ [CHR 0x5C] @ '')$/'' @ [CHR 0x5C] @ ''1/')"'',
    ''https_port="$(cat /usr/lib/presto/etc/config.properties | grep 'http-server.https.port' | sed 's/^.*='' @ [CHR 0x5C] @ ''(.*'' @ [CHR 0x5C] @ '')$/'' @ [CHR 0x5C] @ ''1/')"'',
    [],
    ''if [ -n "$http_port" ] ; then'',
    ''    res=$(curl -s -o /dev/null -w "%{http_code}"  -XPUT --data '"SHUTTING_DOWN"' -H "Content-type: application/json" http://localhost:${http_port}/v1/info/state)'',
    ''fi'',
    [],
    ''if [ -z "$res" -o "$res" != "200" ] && [ -n "$https_port" ]; then'',
    ''    res=$(curl -k -s -o /dev/null -w "%{http_code}"  -XPUT --data '"SHUTTING_DOWN"' -H "Content-type: application/json" https://localhost:${https_port}/v1/info/state)'',
    ''fi'',
    [],
    ''if [ -z "$res" -o "$res" != "200" ] ; then'',
    ''  # Failed to send the shutdown request.'',
    ''  exit -1'',
    ''else'',
    ''  # Server is shutting down. Block until the server is actually down.'',
    ''  while curl http://localhost:${http_port}/v1/info/state; do'',
    ''    sleep 1'',
    ''  done'',
    ''fi'']\<close>

definition preStopScript :: string where
  "preStopScript = concat (map line preStopLines)"

end
