(* ===== verification/Desired.thy ===== *)
theory Desired
  imports DeepCopy PreStopScript
begin

text \<open>
  \<open>src/controllers/desired.go\<close>: from a \<open>PrestoCluster\<close> to the five objects it stands for. Each
  \<open>range\<close> statement takes its order from \<open>rangeOrder env\<close> at its own line number.

  The interface \<open>mount_family\<close> (mounts of one volume in one directory, one per key) is interpreted
  for the four families of mounts the deployments have. \<open>addEntries_lookup\<close> says what a loop that
  copies entries under a key prefix adds to a config map, and carries the contents of both maps.
\<close>

record desired_cluster_state =
  des_CoordinatorDeployment :: "deployment option"
  des_WorkerDeployment :: "deployment option"
  des_CoordinatorService :: "service option"
  des_PrestoConfigMap :: "config_map option"
  des_CatalogConfigMap :: "config_map option"
  des_Job :: "job option"

subsection \<open>Volume mounts\<close>

text \<open>\<open>append\<close> the keys of a map in iteration order, then \<open>sort.Strings\<close>.\<close>

definition sortedKeys :: "runtime_env \<Rightarrow> nat \<Rightarrow> strmap \<Rightarrow> string list" where
  "sortedKeys env site m =
     sort (fold (\<lambda>(key, _) acc. acc @ [key]) (rangeMap (rangeOrder env) site m) [])"

definition coordinatorEtcMount :: "string \<Rightarrow> volume_mount" where
  "coordinatorEtcMount xProperties = \<lparr>vm_Name = ''config'',
     vm_MountPath = ''/usr/lib/presto/etc/'' @ xProperties,
     vm_SubPath = ''coordinator.'' @ xProperties, vm_ReadOnly = False\<rparr>"

definition workerEtcMount :: "string \<Rightarrow> volume_mount" where
  "workerEtcMount xProperties = \<lparr>vm_Name = ''config'',
     vm_MountPath = ''/usr/lib/presto/etc/'' @ xProperties,
     vm_SubPath = ''worker.'' @ xProperties, vm_ReadOnly = True\<rparr>"

definition catalogMount :: "string \<Rightarrow> volume_mount" where
  "catalogMount xProperties = \<lparr>vm_Name = ''catalog'',
     vm_MountPath = ''/usr/lib/presto/etc/catalog/'' @ xProperties,
     vm_SubPath = xProperties, vm_ReadOnly = False\<rparr>"

definition coresiteMount :: "string \<Rightarrow> volume_mount" where
  "coresiteMount xProperties = \<lparr>vm_Name = ''catalog'',
     vm_MountPath = ''/tmp/'' @ xProperties,
     vm_SubPath = xProperties, vm_ReadOnly = False\<rparr>"

definition preStopMount :: volume_mount where
  "preStopMount = \<lparr>vm_Name = ''config'', vm_MountPath = ''/usr/lib/presto/etc/pre-stop.sh'',
     vm_SubPath = ''pre-stop.sh'', vm_ReadOnly = False\<rparr>"

text \<open>The block \<open>if m != nil { sort the keys; append one mount per key }\<close>.\<close>

definition appendMounts :: "runtime_env \<Rightarrow> nat \<Rightarrow> (string \<Rightarrow> volume_mount) \<Rightarrow> strmap
    \<Rightarrow> volume_mount list \<Rightarrow> volume_mount list" where
  "appendMounts env site mount m volumeMounts =
     (if m \<noteq> None
      then fold (\<lambda>xProperties acc. acc @ [mount xProperties]) (sortedKeys env site m) volumeMounts
      else volumeMounts)"

definition coordinatorVolumeMounts :: "runtime_env \<Rightarrow> presto_cluster \<Rightarrow> volume_mount list" where
  "coordinatorVolumeMounts env prestoCluster =
     (let spec = pc_Spec prestoCluster;
          mounts = appendMounts env 73 coordinatorEtcMount
            (cc_EtcConfig (spec_CoordinatorConfig spec)) [];
          mounts = appendMounts env 88 catalogMount (spec_CatalogConfig spec) mounts
      in appendMounts env 103 coresiteMount (spec_Coresite spec) mounts)"

definition workerVolumeMounts :: "runtime_env \<Rightarrow> presto_cluster \<Rightarrow> volume_mount list" where
  "workerVolumeMounts env prestoCluster =
     (let spec = pc_Spec prestoCluster;
          mounts = appendMounts env 235 workerEtcMount
            (wc_EtcConfig (spec_WorkerConfig spec)) [preStopMount];
          mounts = appendMounts env 251 catalogMount (spec_CatalogConfig spec) mounts
      in appendMounts env 266 coresiteMount (spec_Coresite spec) mounts)"

subsection \<open>The objects\<close>

definition prestoClusterKind :: group_version_kind where
  "prestoClusterKind = \<lparr>gvk_Group = GroupVersion_Group, gvk_Version = GroupVersion_Version,
     gvk_Kind = ''PrestoCluster''\<rparr>"

definition controllerLabels :: "string \<Rightarrow> presto_cluster \<Rightarrow> strmap" where
  "controllerLabels app prestoCluster = Some (fmap_of_list
     [(''app'', app), (''controller'', om_Name (pc_ObjectMeta prestoCluster))])"

definition childMeta :: "runtime_env \<Rightarrow> presto_cluster \<Rightarrow> string \<Rightarrow> strmap \<Rightarrow> object_meta" where
  "childMeta env prestoCluster name labels = zeroObjectMeta\<lparr>
     om_Namespace := om_Namespace (pc_ObjectMeta prestoCluster), om_Name := name,
     om_OwnerReferences := [NewControllerRef env (pc_ObjectMeta prestoCluster) prestoClusterKind],
     om_Labels := labels\<rparr>"

definition configVolumes :: "presto_cluster \<Rightarrow> volume list" where
  "configVolumes prestoCluster =
     [\<lparr>vol_Name = ''config'',
       vol_ConfigMapName = getPrestoConfigMapName (om_Name (pc_ObjectMeta prestoCluster))\<rparr>,
      \<lparr>vol_Name = ''catalog'',
       vol_ConfigMapName = getCatalogConfigMapName (om_Name (pc_ObjectMeta prestoCluster))\<rparr>]"

definition getDesiredCoordinatorDeployment ::
  "runtime_env \<Rightarrow> presto_cluster \<Rightarrow> deployment" where
  "getDesiredCoordinatorDeployment env prestoCluster =
     (let labels = controllerLabels ''presto-coordinator'' prestoCluster;
          spec = pc_Spec prestoCluster
      in \<lparr>dep_ObjectMeta = childMeta env prestoCluster
            (om_Name (pc_ObjectMeta prestoCluster) @ ''-coordinator'') labels,
          dep_Spec = \<lparr>ds_Replicas = Some 1, ds_MatchLabels = labels, ds_TemplateLabels = labels,
            ds_PodSpec = \<lparr>ps_RunAsUser = Some 1000,
              ps_Containers = [\<lparr>ct_Name = ''presto-coordinator'',
                ct_Resources = cc_Resources (spec_CoordinatorConfig spec),
                ct_Image = spec_Image spec, ct_ImagePullPolicy = PullAlways, ct_Ports = [8080],
                ct_VolumeMounts = coordinatorVolumeMounts env prestoCluster,
                ct_Lifecycle = None\<rparr>],
              ps_Volumes = configVolumes prestoCluster\<rparr>\<rparr>,
          dep_AvailableReplicas = 0\<rparr>)"

definition getDesiredCoordinatorService :: "runtime_env \<Rightarrow> presto_cluster \<Rightarrow> service" where
  "getDesiredCoordinatorService env prestoCluster =
     \<lparr>svc_ObjectMeta = childMeta env prestoCluster (om_Name (pc_ObjectMeta prestoCluster))
        (controllerLabels ''presto-coordinator-service'' prestoCluster),
      svc_Selector = controllerLabels ''presto-coordinator'' prestoCluster,
      svc_Ports = [\<lparr>sp_Protocol = ProtocolTCP, sp_Port = 8080,
        sp_TargetPort = IntOrStringFromInt env 8080\<rparr>]\<rparr>"

definition getDesiredWorkerDeployment :: "runtime_env \<Rightarrow> presto_cluster \<Rightarrow> deployment" where
  "getDesiredWorkerDeployment env prestoCluster =
     (let labels = controllerLabels ''presto-worker'' prestoCluster;
          spec = pc_Spec prestoCluster
      in \<lparr>dep_ObjectMeta = childMeta env prestoCluster
            (om_Name (pc_ObjectMeta prestoCluster) @ ''-worker'') labels,
          dep_Spec = \<lparr>ds_Replicas = spec_Workers spec, ds_MatchLabels = labels,
            ds_TemplateLabels = labels,
            ds_PodSpec = \<lparr>ps_RunAsUser = Some 1000,
              ps_Containers = [\<lparr>ct_Name = ''presto-worker'',
                ct_Resources = wc_Resources (spec_WorkerConfig spec),
                ct_Image = spec_Image spec, ct_ImagePullPolicy = PullAlways, ct_Ports = [8080],
                ct_VolumeMounts = workerVolumeMounts env prestoCluster,
                ct_Lifecycle = Some \<lparr>lc_PostStart = None,
                  lc_PreStop = Some [''/bin/sh'', ''/usr/lib/presto/etc/pre-stop.sh'']\<rparr>\<rparr>],
              ps_Volumes = configVolumes prestoCluster\<rparr>\<rparr>,
          dep_AvailableReplicas = 0\<rparr>)"

text \<open>Here the owner reference is written out, with \<open>BlockOwnerDeletion\<close> false.\<close>

definition toOwnerReference :: "presto_cluster \<Rightarrow> owner_reference" where
  "toOwnerReference prestoCluster =
     \<lparr>or_APIVersion = tm_APIVersion (pc_TypeMeta prestoCluster),
      or_Kind = tm_Kind (pc_TypeMeta prestoCluster),
      or_Name = om_Name (pc_ObjectMeta prestoCluster),
      or_UID = om_UID (pc_ObjectMeta prestoCluster),
      or_Controller = Some True, or_BlockOwnerDeletion = Some False\<rparr>"

definition newConfigmap :: "presto_cluster \<Rightarrow> string \<Rightarrow> strmap \<Rightarrow> config_map" where
  "newConfigmap presto configMapName data =
     \<lparr>cm_ObjectMeta = zeroObjectMeta\<lparr>om_Namespace := om_Namespace (pc_ObjectMeta presto),
        om_Name := configMapName, om_OwnerReferences := [toOwnerReference presto]\<rparr>,
      cm_Data = data\<rparr>"

text \<open>The loop \<open>for key, value := range m { data[prefix+key] = value }\<close>.\<close>

definition addEntries :: "runtime_env \<Rightarrow> nat \<Rightarrow> string \<Rightarrow> strmap \<Rightarrow> (string, string) fmap
    \<Rightarrow> (string, string) fmap" where
  "addEntries env site pre m data =
     fold (\<lambda>(key, val) data. fmupd (pre @ key) val data) (rangeMap (rangeOrder env) site m) data"

definition getDesiredPrestoConfigMap :: "runtime_env \<Rightarrow> presto_cluster \<Rightarrow> config_map" where
  "getDesiredPrestoConfigMap env prestoclusters =
     (let prestocluster = PrestoCluster_DeepCopyInto env prestoclusters;
          configmapCoordinatorEtcConfig =
            cc_EtcConfig (spec_CoordinatorConfig (pc_Spec prestocluster));
          configmapWorkerEtcConfig = wc_EtcConfig (spec_WorkerConfig (pc_Spec prestocluster));
          data = fmempty;
          data = addEntries env 377 ''coordinator.'' configmapCoordinatorEtcConfig data;
          data = addEntries env 380 ''worker.'' configmapWorkerEtcConfig data;
          data = fmupd ''pre-stop.sh'' preStopScript data;
          clusterName = om_Name (pc_ObjectMeta prestocluster)
      in newConfigmap prestocluster (getPrestoConfigMapName clusterName) (Some data))"

definition getDesiredCatalogConfigMap :: "runtime_env \<Rightarrow> presto_cluster \<Rightarrow> config_map" where
  "getDesiredCatalogConfigMap env prestoclusters =
     (let prestocluster = PrestoCluster_DeepCopyInto env prestoclusters;
          configmapCatalogConfig = spec_CatalogConfig (pc_Spec prestocluster);
          configmapCoresite = spec_Coresite (pc_Spec prestocluster);
          data = fmempty;
          data = addEntries env 396 [] configmapCatalogConfig data;
          data = addEntries env 399 [] configmapCoresite data;
          clusterName = om_Name (pc_ObjectMeta prestocluster)
      in newConfigmap prestocluster (getCatalogConfigMapName clusterName) (Some data))"

definition getDesiredClusterState ::
  "runtime_env \<Rightarrow> presto_cluster option \<Rightarrow> desired_cluster_state" where
  "getDesiredClusterState env cluster = (case cluster of
     None \<Rightarrow> \<lparr>des_CoordinatorDeployment = None, des_WorkerDeployment = None,
       des_CoordinatorService = None, des_PrestoConfigMap = None, des_CatalogConfigMap = None,
       des_Job = None\<rparr>
   | Some c \<Rightarrow> \<lparr>des_CoordinatorDeployment = Some (getDesiredCoordinatorDeployment env c),
       des_WorkerDeployment = Some (getDesiredWorkerDeployment env c),
       des_CoordinatorService = Some (getDesiredCoordinatorService env c),
       des_PrestoConfigMap = Some (getDesiredPrestoConfigMap env c),
       des_CatalogConfigMap = Some (getDesiredCatalogConfigMap env c),
       des_Job = None\<rparr>)"

subsection \<open>What the loops compute\<close>

lemma fold_snoc: "fold (\<lambda>x acc. acc @ [f x]) xs acc = acc @ map f xs"
  by (induction xs arbitrary: acc) simp_all

lemma fold_snoc_fst: "fold (\<lambda>(k, _) acc. acc @ [k]) xs acc = acc @ map fst xs"
  by (induction xs arbitrary: acc) auto

lemma sortedKeys_eq: "env_ok env \<Longrightarrow> sortedKeys env site m = sorted_list_of_set (mapKeys m)"
  by (simp add: sortedKeys_def fold_snoc_fst sort_range_keys env_ok_range)

lemma appendMounts_eq:
  "env_ok env \<Longrightarrow>
     appendMounts env site mount m mounts = mounts @ map mount (sorted_list_of_set (mapKeys m))"
  by (auto simp: appendMounts_def sortedKeys_eq fold_snoc)

lemma coordinatorVolumeMounts_eq:
  "env_ok env \<Longrightarrow> coordinatorVolumeMounts env c =
     map coordinatorEtcMount (sorted_list_of_set
       (mapKeys (cc_EtcConfig (spec_CoordinatorConfig (pc_Spec c)))))
     @ map catalogMount (sorted_list_of_set (mapKeys (spec_CatalogConfig (pc_Spec c))))
     @ map coresiteMount (sorted_list_of_set (mapKeys (spec_Coresite (pc_Spec c))))"
  by (simp add: coordinatorVolumeMounts_def appendMounts_eq Let_def)

lemma workerVolumeMounts_eq:
  "env_ok env \<Longrightarrow> workerVolumeMounts env c =
     preStopMount # map workerEtcMount (sorted_list_of_set
       (mapKeys (wc_EtcConfig (spec_WorkerConfig (pc_Spec c)))))
     @ map catalogMount (sorted_list_of_set (mapKeys (spec_CatalogConfig (pc_Spec c))))
     @ map coresiteMount (sorted_list_of_set (mapKeys (spec_Coresite (pc_Spec c))))"
  by (simp add: workerVolumeMounts_def appendMounts_eq Let_def)

text \<open>The entry of \<open>m\<close> that a key made of the prefix and an entry's key stands for.\<close>

definition prefixedLookup :: "string \<Rightarrow> strmap \<Rightarrow> string \<rightharpoonup> string" where
  "prefixedLookup p m k =
     (if take (length p) k = p then mapLookup m (drop (length p) k) else None)"

lemma prefixedLookup_append [simp]: "prefixedLookup p m (p @ k) = mapLookup m k"
  by (simp add: prefixedLookup_def)

lemma prefixedLookup_Nil [simp]: "prefixedLookup [] m = mapLookup m"
  by (simp add: prefixedLookup_def fun_eq_iff)

lemma map_of_prefixed:
  "map_of (map (\<lambda>(k, v). (p @ k, v)) xs) key =
     (if take (length p) key = p then map_of xs (drop (length p) key) else None)"
proof (induction xs)
  case (Cons x xs)
  have "p @ fst x = key \<longleftrightarrow> take (length p) key = p \<and> fst x = drop (length p) key"
    by (metis append_eq_conv_conj)
  with Cons show ?case by (auto simp: case_prod_beta)
qed simp

lemma addEntries_lookup:
  assumes "env_ok env"
  shows "fmlookup (addEntries env site p m data) key =
     (case prefixedLookup p m key of Some v \<Rightarrow> Some v | None \<Rightarrow> fmlookup data key)"
proof -
  let ?xs = "rangeMap (rangeOrder env) site m"
  let ?ys = "map (\<lambda>(k, v). (p @ k, v)) ?xs"
  have "distinct (map fst ?xs)" and xs: "map_of ?xs = mapLookup m"
    using assms by (simp_all add: rangeMap_distinct rangeMap_map_of env_ok_range)
  moreover have "map fst ?ys = map ((@) p) (map fst ?xs)" by auto
  ultimately have "distinct (map fst ?ys)" by (simp add: distinct_map inj_on_def)
  moreover have "addEntries env site p m data = fold (\<lambda>(k, v) out. fmupd k v out) ?ys data"
    by (simp add: addEntries_def fold_map comp_def case_prod_unfold)
  ultimately show ?thesis
    by (simp add: fold_fmupd_lookup map_of_prefixed prefixedLookup_def xs)
qed

lemma addEntries_order:
  "env_ok env \<Longrightarrow> env_ok env' \<Longrightarrow> addEntries env site p m data = addEntries env' site' p m data"
  by (rule fmap_ext) (simp add: addEntries_lookup)

text \<open>The entries of the two config maps.\<close>

definition prestoData :: "runtime_env \<Rightarrow> presto_cluster \<Rightarrow> string \<rightharpoonup> string" where
  "prestoData env c = mapLookup (cm_Data (getDesiredPrestoConfigMap env c))"

definition catalogData :: "runtime_env \<Rightarrow> presto_cluster \<Rightarrow> string \<rightharpoonup> string" where
  "catalogData env c = mapLookup (cm_Data (getDesiredCatalogConfigMap env c))"

lemma prestoData_eq:
  assumes "env_ok env"
  shows "prestoData env c key =
    (if key = ''pre-stop.sh'' then Some preStopScript
     else case prefixedLookup ''worker.'' (wc_EtcConfig (spec_WorkerConfig (pc_Spec c))) key of
       Some v \<Rightarrow> Some v
     | None \<Rightarrow> prefixedLookup ''coordinator.''
         (cc_EtcConfig (spec_CoordinatorConfig (pc_Spec c))) key)"
  using assms
  by (auto simp: prestoData_def getDesiredPrestoConfigMap_def newConfigmap_def Let_def
      addEntries_lookup split: option.splits)

lemma catalogData_eq:
  assumes "env_ok env"
  shows "catalogData env c = mapLookup (spec_CatalogConfig (pc_Spec c))
    ++ mapLookup (spec_Coresite (pc_Spec c))"
  using assms
  by (auto simp: catalogData_def getDesiredCatalogConfigMap_def newConfigmap_def Let_def
      addEntries_lookup map_add_def fun_eq_iff split: option.splits)

subsection \<open>Families of mounts\<close>

locale mount_family =
  fixes mount :: "string \<Rightarrow> volume_mount" and vol :: string and dir :: string and sub :: string
  assumes mount_volume: "vm_Name (mount k) = vol"
    and mount_path: "vm_MountPath (mount k) = dir @ k"
    and mount_sub: "vm_SubPath (mount k) = sub @ k"
begin

lemma path_inj: "vm_MountPath (mount k) = vm_MountPath (mount k') \<longleftrightarrow> k = k'"
  by (simp add: mount_path)

lemma distinct_paths: "distinct (map vm_MountPath (map mount ks)) \<longleftrightarrow> distinct ks"
  by (simp add: comp_def distinct_map inj_on_def mount_path)

lemma paths: "set (map vm_MountPath (map mount ks)) = (@) dir ` set ks"
  by (auto simp: mount_path)

end

interpretation coordinator_etc: mount_family coordinatorEtcMount "''config''"
  "''/usr/lib/presto/etc/''" "''coordinator.''"
  by unfold_locales (simp_all add: coordinatorEtcMount_def)

interpretation worker_etc: mount_family workerEtcMount "''config''"
  "''/usr/lib/presto/etc/''" "''worker.''"
  by unfold_locales (simp_all add: workerEtcMount_def)

interpretation catalog: mount_family catalogMount "''catalog''"
  "''/usr/lib/presto/etc/catalog/''" "[]"
  by unfold_locales (simp_all add: catalogMount_def)

interpretation coresite: mount_family coresiteMount "''catalog''" "''/tmp/''" "[]"
  by unfold_locales (simp_all add: coresiteMount_def)

subsection \<open>The files a container sees\<close>

text \<open>
  The abstract contract of the mounts: a container sees a list of files, one per mount, whose path
  is the mount path and whose content is the entry of the config map behind the volume.
\<close>

definition deploymentMounts :: "deployment \<Rightarrow> volume_mount list" where
  "deploymentMounts d = concat (map ct_VolumeMounts (ps_Containers (ds_PodSpec (dep_Spec d))))"

definition configMapData :: "runtime_env \<Rightarrow> presto_cluster \<Rightarrow> string \<Rightarrow> string \<rightharpoonup> string" where
  "configMapData env c name =
     (if name = om_Name (cm_ObjectMeta (getDesiredPrestoConfigMap env c)) then prestoData env c
      else if name = om_Name (cm_ObjectMeta (getDesiredCatalogConfigMap env c))
      then catalogData env c else Map.empty)"

definition mountContent :: "runtime_env \<Rightarrow> presto_cluster \<Rightarrow> deployment \<Rightarrow> volume_mount
    \<Rightarrow> string option" where
  "mountContent env c d vm =
     (case find (\<lambda>v. vol_Name v = vm_Name vm) (ps_Volumes (ds_PodSpec (dep_Spec d))) of
       None \<Rightarrow> None
     | Some v \<Rightarrow> configMapData env c (vol_ConfigMapName v) (vm_SubPath vm))"

definition mountedFiles :: "runtime_env \<Rightarrow> presto_cluster \<Rightarrow> deployment
    \<Rightarrow> (string \<times> string option) list" where
  "mountedFiles env c d =
     map (\<lambda>vm. (vm_MountPath vm, mountContent env c d vm)) (deploymentMounts d)"

lemma configmap_metas:
  assumes "env_ok env"
  shows "om_Name (cm_ObjectMeta (getDesiredPrestoConfigMap env c))
      = getPrestoConfigMapName (om_Name (pc_ObjectMeta c))"
    and "om_Name (cm_ObjectMeta (getDesiredCatalogConfigMap env c))
      = getCatalogConfigMapName (om_Name (pc_ObjectMeta c))"
  using assms by (simp_all add: getDesiredPrestoConfigMap_def getDesiredCatalogConfigMap_def
      newConfigmap_def Let_def)

text \<open>Both deployments carry the two config map volumes.\<close>

lemma mountContent_volumes:
  assumes "env_ok env" and "ps_Volumes (ds_PodSpec (dep_Spec d)) = configVolumes c"
  shows "vm_Name vm = ''config'' \<Longrightarrow> mountContent env c d vm = prestoData env c (vm_SubPath vm)"
    and "vm_Name vm = ''catalog'' \<Longrightarrow> mountContent env c d vm = catalogData env c (vm_SubPath vm)"
  using assms
  by (simp_all add: mountContent_def configVolumes_def configMapData_def configmap_metas)

lemma deployment_parts:
  "ps_Volumes (ds_PodSpec (dep_Spec (getDesiredCoordinatorDeployment env c))) = configVolumes c"
  "ps_Volumes (ds_PodSpec (dep_Spec (getDesiredWorkerDeployment env c))) = configVolumes c"
  "deploymentMounts (getDesiredCoordinatorDeployment env c) = coordinatorVolumeMounts env c"
  "deploymentMounts (getDesiredWorkerDeployment env c) = workerVolumeMounts env c"
  by (simp_all add: getDesiredCoordinatorDeployment_def getDesiredWorkerDeployment_def
      deploymentMounts_def Let_def)

text \<open>The files of one family: one per entry of its map.\<close>

definition filesUnder :: "string \<Rightarrow> (string \<rightharpoonup> string) \<Rightarrow> string set
    \<Rightarrow> (string \<times> string option) set" where
  "filesUnder dir content keys = (\<lambda>k. (dir @ k, content k)) ` keys"

lemma coordinatorEtc_content:
  assumes "env_ok env"
  shows "prestoData env c (''coordinator.'' @ k)
    = mapLookup (cc_EtcConfig (spec_CoordinatorConfig (pc_Spec c))) k"
proof -
  have "prefixedLookup ''worker.'' m (''coordinator.'' @ k) = None" for m
    by (simp add: prefixedLookup_def)
  then show ?thesis
    using assms prefixedLookup_append [of "''coordinator.''"] by (simp add: prestoData_eq)
qed

lemma workerEtc_content:
  assumes "env_ok env"
  shows "prestoData env c (''worker.'' @ k)
    = mapLookup (wc_EtcConfig (spec_WorkerConfig (pc_Spec c))) k"
proof -
  have "prefixedLookup ''coordinator.'' m (''worker.'' @ k) = None" for m
    by (simp add: prefixedLookup_def)
  then show ?thesis
    using assms prefixedLookup_append [of "''worker.''"]
    by (simp add: prestoData_eq split: option.splits)
qed

lemma family_files:
  assumes "env_ok env" and "ps_Volumes (ds_PodSpec (dep_Spec d)) = configVolumes c"
  shows "(\<lambda>k. (vm_MountPath (coordinatorEtcMount k), mountContent env c d (coordinatorEtcMount k))) ` K
      = filesUnder ''/usr/lib/presto/etc/''
          (mapLookup (cc_EtcConfig (spec_CoordinatorConfig (pc_Spec c)))) K"
    and "(\<lambda>k. (vm_MountPath (workerEtcMount k), mountContent env c d (workerEtcMount k))) ` K
      = filesUnder ''/usr/lib/presto/etc/''
          (mapLookup (wc_EtcConfig (spec_WorkerConfig (pc_Spec c)))) K"
    and "(\<lambda>k. (vm_MountPath (catalogMount k), mountContent env c d (catalogMount k))) ` K
      = filesUnder ''/usr/lib/presto/etc/catalog/'' (catalogData env c) K"
    and "(\<lambda>k. (vm_MountPath (coresiteMount k), mountContent env c d (coresiteMount k))) ` K
      = filesUnder ''/tmp/'' (catalogData env c) K"
  unfolding filesUnder_def
  using mountContent_volumes [OF assms] coordinatorEtc_content [OF assms(1)]
    workerEtc_content [OF assms(1)]
  by (simp_all add: coordinator_etc.mount_volume coordinator_etc.mount_path
      coordinator_etc.mount_sub worker_etc.mount_volume worker_etc.mount_path worker_etc.mount_sub
      catalog.mount_volume catalog.mount_path catalog.mount_sub coresite.mount_volume
      coresite.mount_path coresite.mount_sub del: append_Cons cong: image_cong_simp)

subsection \<open>A cluster to run the definitions on\<close>

definition sampleCluster :: presto_cluster where
  "sampleCluster = \<lparr>
     pc_TypeMeta = \<lparr>tm_APIVersion = ''prestooperator.k8s.io/v1alpha1'', tm_Kind = ''PrestoCluster''\<rparr>,
     pc_ObjectMeta = zeroObjectMeta\<lparr>om_Name := ''presto'', om_Namespace := ''default'',
       om_UID := ''u1''\<rparr>,
     pc_Spec = \<lparr>spec_Name = ''presto'', spec_Image = ''dlc:v2'', spec_Workers = Some 2,
       spec_CoordinatorConfig = \<lparr>cc_Resources = \<lparr>rr_Limits = None, rr_Requests = None\<rparr>,
         cc_EtcConfig = Some (fmap_of_list [(''jvm.config'', ''-server'')])\<rparr>,
       spec_WorkerConfig = \<lparr>wc_Resources = \<lparr>rr_Limits = None, rr_Requests = None\<rparr>,
         wc_EtcConfig = Some (fmap_of_list [(''jvm.config'', ''-Xmx56G'')])\<rparr>,
       spec_CatalogConfig = Some (fmap_of_list [(''hive.properties'', ''a=1'')]),
       spec_Coresite = Some (fmap_of_list [(''core-site.xml'', ''<xml/>'')])\<rparr>,
     pc_Status = \<lparr>status_AvailableWorkers = 0\<rparr>\<rparr>"

definition noSlash :: "strmap \<Rightarrow> bool" where
  "noSlash m \<longleftrightarrow> (\<forall>k \<in> mapKeys m. CHR ''/'' \<notin> set k)"

lemma sample_keys:
  "mapKeys (cc_EtcConfig (spec_CoordinatorConfig (pc_Spec sampleCluster))) = {''jvm.config''}"
  "mapKeys (wc_EtcConfig (spec_WorkerConfig (pc_Spec sampleCluster))) = {''jvm.config''}"
  by (auto simp: sampleCluster_def mapKeys_def fmlookup_of_list split: if_splits)

lemma sample_noSlash:
  "noSlash (cc_EtcConfig (spec_CoordinatorConfig (pc_Spec sampleCluster)))"
  "noSlash (wc_EtcConfig (spec_WorkerConfig (pc_Spec sampleCluster)))"
  by (simp_all add: noSlash_def sample_keys)

subsection \<open>Properties of the desired state\<close>

text \<open>C17: the desired state does not depend on the order in which Go iterates over the maps of the
  custom resource: any two admissible orders give equal objects (the reconciler compares them).\<close>

theorem desired_state_order_independent:
  assumes "env_ok env" and "range_ok ord"
  shows "getDesiredClusterState (env\<lparr>rangeOrder := ord\<rparr>) cluster = getDesiredClusterState env cluster"
proof -
  have ok: "env_ok (env\<lparr>rangeOrder := ord\<rparr>)" using assms by (simp add: env_ok_def)
  have mounts: "coordinatorVolumeMounts (env\<lparr>rangeOrder := ord\<rparr>) c = coordinatorVolumeMounts env c"
    "workerVolumeMounts (env\<lparr>rangeOrder := ord\<rparr>) c = workerVolumeMounts env c" for c
    using ok assms(1) by (simp_all add: coordinatorVolumeMounts_eq workerVolumeMounts_eq)
  have entries: "addEntries (env\<lparr>rangeOrder := ord\<rparr>) site p m d = addEntries env site p m d"
    for site p m d
    using ok assms(1) by (rule addEntries_order)
  show ?thesis using ok assms(1)
    by (simp add: getDesiredClusterState_def getDesiredCoordinatorDeployment_def mounts
        getDesiredWorkerDeployment_def getDesiredCoordinatorService_def childMeta_def entries
        getDesiredPrestoConfigMap_def getDesiredCatalogConfigMap_def split: option.split)
qed

theorem desired_state_order_independent_witness:
  "getDesiredClusterState (std_env\<lparr>rangeOrder := rangeOrder reverse_env\<rparr>) (Some sampleCluster)
     = getDesiredClusterState std_env (Some sampleCluster)"
  by (rule desired_state_order_independent [OF std_env_ok env_ok_range [OF reverse_env_ok]])

text \<open>The coordinator container sees exactly these files: every entry of its etc config under
  \<open>/usr/lib/presto/etc\<close>, every catalog entry under \<open>/usr/lib/presto/etc/catalog\<close> and every core-site
  entry under \<open>/tmp\<close>, each with its content (a core-site entry replaces a catalog entry of the same
  key); no mount is left dangling.\<close>

lemma coordinator_files:
  assumes "env_ok env"
  shows "set (mountedFiles env c (getDesiredCoordinatorDeployment env c)) =
    (let spec = pc_Spec c; etc = cc_EtcConfig (spec_CoordinatorConfig spec);
         shared = mapLookup (spec_CatalogConfig spec) ++ mapLookup (spec_Coresite spec)
     in filesUnder ''/usr/lib/presto/etc/'' (mapLookup etc) (mapKeys etc)
        \<union> filesUnder ''/usr/lib/presto/etc/catalog/'' shared (mapKeys (spec_CatalogConfig spec))
        \<union> filesUnder ''/tmp/'' shared (mapKeys (spec_Coresite spec)))"
  using assms
  by (simp add: mountedFiles_def deployment_parts coordinatorVolumeMounts_eq image_Un image_image
      family_files catalogData_eq Let_def Un_assoc)

text \<open>A worker container sees the pre-stop script, and like the coordinator its own etc config,
  the catalog and the core-site files, each with its content.\<close>

lemma worker_files:
  assumes "env_ok env"
  shows "set (mountedFiles env c (getDesiredWorkerDeployment env c)) =
    (let spec = pc_Spec c; etc = wc_EtcConfig (spec_WorkerConfig spec);
         shared = mapLookup (spec_CatalogConfig spec) ++ mapLookup (spec_Coresite spec)
     in insert (''/usr/lib/presto/etc/pre-stop.sh'', Some preStopScript)
        (filesUnder ''/usr/lib/presto/etc/'' (mapLookup etc) (mapKeys etc)
         \<union> filesUnder ''/usr/lib/presto/etc/catalog/'' shared (mapKeys (spec_CatalogConfig spec))
         \<union> filesUnder ''/tmp/'' shared (mapKeys (spec_Coresite spec))))"
proof -
  have pre: "mountContent env c (getDesiredWorkerDeployment env c) preStopMount = Some preStopScript"
    using mountContent_volumes(1) [OF assms deployment_parts(2), of preStopMount c env]
    by (simp add: preStopMount_def prestoData_eq assms)
  show ?thesis using assms
    by (simp add: mountedFiles_def deployment_parts workerVolumeMounts_eq image_Un image_image
        family_files catalogData_eq Let_def Un_assoc pre)
      (simp add: preStopMount_def)
qed

text \<open>C18: the coordinator container sees exactly these files: every entry of its etc config under
  \<open>/usr/lib/presto/etc\<close>, every catalog entry under \<open>/usr/lib/presto/etc/catalog\<close> and every core-site
  entry under \<open>/tmp\<close>, each with its content (a core-site entry replaces a catalog entry of the same
  key); no mount is left dangling. A worker container sees the same shared files, its own etc config
  and the pre-stop script.\<close>

theorem container_files:
  assumes "env_ok env"
  shows "let spec = pc_Spec c; cetc = cc_EtcConfig (spec_CoordinatorConfig spec);
       wetc = wc_EtcConfig (spec_WorkerConfig spec);
       entries = mapLookup (spec_CatalogConfig spec) ++ mapLookup (spec_Coresite spec);
       shared = filesUnder ''/usr/lib/presto/etc/catalog/'' entries (mapKeys (spec_CatalogConfig spec))
         \<union> filesUnder ''/tmp/'' entries (mapKeys (spec_Coresite spec))
     in set (mountedFiles env c (getDesiredCoordinatorDeployment env c))
          = filesUnder ''/usr/lib/presto/etc/'' (mapLookup cetc) (mapKeys cetc) \<union> shared
      \<and> set (mountedFiles env c (getDesiredWorkerDeployment env c))
          = {(''/usr/lib/presto/etc/pre-stop.sh'', Some preStopScript)}
            \<union> filesUnder ''/usr/lib/presto/etc/'' (mapLookup wetc) (mapKeys wetc) \<union> shared"
  by (simp add: coordinator_files [OF assms] worker_files [OF assms] Let_def Un_assoc)

theorem container_files_witness:
  "(''/usr/lib/presto/etc/jvm.config'', Some ''-server'')
     \<in> set (mountedFiles std_env sampleCluster
         (getDesiredCoordinatorDeployment std_env sampleCluster))
   \<and> (''/usr/lib/presto/etc/pre-stop.sh'', Some preStopScript)
     \<in> set (mountedFiles std_env sampleCluster (getDesiredWorkerDeployment std_env sampleCluster))"
proof -
  note files = container_files [OF std_env_ok, of sampleCluster, unfolded Let_def]
  show ?thesis
    unfolding files [THEN conjunct1] files [THEN conjunct2]
    by (simp add: filesUnder_def sample_keys) (simp add: sampleCluster_def fmlookup_of_list)
qed

lemma path_families_disjoint:
  "(@) ''/usr/lib/presto/etc/catalog/'' ` K \<inter> (@) ''/tmp/'' ` K' = {}"
  "(@) ''/usr/lib/presto/etc/'' ` K \<inter> (@) ''/tmp/'' ` K' = {}"
  "noSlash m \<Longrightarrow> (@) ''/usr/lib/presto/etc/'' ` mapKeys m \<inter>
     (@) ''/usr/lib/presto/etc/catalog/'' ` K' = {}"
  by (auto simp: noSlash_def)

text \<open>No two mounts of the coordinator container share a path, provided the etc keys hold no
  slash (Kubernetes allows none in a config map key).\<close>

lemma coordinator_mount_paths_distinct:
  assumes "env_ok env" and "noSlash (cc_EtcConfig (spec_CoordinatorConfig (pc_Spec c)))"
  shows "distinct (map vm_MountPath (deploymentMounts (getDesiredCoordinatorDeployment env c)))"
proof -
  let ?etc = "sorted_list_of_set (mapKeys (cc_EtcConfig (spec_CoordinatorConfig (pc_Spec c))))"
  let ?cat = "sorted_list_of_set (mapKeys (spec_CatalogConfig (pc_Spec c)))"
  let ?site = "sorted_list_of_set (mapKeys (spec_Coresite (pc_Spec c)))"
  have "distinct (map vm_MountPath (map coordinatorEtcMount ?etc) @
      map vm_MountPath (map catalogMount ?cat) @ map vm_MountPath (map coresiteMount ?site))"
    unfolding distinct_append set_append coordinator_etc.paths catalog.paths coresite.paths
      coordinator_etc.distinct_paths catalog.distinct_paths coresite.distinct_paths
    using path_families_disjoint assms(2) by (simp add: Int_Un_distrib)
  then show ?thesis
    by (simp add: deployment_parts coordinatorVolumeMounts_eq assms(1))
qed

text \<open>With slash-free etc keys the mount paths of a worker are distinct exactly when the user's
  worker etc config has no \<open>pre-stop.sh\<close> entry: such an entry collides with the script's own mount.\<close>

lemma worker_mount_paths_distinct_iff:
  assumes "env_ok env" and "noSlash (wc_EtcConfig (spec_WorkerConfig (pc_Spec c)))"
  shows "distinct (map vm_MountPath (deploymentMounts (getDesiredWorkerDeployment env c)))
    \<longleftrightarrow> ''pre-stop.sh'' \<notin> mapKeys (wc_EtcConfig (spec_WorkerConfig (pc_Spec c)))"
proof -
  let ?keys = "mapKeys (wc_EtcConfig (spec_WorkerConfig (pc_Spec c)))"
  let ?etc = "sorted_list_of_set ?keys"
  let ?cat = "sorted_list_of_set (mapKeys (spec_CatalogConfig (pc_Spec c)))"
  let ?site = "sorted_list_of_set (mapKeys (spec_Coresite (pc_Spec c)))"
  have rest: "distinct (map vm_MountPath (map workerEtcMount ?etc) @
      map vm_MountPath (map catalogMount ?cat) @ map vm_MountPath (map coresiteMount ?site))"
    unfolding distinct_append set_append worker_etc.paths catalog.paths coresite.paths
      worker_etc.distinct_paths catalog.distinct_paths coresite.distinct_paths
    using path_families_disjoint assms(2) by (simp add: Int_Un_distrib)
  have "vm_MountPath preStopMount \<in> set (map vm_MountPath (map workerEtcMount ?etc) @
      map vm_MountPath (map catalogMount ?cat) @ map vm_MountPath (map coresiteMount ?site))
    \<longleftrightarrow> ''pre-stop.sh'' \<in> ?keys"
    unfolding set_append worker_etc.paths catalog.paths coresite.paths
    by (auto simp: preStopMount_def)
  with rest show ?thesis
    by (simp add: deployment_parts workerVolumeMounts_eq assms(1))
qed

text \<open>A selector matches the labels that carry all its entries.\<close>

definition selects :: "strmap \<Rightarrow> strmap \<Rightarrow> bool" where
  "selects selector labels \<longleftrightarrow>
     (\<forall>k \<in> mapKeys selector. mapLookup labels k = mapLookup selector k)"

lemma controllerLabels_lookup:
  "mapLookup (controllerLabels app c) ''app'' = Some app"
  "mapLookup (controllerLabels app c) ''controller'' = Some (om_Name (pc_ObjectMeta c))"
  "mapKeys (controllerLabels app c) = {''app'', ''controller''}"
  by (simp_all add: controllerLabels_def mapKeys_def fmlookup_of_list insert_commute)

lemma selects_controllerLabels:
  "selects (controllerLabels app a) (controllerLabels app' b) \<longleftrightarrow>
     app' = app \<and> om_Name (pc_ObjectMeta b) = om_Name (pc_ObjectMeta a)"
  by (simp add: selects_def controllerLabels_lookup)

lemma object_labels:
  "svc_Selector (getDesiredCoordinatorService env c) = controllerLabels ''presto-coordinator'' c"
  "ds_MatchLabels (dep_Spec (getDesiredCoordinatorDeployment env c))
     = controllerLabels ''presto-coordinator'' c"
  "ds_TemplateLabels (dep_Spec (getDesiredCoordinatorDeployment env c))
     = controllerLabels ''presto-coordinator'' c"
  "ds_MatchLabels (dep_Spec (getDesiredWorkerDeployment env c))
     = controllerLabels ''presto-worker'' c"
  "ds_TemplateLabels (dep_Spec (getDesiredWorkerDeployment env c))
     = controllerLabels ''presto-worker'' c"
  by (simp_all add: getDesiredCoordinatorService_def getDesiredCoordinatorDeployment_def
      getDesiredWorkerDeployment_def Let_def)

text \<open>C19: within a namespace the coordinator service of a cluster routes to the coordinator pods of
  that cluster, to no other cluster's and to no worker; and the selector of each deployment matches
  the pods of its own template only.\<close>

theorem selectors_separate_pods:
  "let coord = ds_TemplateLabels (dep_Spec (getDesiredCoordinatorDeployment env b));
       work = ds_TemplateLabels (dep_Spec (getDesiredWorkerDeployment env b));
       same = (om_Name (pc_ObjectMeta b) = om_Name (pc_ObjectMeta a)) in
    (selects (svc_Selector (getDesiredCoordinatorService env a)) coord = same)
    \<and> \<not> selects (svc_Selector (getDesiredCoordinatorService env a)) work
    \<and> (selects (ds_MatchLabels (dep_Spec (getDesiredCoordinatorDeployment env a))) coord = same)
    \<and> \<not> selects (ds_MatchLabels (dep_Spec (getDesiredCoordinatorDeployment env a))) work
    \<and> (selects (ds_MatchLabels (dep_Spec (getDesiredWorkerDeployment env a))) work = same)
    \<and> \<not> selects (ds_MatchLabels (dep_Spec (getDesiredWorkerDeployment env a))) coord"
  by (simp add: object_labels selects_controllerLabels Let_def)

text \<open>The metadata of the five children, in the order they are reconciled.\<close>

definition childMetas :: "runtime_env \<Rightarrow> presto_cluster \<Rightarrow> object_meta list" where
  "childMetas env c = [cm_ObjectMeta (getDesiredPrestoConfigMap env c),
     cm_ObjectMeta (getDesiredCatalogConfigMap env c),
     dep_ObjectMeta (getDesiredCoordinatorDeployment env c),
     svc_ObjectMeta (getDesiredCoordinatorService env c),
     dep_ObjectMeta (getDesiredWorkerDeployment env c)]"

lemma childMetas_names:
  assumes "env_ok env"
  shows "map om_Name (childMetas env c) =
    (let n = om_Name (pc_ObjectMeta c) in [getPrestoConfigMapName n, getCatalogConfigMapName n,
       getCoordinatorDeploymentName n, getCoordinatorServiceName n, getWorkerDeploymentName n])"
  using assms
  by (simp add: childMetas_def configmap_metas getDesiredCoordinatorDeployment_def Let_def
      getDesiredCoordinatorService_def getDesiredWorkerDeployment_def childMeta_def
      getCoordinatorDeploymentName_def getCoordinatorServiceName_def getWorkerDeploymentName_def)

text \<open>C20: every child lives in the cluster's namespace and has exactly one owner reference, which
  names the cluster by name and UID as its managing controller, so that Kubernetes' garbage
  collector reclaims it with the cluster.\<close>

theorem children_owned:
  assumes "env_ok env" and "m \<in> set (childMetas env c)"
  shows "om_Namespace m = om_Namespace (pc_ObjectMeta c) \<and>
    (\<exists>ref. om_OwnerReferences m = [ref] \<and> or_UID ref = om_UID (pc_ObjectMeta c)
       \<and> or_Name ref = om_Name (pc_ObjectMeta c) \<and> or_Controller ref = Some True)"
  using assms
  by (auto simp: childMetas_def getDesiredPrestoConfigMap_def getDesiredCatalogConfigMap_def
      newConfigmap_def toOwnerReference_def getDesiredCoordinatorDeployment_def Let_def
      getDesiredCoordinatorService_def getDesiredWorkerDeployment_def childMeta_def
      env_ok_controller)

theorem children_owned_witness:
  "om_Namespace (dep_ObjectMeta (getDesiredWorkerDeployment std_env sampleCluster)) = ''default''"
  using children_owned [OF std_env_ok, of "dep_ObjectMeta (getDesiredWorkerDeployment std_env
      sampleCluster)" sampleCluster]
  by (simp add: childMetas_def sampleCluster_def)

text \<open>C21: the pre-stop hook of a worker runs a script that is really there: the path its shell is
  given is mounted, and the file mounted there is \<open>preStopScript\<close>.\<close>

theorem prestop_hook_runs_script:
  assumes "env_ok env"
    and "ct \<in> set (ps_Containers (ds_PodSpec (dep_Spec (getDesiredWorkerDeployment env c))))"
  shows "\<exists>lc path. ct_Lifecycle ct = Some lc \<and> lc_PreStop lc = Some [''/bin/sh'', path] \<and>
    (path, Some preStopScript) \<in> set (mountedFiles env c (getDesiredWorkerDeployment env c))"
proof -
  let ?d = "getDesiredWorkerDeployment env c"
  have vol: "mountContent env c ?d preStopMount = Some preStopScript"
    using mountContent_volumes(1) [OF assms(1) deployment_parts(2), of preStopMount c env]
    by (simp add: preStopMount_def prestoData_eq assms(1))
  have "preStopMount \<in> set (deploymentMounts ?d)"
    by (simp add: deployment_parts workerVolumeMounts_eq assms(1))
  then have "(vm_MountPath preStopMount, Some preStopScript) \<in> set (mountedFiles env c ?d)"
    using vol by (force simp: mountedFiles_def)
  then show ?thesis using assms(2)
    by (simp add: getDesiredWorkerDeployment_def preStopMount_def Let_def)
qed

theorem prestop_hook_runs_script_witness:
  "\<exists>ct lc path.
     ps_Containers (ds_PodSpec (dep_Spec (getDesiredWorkerDeployment std_env sampleCluster))) = [ct]
     \<and> ct_Lifecycle ct = Some lc \<and> lc_PreStop lc = Some [''/bin/sh'', path]"
proof -
  obtain ct where
    "ps_Containers (ds_PodSpec (dep_Spec (getDesiredWorkerDeployment std_env sampleCluster))) = [ct]"
    by (simp add: getDesiredWorkerDeployment_def Let_def)
  then show ?thesis using prestop_hook_runs_script [OF std_env_ok, of ct sampleCluster] by auto
qed

end
