(* ===== verification/ApiClient.thy ===== *)
theory ApiClient
  imports Desired
begin

text \<open>
  The client of the API server (\<open>client.Client\<close> of controller-runtime), the only effect the operator
  has on the cluster. The client is a parameter: a record of operations over a world of any type,
  free to fail at any call. The state of a program is the world and the list of the calls issued
  so far, kept to state which requests leave the operator and in which order.

  \<open>emits P m\<close> says that every call the program issues satisfies \<open>P\<close>, whatever the client answers;
  \<open>yields Q m\<close> that every value it returns satisfies \<open>Q\<close>; \<open>follows plan failed m\<close> that it works
  through a list of calls in order and stops early only to report a failure. Their rules follow
  the combinators.
\<close>

named_theorems emits_intros "rules that bound the calls a program issues"

subsection \<open>Objects, calls and clients\<close>

datatype api_kind = PrestoClusterKind | ConfigMapKind | DeploymentKind | ServiceKind | IngressKind

text \<open>The \<open>runtime.Object\<close>s the operator passes to \<open>Create\<close>, \<open>Update\<close> and \<open>Delete\<close>.\<close>

datatype api_object =
    ConfigMapObj config_map
  | DeploymentObj deployment
  | ServiceObj service
  | IngressObj ingress

fun objKind :: "api_object \<Rightarrow> api_kind" where
  "objKind (ConfigMapObj _) = ConfigMapKind"
| "objKind (DeploymentObj _) = DeploymentKind"
| "objKind (ServiceObj _) = ServiceKind"
| "objKind (IngressObj _) = IngressKind"

fun objMeta :: "api_object \<Rightarrow> object_meta" where
  "objMeta (ConfigMapObj c) = cm_ObjectMeta c"
| "objMeta (DeploymentObj d) = dep_ObjectMeta d"
| "objMeta (ServiceObj s) = svc_ObjectMeta s"
| "objMeta (IngressObj i) = ing_ObjectMeta i"

datatype api_call =
    CallGet api_kind namespaced_name
  | CallCreate api_object
  | CallUpdate api_object
  | CallDelete api_object
  | CallStatusUpdate presto_cluster
  | CallEvent presto_cluster string string string

text \<open>
  \<open>Get\<close> fills the object it is given, or returns an error and leaves it alone: a sum. The other
  calls return an error or nil; \<open>Event\<close> returns nothing.
\<close>

record 'w client =
  clGetCluster :: "namespaced_name \<Rightarrow> 'w \<Rightarrow> (api_error + presto_cluster) \<times> 'w"
  clGetConfigMap :: "namespaced_name \<Rightarrow> 'w \<Rightarrow> (api_error + config_map) \<times> 'w"
  clGetDeployment :: "namespaced_name \<Rightarrow> 'w \<Rightarrow> (api_error + deployment) \<times> 'w"
  clGetService :: "namespaced_name \<Rightarrow> 'w \<Rightarrow> (api_error + service) \<times> 'w"
  clCreate :: "api_object \<Rightarrow> 'w \<Rightarrow> api_error option \<times> 'w"
  clUpdate :: "api_object \<Rightarrow> 'w \<Rightarrow> api_error option \<times> 'w"
  clDelete :: "api_object \<Rightarrow> 'w \<Rightarrow> api_error option \<times> 'w"
  clStatusUpdate :: "presto_cluster \<Rightarrow> 'w \<Rightarrow> api_error option \<times> 'w"
  clEvent :: "presto_cluster \<Rightarrow> string \<Rightarrow> string \<Rightarrow> string \<Rightarrow> 'w \<Rightarrow> 'w"

record 'w sys =
  sysWorld :: 'w
  sysCalls :: "api_call list"

definition apiCall :: "api_call \<Rightarrow> ('w \<Rightarrow> 'r \<times> 'w) \<Rightarrow> ('w sys, 'r) prog" where
  "apiCall c f = (\<lambda>s. let (r, w) = f (sysWorld s)
     in (Done r, s\<lparr>sysWorld := w, sysCalls := sysCalls s @ [c]\<rparr>))"

definition getCluster :: "'w client \<Rightarrow> namespaced_name
    \<Rightarrow> ('w sys, api_error + presto_cluster) prog" where
  "getCluster cl key = apiCall (CallGet PrestoClusterKind key) (clGetCluster cl key)"

definition getConfigMap :: "'w client \<Rightarrow> namespaced_name
    \<Rightarrow> ('w sys, api_error + config_map) prog" where
  "getConfigMap cl key = apiCall (CallGet ConfigMapKind key) (clGetConfigMap cl key)"

definition getDeployment :: "'w client \<Rightarrow> namespaced_name
    \<Rightarrow> ('w sys, api_error + deployment) prog" where
  "getDeployment cl key = apiCall (CallGet DeploymentKind key) (clGetDeployment cl key)"

definition getService :: "'w client \<Rightarrow> namespaced_name
    \<Rightarrow> ('w sys, api_error + service) prog" where
  "getService cl key = apiCall (CallGet ServiceKind key) (clGetService cl key)"

definition create :: "'w client \<Rightarrow> api_object \<Rightarrow> ('w sys, api_error option) prog" where
  "create cl obj = apiCall (CallCreate obj) (clCreate cl obj)"

definition update :: "'w client \<Rightarrow> api_object \<Rightarrow> ('w sys, api_error option) prog" where
  "update cl obj = apiCall (CallUpdate obj) (clUpdate cl obj)"

definition delete :: "'w client \<Rightarrow> api_object \<Rightarrow> ('w sys, api_error option) prog" where
  "delete cl obj = apiCall (CallDelete obj) (clDelete cl obj)"

definition statusUpdate :: "'w client \<Rightarrow> presto_cluster \<Rightarrow> ('w sys, api_error option) prog" where
  "statusUpdate cl c = apiCall (CallStatusUpdate c) (clStatusUpdate cl c)"

definition event :: "'w client \<Rightarrow> presto_cluster \<Rightarrow> string \<Rightarrow> string \<Rightarrow> string
    \<Rightarrow> ('w sys, unit) prog" where
  "event cl c eventtype reason message = apiCall (CallEvent c eventtype reason message)
     (\<lambda>w. ((), clEvent cl c eventtype reason message w))"

lemmas call_defs = getCluster_def getConfigMap_def getDeployment_def getService_def create_def
  update_def delete_def statusUpdate_def event_def

lemma apiCall_run [prog_simps]:
  "f (sysWorld s) = (r, w) \<Longrightarrow>
     apiCall c f s = (Done r, s\<lparr>sysWorld := w, sysCalls := sysCalls s @ [c]\<rparr>)"
  by (simp add: apiCall_def)

subsection \<open>The calls of a program\<close>

definition emits :: "(api_call \<Rightarrow> bool) \<Rightarrow> ('w sys, 'a) prog \<Rightarrow> bool" where
  "emits P m \<longleftrightarrow> (\<forall>s. \<exists>cs. sysCalls (snd (m s)) = sysCalls s @ cs \<and> list_all P cs)"

definition yields :: "('a \<Rightarrow> bool) \<Rightarrow> ('s, 'a) prog \<Rightarrow> bool" where
  "yields Q m \<longleftrightarrow> (\<forall>s x s'. m s = (Done x, s') \<longrightarrow> Q x)"

lemma emitsE:
  assumes "emits P m" and "m s = (r, s')"
  obtains cs where "sysCalls s' = sysCalls s @ cs" and "list_all P cs"
  using assms by (auto simp: emits_def dest: spec [of _ s])

lemma yieldsD: "yields Q m \<Longrightarrow> m s = (Done x, s') \<Longrightarrow> Q x"
  by (auto simp: yields_def)

lemma emits_ret [emits_intros]: "emits P (ret x)"
  by (simp add: emits_def ret_def)

lemma emits_panic [emits_intros]: "emits P panic"
  by (simp add: emits_def panic_def)

lemma emits_apiCall [emits_intros]: "P c \<Longrightarrow> emits P (apiCall c f)"
  by (simp add: emits_def apiCall_def split: prod.split)

lemma emits_deref [emits_intros]: "emits P (deref p)"
  by (cases p) (simp_all add: emits_intros)

lemma emits_bindP_yields:
  assumes m: "emits P m" and q: "yields Q m" and f: "\<And>x. Q x \<Longrightarrow> emits P (f x)"
  shows "emits P (bindP m f)"
  unfolding emits_def
proof
  fix s
  obtain r s1 where ms: "m s = (r, s1)" by fastforce
  obtain cs where cs: "sysCalls s1 = sysCalls s @ cs" "list_all P cs" using emitsE [OF m ms] .
  show "\<exists>cs. sysCalls (snd (bindP m f s)) = sysCalls s @ cs \<and> list_all P cs"
  proof (cases r)
    case (Done x)
    then have Q: "Q x" using yieldsD [OF q, of s x s1] ms by simp
    obtain r2 s2 where fs: "f x s1 = (r2, s2)" by fastforce
    obtain ds where "sysCalls s2 = sysCalls s1 @ ds" "list_all P ds" using emitsE [OF f [OF Q] fs] .
    then show ?thesis using cs ms fs Done by (simp add: prog_simps)
  next
    case Panicked
    then show ?thesis using cs ms by (simp add: prog_simps)
  qed
qed

lemma emits_bindP [emits_intros]:
  "emits P m \<Longrightarrow> (\<And>x. emits P (f x)) \<Longrightarrow> emits P (bindP m f)"
  by (rule emits_bindP_yields [where Q = "\<lambda>_. True"]) (simp_all add: yields_def)

lemma emits_orReturn [emits_intros]:
  "emits P m \<Longrightarrow> (\<And>e. emits P (h e)) \<Longrightarrow> emits P rest \<Longrightarrow> emits P (orReturn m h rest)"
  by (simp add: orReturn_def emits_intros split: option.split)

lemma emits_if [emits_intros]:
  "(b \<Longrightarrow> emits P m) \<Longrightarrow> (\<not> b \<Longrightarrow> emits P m') \<Longrightarrow> emits P (if b then m else m')"
  by simp

lemma emits_mono: "emits P m \<Longrightarrow> (\<And>c. P c \<Longrightarrow> Q c) \<Longrightarrow> emits Q m"
  unfolding emits_def list_all_iff by blast

lemma emits_calls:
  assumes "emits P m" and "m s = (r, s')" and "c \<in> set (sysCalls s')"
  shows "c \<in> set (sysCalls s) \<or> P c"
  using emitsE [OF assms(1,2)] assms(3) by (metis Un_iff list_all_iff set_append)

subsection \<open>Values a program returns\<close>

lemma yields_any: "yields (\<lambda>_. True) m"
  by (simp add: yields_def)

lemma yields_mono: "yields P m \<Longrightarrow> (\<And>x. P x \<Longrightarrow> Q x) \<Longrightarrow> yields Q m"
  by (auto simp: yields_def)

lemma yields_ret: "Q x \<Longrightarrow> yields Q (ret x)"
  by (simp add: yields_def ret_def)

lemma yields_bindP:
  assumes "yields P m" and "\<And>x. P x \<Longrightarrow> yields Q (f x)"
  shows "yields Q (bindP m f)"
  unfolding yields_def
proof (intro allI impI)
  fix s y s'
  assume run: "bindP m f s = (Done y, s')"
  obtain r s1 where m: "m s = (r, s1)" by fastforce
  show "Q y"
  proof (cases r)
    case (Done x)
    then show ?thesis
      using run m yieldsD [OF assms(2) [OF yieldsD [OF assms(1)]], of s x s1 s1 y s']
      by (simp add: bindP_def)
  next
    case Panicked
    then show ?thesis using run m by (simp add: bindP_def)
  qed
qed

subsection \<open>Programs that follow a plan\<close>

text \<open>
  The program never panics and issues a prefix of the plan: all of it if the value it returns is
  not a failure, at least one call otherwise.
\<close>

definition follows :: "api_call list \<Rightarrow> ('a \<Rightarrow> bool) \<Rightarrow> ('w sys, 'a) prog \<Rightarrow> bool" where
  "follows plan failed m \<longleftrightarrow> (\<forall>s. \<exists>x s' n. m s = (Done x, s')
     \<and> sysCalls s' = sysCalls s @ take n plan \<and> n \<le> length plan
     \<and> (if failed x then 0 < n else n = length plan))"

lemma followsE:
  assumes "follows plan failed m"
  obtains x s' n where "m s = (Done x, s')" and "sysCalls s' = sysCalls s @ take n plan"
    and "n \<le> length plan" and "if failed x then 0 < n else n = length plan"
  using assms unfolding follows_def by blast

lemma followsI:
  assumes "\<And>s. \<exists>x s' n. m s = (Done x, s') \<and> sysCalls s' = sysCalls s @ take n plan
     \<and> n \<le> length plan \<and> (if failed x then 0 < n else n = length plan)"
  shows "follows plan failed m"
  using assms unfolding follows_def by blast

lemma follows_ret: "\<not> failed x \<Longrightarrow> follows [] failed (ret x)"
  by (simp add: follows_def ret_def)

lemma follows_call: "follows [c] failed (apiCall c f)"
  unfolding follows_def by (auto simp: apiCall_def split: prod.split intro!: exI [of _ "Suc 0"])

lemma follows_bindP:
  assumes m: "follows p bad m"
    and stop: "\<And>x. bad x \<Longrightarrow> \<exists>y. f x = ret y \<and> failed y"
    and go: "\<And>x. \<not> bad x \<Longrightarrow> follows q failed (f x)"
  shows "follows (p @ q) failed (bindP m f)"
proof (rule followsI)
  fix s
  obtain x s1 n where x: "m s = (Done x, s1)" "sysCalls s1 = sysCalls s @ take n p"
    "n \<le> length p" "if bad x then 0 < n else n = length p"
    using followsE [OF m, of s] .
  show "\<exists>y s' n. bindP m f s = (Done y, s') \<and> sysCalls s' = sysCalls s @ take n (p @ q)
     \<and> n \<le> length (p @ q) \<and> (if failed y then 0 < n else n = length (p @ q))"
  proof (cases "bad x")
    case True
    then obtain y where "f x = ret y" "failed y" using stop by blast
    then show ?thesis using x True by (intro exI [of _ y] exI [of _ s1] exI [of _ n])
        (simp add: bindP_def ret_def)
  next
    case False
    obtain y s2 k where y: "f x s1 = (Done y, s2)" "sysCalls s2 = sysCalls s1 @ take k q"
      "k \<le> length q" "if failed y then 0 < k else k = length q"
      using followsE [OF go [OF False], of s1] .
    then show ?thesis using x False
      by (intro exI [of _ y] exI [of _ s2] exI [of _ "length p + k"]) (simp add: bindP_def)
  qed
qed

lemma follows_call_map: "follows [c] failed (bindP (apiCall c f) (\<lambda>x. ret (g x)))"
  unfolding follows_def
  by (auto simp: apiCall_def bindP_def ret_def split: prod.split intro!: exI [of _ "Suc 0"])

lemma follows_orReturn:
  assumes "follows p (\<lambda>err. err \<noteq> None) m" and "\<And>e. \<exists>y. h e = ret y \<and> failed y"
    and "follows q failed rest"
  shows "follows (p @ q) failed (orReturn m h rest)"
  unfolding orReturn_def
  by (rule follows_bindP [OF assms(1)]) (use assms(2,3) in \<open>auto split: option.split\<close>)

lemma follows_emits:
  assumes "follows plan failed m"
  shows "emits (\<lambda>c. c \<in> set plan) m"
  unfolding emits_def
proof
  fix s
  obtain x s' n where "m s = (Done x, s')" "sysCalls s' = sysCalls s @ take n plan"
    using followsE [OF assms, of s] .
  then show "\<exists>cs. sysCalls (snd (m s)) = sysCalls s @ cs \<and> list_all (\<lambda>c. c \<in> set plan) cs"
    by (auto simp: list_all_iff dest: in_set_takeD)
qed

text \<open>What \<open>Get\<close> is documented to return: the object stored under the key it is asked for.\<close>

definition getKeyed :: "'w client \<Rightarrow> bool" where
  "getKeyed cl \<longleftrightarrow> (\<forall>key w c w'. clGetCluster cl key w = (Inr c, w') \<longrightarrow> keyOf (pc_ObjectMeta c) = key)"

end
