(* ===== verification/Inspector.thy ===== *)
theory Inspector
  imports ApiClient
begin

text \<open>
  \<open>src/controllers/inspector.go\<close>: reading the cluster and its five children. A NotFound answer
  leaves the field nil, any other error ends the inspection. The request is its
  \<open>NamespacedName\<close>.
\<close>

record inspected_cluster_state =
  ins_cluster :: "presto_cluster option"
  ins_prestoConfigMap :: "config_map option"
  ins_catalogConfigMap :: "config_map option"
  ins_coordinatorDeployment :: "deployment option"
  ins_coordinatorService :: "service option"
  ins_workerDeployment :: "deployment option"

definition emptyInspected :: inspected_cluster_state where
  "emptyInspected = \<lparr>ins_cluster = None, ins_prestoConfigMap = None, ins_catalogConfigMap = None,
     ins_coordinatorDeployment = None, ins_coordinatorService = None, ins_workerDeployment = None\<rparr>"

definition inspectCluster ::
  "'w client \<Rightarrow> namespaced_name \<Rightarrow> ('w sys, api_error + presto_cluster) prog" where
  "inspectCluster cl request = getCluster cl request"

definition inspectConfigMap ::
  "'w client \<Rightarrow> namespaced_name \<Rightarrow> string \<Rightarrow> ('w sys, api_error + config_map) prog" where
  "inspectConfigMap cl request configmapName =
     (let clusterNamespace = nn_Namespace request; clusterName = nn_Name request
      in getConfigMap cl \<lparr>nn_Namespace = clusterNamespace, nn_Name = clusterName @ configmapName\<rparr>)"

definition inspectDeployment ::
  "'w client \<Rightarrow> string \<Rightarrow> string \<Rightarrow> ('w sys, api_error + deployment) prog" where
  "inspectDeployment cl namespace name =
     getDeployment cl \<lparr>nn_Namespace = namespace, nn_Name = name\<rparr>"

definition inspectCoordiatorDeployment ::
  "'w client \<Rightarrow> namespaced_name \<Rightarrow> ('w sys, api_error + deployment) prog" where
  "inspectCoordiatorDeployment cl request =
     (let clusterNamespace = nn_Namespace request; clusterName = nn_Name request;
          coordinatorDeploymentName = getCoordinatorDeploymentName clusterName
      in inspectDeployment cl clusterNamespace coordinatorDeploymentName)"

definition inspectWorkerDeployment ::
  "'w client \<Rightarrow> namespaced_name \<Rightarrow> ('w sys, api_error + deployment) prog" where
  "inspectWorkerDeployment cl request =
     (let clusterNamespace = nn_Namespace request; clusterName = nn_Name request;
          tmDeploymentName = getWorkerDeploymentName clusterName
      in inspectDeployment cl clusterNamespace tmDeploymentName)"

definition inspectCoordinatorService ::
  "'w client \<Rightarrow> namespaced_name \<Rightarrow> ('w sys, api_error + service) prog" where
  "inspectCoordinatorService cl request =
     (let clusterNamespace = nn_Namespace request; clusterName = nn_Name request
      in getService cl \<lparr>nn_Namespace = clusterNamespace,
           nn_Name = getCoordinatorServiceName clusterName\<rparr>)"

text \<open>
  The block that follows each read: \<open>if err != nil { if IgnoreNotFound(err) != nil { return err } }
  else { inspected.field = obj }\<close>, then the rest of the body.
\<close>

definition inspectStep :: "runtime_env \<Rightarrow> ('w sys, api_error + 'o) prog
    \<Rightarrow> ('o \<Rightarrow> inspected_cluster_state \<Rightarrow> inspected_cluster_state)
    \<Rightarrow> inspected_cluster_state
    \<Rightarrow> (inspected_cluster_state \<Rightarrow> ('w sys, api_error option \<times> inspected_cluster_state) prog)
    \<Rightarrow> ('w sys, api_error option \<times> inspected_cluster_state) prog" where
  "inspectStep env getObj setObj inspected rest = bindP getObj (\<lambda>r. case r of
     Inl err \<Rightarrow> if IgnoreNotFound env (Some err) \<noteq> None then ret (Some err, inspected)
       else rest inspected
   | Inr obj \<Rightarrow> rest (setObj obj inspected))"

text \<open>The error and the state filled so far (the Go code fills it through a pointer).\<close>

definition inspect :: "runtime_env \<Rightarrow> 'w client \<Rightarrow> namespaced_name \<Rightarrow> inspected_cluster_state
    \<Rightarrow> ('w sys, api_error option \<times> inspected_cluster_state) prog" where
  "inspect env cl request inspected =
     inspectStep env (inspectCluster cl request)
       (\<lambda>c i. i\<lparr>ins_cluster := Some c\<rparr>) inspected (\<lambda>inspected.
     inspectStep env (inspectConfigMap cl request ''-catalog-configmap'')
       (\<lambda>cm i. i\<lparr>ins_catalogConfigMap := Some cm\<rparr>) inspected (\<lambda>inspected.
     inspectStep env (inspectConfigMap cl request ''-presto-configmap'')
       (\<lambda>cm i. i\<lparr>ins_prestoConfigMap := Some cm\<rparr>) inspected (\<lambda>inspected.
     inspectStep env (inspectCoordiatorDeployment cl request)
       (\<lambda>d i. i\<lparr>ins_coordinatorDeployment := Some d\<rparr>) inspected (\<lambda>inspected.
     inspectStep env (inspectCoordinatorService cl request)
       (\<lambda>svc i. i\<lparr>ins_coordinatorService := Some svc\<rparr>) inspected (\<lambda>inspected.
     inspectStep env (inspectWorkerDeployment cl request)
       (\<lambda>d i. i\<lparr>ins_workerDeployment := Some d\<rparr>) inspected (\<lambda>inspected.
     ret (None, inspected)))))))"

subsection \<open>The reads of an inspection\<close>

lemmas inspector_call_defs = inspectCluster_def inspectConfigMap_def inspectDeployment_def
  inspectCoordiatorDeployment_def inspectWorkerDeployment_def inspectCoordinatorService_def

fun isGet :: "api_call \<Rightarrow> bool" where
  "isGet (CallGet _ _) = True"
| "isGet _ = False"

text \<open>The six reads, in order: the names are those the desired objects are created under.\<close>

definition inspectCalls :: "namespaced_name \<Rightarrow> api_call list" where
  "inspectCalls request = (let ns = nn_Namespace request; n = nn_Name request in
     [CallGet PrestoClusterKind request,
      CallGet ConfigMapKind \<lparr>nn_Namespace = ns, nn_Name = getCatalogConfigMapName n\<rparr>,
      CallGet ConfigMapKind \<lparr>nn_Namespace = ns, nn_Name = getPrestoConfigMapName n\<rparr>,
      CallGet DeploymentKind \<lparr>nn_Namespace = ns, nn_Name = getCoordinatorDeploymentName n\<rparr>,
      CallGet ServiceKind \<lparr>nn_Namespace = ns, nn_Name = getCoordinatorServiceName n\<rparr>,
      CallGet DeploymentKind \<lparr>nn_Namespace = ns, nn_Name = getWorkerDeploymentName n\<rparr>])"

text \<open>An error an inspection returns is not a NotFound.\<close>

definition hardError :: "api_error option \<Rightarrow> bool" where
  "hardError err \<longleftrightarrow> (case err of None \<Rightarrow> True | Some e \<Rightarrow> \<not> isNotFound e)"

abbreviation inspectFailed :: "api_error option \<times> inspected_cluster_state \<Rightarrow> bool" where
  "inspectFailed x \<equiv> fst x \<noteq> None"

lemma follows_inspectStep:
  assumes "env_ok env" and "\<And>ins. follows cs inspectFailed (rest ins)"
  shows "follows (c # cs) inspectFailed (inspectStep env (apiCall c f) setObj ins rest)"
proof -
  let ?bad = "\<lambda>r. \<exists>e. r = Inl e \<and> \<not> isNotFound e"
  have "follows ([c] @ cs) inspectFailed (inspectStep env (apiCall c f) setObj ins rest)"
    unfolding inspectStep_def
    by (rule follows_bindP [OF follows_call [where failed = ?bad]])
      (use assms in \<open>auto simp: env_ok_ignore split: sum.split\<close>)
  then show ?thesis by simp
qed

lemma inspect_follows:
  assumes "env_ok env"
  shows "follows (inspectCalls request) inspectFailed (inspect env cl request inspected)"
  unfolding inspect_def inspectCalls_def Let_def inspector_call_defs call_defs
    getCatalogConfigMapName_def getPrestoConfigMapName_def
  by (intro follows_inspectStep follows_ret assms) simp

lemmas inspect_emits = follows_emits [OF inspect_follows]

subsection \<open>What an inspection returns\<close>

text \<open>
  A property of the inspected state that the setters keep, given what the reads promise, holds of
  the state returned.
\<close>

lemma yields_inspectStep:
  assumes "env_ok env"
    and "yields (\<lambda>r. \<forall>obj. r = Inr obj \<longrightarrow> K (setObj obj ins)) getObj" and "K ins"
    and "\<And>ins'. K ins' \<Longrightarrow> yields (\<lambda>(err, ins). K ins \<and> hardError err) (rest ins')"
  shows "yields (\<lambda>(err, ins). K ins \<and> hardError err) (inspectStep env getObj setObj ins rest)"
  unfolding inspectStep_def
  by (rule yields_bindP [OF assms(2)])
    (use assms in \<open>auto simp: env_ok_ignore hardError_def intro: yields_ret split: sum.split\<close>)

lemma inspect_yields:
  assumes env: "env_ok env" and start: "K inspected"
    and cluster: "\<And>ins. K ins \<Longrightarrow>
      yields (\<lambda>r. \<forall>c. r = Inr c \<longrightarrow> K (ins\<lparr>ins_cluster := Some c\<rparr>)) (inspectCluster cl request)"
    and maps: "\<And>ins cm. K ins \<Longrightarrow> K (ins\<lparr>ins_catalogConfigMap := cm\<rparr>) \<and> K (ins\<lparr>ins_prestoConfigMap := cm\<rparr>)"
    and svc: "\<And>ins svc. K ins \<Longrightarrow> K (ins\<lparr>ins_coordinatorService := svc\<rparr>)"
    and deps: "\<And>ins. K ins \<Longrightarrow> yields (\<lambda>r. \<forall>d. r = Inr d \<longrightarrow>
        K (ins\<lparr>ins_coordinatorDeployment := Some d\<rparr>)) (inspectCoordiatorDeployment cl request)"
      "\<And>ins. K ins \<Longrightarrow> yields (\<lambda>r. \<forall>d. r = Inr d \<longrightarrow>
        K (ins\<lparr>ins_workerDeployment := Some d\<rparr>)) (inspectWorkerDeployment cl request)"
  shows "yields (\<lambda>(err, ins). K ins \<and> hardError err) (inspect env cl request inspected)"
  unfolding inspect_def
  by (intro yields_inspectStep [where K = K] env start cluster deps yields_ret
      yields_mono [OF yields_any]; simp add: maps svc hardError_def)

lemma inspect_hardError:
  assumes "env_ok env"
  shows "yields (\<lambda>(err, ins). hardError err) (inspect env cl request inspected)"
  by (rule yields_mono [OF inspect_yields [OF assms, of "\<lambda>_. True"]])
    (auto intro: yields_mono [OF yields_any])

text \<open>The cluster an inspection finds is the requested one.\<close>

definition clusterKeyed :: "namespaced_name \<Rightarrow> inspected_cluster_state \<Rightarrow> bool" where
  "clusterKeyed request ins \<longleftrightarrow>
     (\<forall>c. ins_cluster ins = Some c \<longrightarrow> keyOf (pc_ObjectMeta c) = request)"

lemma getCluster_keyed:
  "getKeyed cl \<Longrightarrow>
     yields (\<lambda>r. \<forall>c. r = Inr c \<longrightarrow> keyOf (pc_ObjectMeta c) = request) (inspectCluster cl request)"
  by (auto simp: yields_def inspectCluster_def getCluster_def apiCall_def getKeyed_def
      split: prod.splits)

lemma inspect_keyed:
  assumes "env_ok env" and "getKeyed cl" and "clusterKeyed request inspected"
  shows "yields (\<lambda>(err, ins). clusterKeyed request ins \<and> hardError err)
    (inspect env cl request inspected)"
  by (rule inspect_yields [where K = "clusterKeyed request", OF assms(1,3)])
    (auto simp: clusterKeyed_def intro: yields_mono [OF getCluster_keyed [OF assms(2)]]
      yields_mono [OF yields_any])

lemma emptyInspected_keyed [simp]: "clusterKeyed request emptyInspected"
  by (simp add: clusterKeyed_def emptyInspected_def)

text \<open>A cluster that is not found stays absent: the later reads set other fields.\<close>

lemma inspect_absent:
  assumes env: "env_ok env" and get: "clGetCluster cl req (sysWorld s) = (Inl e, w)" and e: "isNotFound e"
    and run: "inspect env cl req emptyInspected s = (Done (err, ins), s1)"
  shows "ins_cluster ins = None"
proof -
  let ?K = "\<lambda>i. ins_cluster i = None"
  obtain rest where split: "inspect env cl req emptyInspected = inspectStep env (inspectCluster cl req)
      (\<lambda>c i. i\<lparr>ins_cluster := Some c\<rparr>) emptyInspected rest"
    and keep: "\<And>j. ?K j \<Longrightarrow> yields (\<lambda>(err, i). ?K i \<and> hardError err) (rest j)"
  proof (rule that, unfold inspect_def, rule refl)
    fix j :: inspected_cluster_state
    assume "?K j"
    then show "yields (\<lambda>(err, i). ?K i \<and> hardError err) (inspectStep env
       (inspectConfigMap cl req ''-catalog-configmap'')
       (\<lambda>cm i. i\<lparr>ins_catalogConfigMap := Some cm\<rparr>) j (\<lambda>inspected.
     inspectStep env (inspectConfigMap cl req ''-presto-configmap'')
       (\<lambda>cm i. i\<lparr>ins_prestoConfigMap := Some cm\<rparr>) inspected (\<lambda>inspected.
     inspectStep env (inspectCoordiatorDeployment cl req)
       (\<lambda>d i. i\<lparr>ins_coordinatorDeployment := Some d\<rparr>) inspected (\<lambda>inspected.
     inspectStep env (inspectCoordinatorService cl req)
       (\<lambda>svc i. i\<lparr>ins_coordinatorService := Some svc\<rparr>) inspected (\<lambda>inspected.
     inspectStep env (inspectWorkerDeployment cl req)
       (\<lambda>d i. i\<lparr>ins_workerDeployment := Some d\<rparr>) inspected (\<lambda>inspected.
     ret (None, inspected)))))))"
      by (intro yields_inspectStep [where K = ?K] yields_ret yields_mono [OF yields_any] env;
          simp add: hardError_def)
  qed
  have "getCluster cl req s = (Done (Inl e),
      s\<lparr>sysWorld := w, sysCalls := sysCalls s @ [CallGet PrestoClusterKind req]\<rparr>)"
    using get by (simp add: getCluster_def apiCall_def)
  then have "\<exists>s0. rest emptyInspected s0 = (Done (err, ins), s1)"
    using run env e by (auto simp: split inspectStep_def inspectCluster_def bindP_def env_ok_ignore)
  then show ?thesis
    using yieldsD [OF keep [of emptyInspected]] by (fastforce simp: emptyInspected_def)
qed

end
