(* ===== verification/Reconciler.thy ===== *)
theory Reconciler
  imports Inspector
begin

text \<open>
  \<open>src/controllers/reconciler.go\<close>: driving the inspected state towards the desired one. The
  parameter \<open>component\<close> and the logger only serve log lines and are left out. A dereference of a nil
  \<open>Replicas\<close> pointer panics.

  The five children share a contract, stated as the locale \<open>child_reconciler\<close>: create what is wanted
  and missing, delete what is there and not wanted, and otherwise at most update. Two locales
  extend it: \<open>static_child\<close> (an existing child is never touched) for the config maps and the
  service, \<open>scaled_child\<close> (updated when the replica counts differ) for the deployments. Each is
  interpreted on the reconciling functions of this file.
\<close>

record 'w cluster_reconciler =
  rec_k8sClient :: "'w client"
  rec_env :: runtime_env
  rec_inspected :: inspected_cluster_state
  rec_desired :: desired_cluster_state

definition createDeployment ::
  "'w cluster_reconciler \<Rightarrow> deployment \<Rightarrow> ('w sys, api_error option) prog" where
  "createDeployment r deployment = create (rec_k8sClient r) (DeploymentObj deployment)"

definition updateDeployment ::
  "'w cluster_reconciler \<Rightarrow> deployment \<Rightarrow> ('w sys, api_error option) prog" where
  "updateDeployment r deployment = update (rec_k8sClient r) (DeploymentObj deployment)"

definition deleteDeployment ::
  "'w cluster_reconciler \<Rightarrow> deployment \<Rightarrow> ('w sys, api_error option) prog" where
  "deleteDeployment r deployment =
     bindP (delete (rec_k8sClient r) (DeploymentObj deployment))
       (\<lambda>err. ret (IgnoreNotFound (rec_env r) err))"

definition reconcileDeployment :: "'w cluster_reconciler \<Rightarrow> deployment option \<Rightarrow> deployment option
    \<Rightarrow> ('w sys, api_error option) prog" where
  "reconcileDeployment r desiredDeployment inspectedDeployment =
     (case (desiredDeployment, inspectedDeployment) of
        (Some d, None) \<Rightarrow> createDeployment r d
      | (Some d, Some i) \<Rightarrow>
          bindP (deref (ds_Replicas (dep_Spec d))) (\<lambda>desiredReplicas.
          bindP (deref (ds_Replicas (dep_Spec i))) (\<lambda>inspectedReplicas.
            if desiredReplicas \<noteq> inspectedReplicas then updateDeployment r d else ret None))
      | (None, Some i) \<Rightarrow> deleteDeployment r i
      | (None, None) \<Rightarrow> ret None)"

definition reconcileCoordinatorDeployment ::
  "'w cluster_reconciler \<Rightarrow> ('w sys, api_error option) prog" where
  "reconcileCoordinatorDeployment r = reconcileDeployment r
     (des_CoordinatorDeployment (rec_desired r)) (ins_coordinatorDeployment (rec_inspected r))"

definition reconcileWorkerDeployment ::
  "'w cluster_reconciler \<Rightarrow> ('w sys, api_error option) prog" where
  "reconcileWorkerDeployment r = reconcileDeployment r
     (des_WorkerDeployment (rec_desired r)) (ins_workerDeployment (rec_inspected r))"

definition createService ::
  "'w cluster_reconciler \<Rightarrow> service \<Rightarrow> ('w sys, api_error option) prog" where
  "createService r service = create (rec_k8sClient r) (ServiceObj service)"

definition deleteService ::
  "'w cluster_reconciler \<Rightarrow> service \<Rightarrow> ('w sys, api_error option) prog" where
  "deleteService r service =
     bindP (delete (rec_k8sClient r) (ServiceObj service))
       (\<lambda>err. ret (IgnoreNotFound (rec_env r) err))"

definition reconcileCoordinatorService ::
  "'w cluster_reconciler \<Rightarrow> ('w sys, api_error option) prog" where
  "reconcileCoordinatorService r =
     (case (des_CoordinatorService (rec_desired r), ins_coordinatorService (rec_inspected r)) of
        (Some d, None) \<Rightarrow> createService r d
      | (Some d, Some i) \<Rightarrow> ret None
      | (None, Some i) \<Rightarrow> deleteService r i
      | (None, None) \<Rightarrow> ret None)"

definition createIngress ::
  "'w cluster_reconciler \<Rightarrow> ingress \<Rightarrow> ('w sys, api_error option) prog" where
  "createIngress r ingress = create (rec_k8sClient r) (IngressObj ingress)"

definition deleteIngress ::
  "'w cluster_reconciler \<Rightarrow> ingress \<Rightarrow> ('w sys, api_error option) prog" where
  "deleteIngress r ingress =
     bindP (delete (rec_k8sClient r) (IngressObj ingress))
       (\<lambda>err. ret (IgnoreNotFound (rec_env r) err))"

definition createConfigMap ::
  "'w cluster_reconciler \<Rightarrow> config_map \<Rightarrow> ('w sys, api_error option) prog" where
  "createConfigMap r cm = create (rec_k8sClient r) (ConfigMapObj cm)"

definition deleteConfigMap ::
  "'w cluster_reconciler \<Rightarrow> config_map \<Rightarrow> ('w sys, api_error option) prog" where
  "deleteConfigMap r cm =
     bindP (delete (rec_k8sClient r) (ConfigMapObj cm))
       (\<lambda>err. ret (IgnoreNotFound (rec_env r) err))"

definition reconcilePrestoConfigMap ::
  "'w cluster_reconciler \<Rightarrow> ('w sys, api_error option) prog" where
  "reconcilePrestoConfigMap r =
     (case (des_PrestoConfigMap (rec_desired r), ins_prestoConfigMap (rec_inspected r)) of
        (Some d, None) \<Rightarrow> createConfigMap r d
      | (Some d, Some i) \<Rightarrow> ret None
      | (None, Some i) \<Rightarrow> deleteConfigMap r i
      | (None, None) \<Rightarrow> ret None)"

definition reconcileCatalogConfigMap ::
  "'w cluster_reconciler \<Rightarrow> ('w sys, api_error option) prog" where
  "reconcileCatalogConfigMap r =
     (case (des_CatalogConfigMap (rec_desired r), ins_catalogConfigMap (rec_inspected r)) of
        (Some d, None) \<Rightarrow> createConfigMap r d
      | (Some d, Some i) \<Rightarrow> ret None
      | (None, Some i) \<Rightarrow> deleteConfigMap r i
      | (None, None) \<Rightarrow> ret None)"

text \<open>\<open>reconcile\<close>: the five children in order, the first error ends it.\<close>

definition reconcile :: "'w cluster_reconciler
    \<Rightarrow> ('w sys, ctrl_result \<times> api_error option) prog" where
  "reconcile r =
     (if ins_cluster (rec_inspected r) = None then ret (emptyResult, None)
      else
        orReturn (reconcilePrestoConfigMap r) (\<lambda>err. ret (emptyResult, Some err)) (
        orReturn (reconcileCatalogConfigMap r) (\<lambda>err. ret (emptyResult, Some err)) (
        orReturn (reconcileCoordinatorDeployment r) (\<lambda>err. ret (emptyResult, Some err)) (
        orReturn (reconcileCoordinatorService r) (\<lambda>err. ret (emptyResult, Some err)) (
        orReturn (reconcileWorkerDeployment r) (\<lambda>err. ret (emptyResult, Some err)) (
        ret (emptyResult, None)))))))"

text \<open>Declared, and read by nothing.\<close>

definition requeueResult :: ctrl_result where
  "requeueResult = \<lparr>res_Requeue = True, res_RequeueAfter = 10 * second\<rparr>"

subsection \<open>The contract of a child\<close>

text \<open>
  \<open>want\<close> and \<open>seen\<close> pick the child out of the desired and the inspected state, \<open>obj\<close> makes it an
  API object. \<open>childPlan\<close> is the abstract contract: the calls a child takes, where \<open>differs\<close> says
  when an existing child has to be updated.
\<close>

definition childPlan :: "('o \<Rightarrow> api_object) \<Rightarrow> ('o \<Rightarrow> 'o \<Rightarrow> bool) \<Rightarrow> 'o option \<Rightarrow> 'o option
    \<Rightarrow> api_call list" where
  "childPlan obj differs want seen = (case (want, seen) of
     (Some d, None) \<Rightarrow> [CallCreate (obj d)]
   | (Some d, Some i) \<Rightarrow> if differs d i then [CallUpdate (obj d)] else []
   | (None, Some i) \<Rightarrow> [CallDelete (obj i)]
   | (None, None) \<Rightarrow> [])"

locale child_reconciler =
  fixes run :: "'w cluster_reconciler \<Rightarrow> ('w sys, api_error option) prog"
    and want :: "desired_cluster_state \<Rightarrow> 'o option"
    and seen :: "inspected_cluster_state \<Rightarrow> 'o option"
    and obj :: "'o \<Rightarrow> api_object"
  assumes create_missing: "want (rec_desired r) = Some d \<Longrightarrow> seen (rec_inspected r) = None \<Longrightarrow>
      run r = create (rec_k8sClient r) (obj d)"
    and delete_unwanted: "want (rec_desired r) = None \<Longrightarrow> seen (rec_inspected r) = Some i \<Longrightarrow>
      run r = bindP (delete (rec_k8sClient r) (obj i)) (\<lambda>err. ret (IgnoreNotFound (rec_env r) err))"
    and idle: "want (rec_desired r) = None \<Longrightarrow> seen (rec_inspected r) = None \<Longrightarrow> run r = ret None"
    and keep_calls: "want (rec_desired r) = Some d \<Longrightarrow> seen (rec_inspected r) = Some i \<Longrightarrow>
      emits (\<lambda>c. c = CallUpdate (obj d)) (run r)"
begin

text \<open>A wanted child is created when missing, and at most updated otherwise; it is never deleted.\<close>

lemma wanted_calls:
  assumes "want (rec_desired r) = Some d"
  shows "emits (\<lambda>c. (seen (rec_inspected r) = None \<and> c = CallCreate (obj d))
    \<or> (seen (rec_inspected r) \<noteq> None \<and> c = CallUpdate (obj d))) (run r)"
proof (cases "seen (rec_inspected r)")
  case None
  then show ?thesis using create_missing [OF assms] by (simp add: create_def emits_intros)
next
  case (Some i)
  then show ?thesis using keep_calls [OF assms Some] by (simp add: emits_mono)
qed

lemma unwanted_calls:
  assumes "want (rec_desired r) = None"
  shows "emits (\<lambda>c. \<exists>i. seen (rec_inspected r) = Some i \<and> c = CallDelete (obj i)) (run r)"
proof (cases "seen (rec_inspected r)")
  case None
  then show ?thesis using idle [OF assms] by (simp add: emits_intros)
next
  case (Some i)
  then show ?thesis using delete_unwanted [OF assms Some] by (simp add: delete_def emits_intros)
qed

end

locale static_child = child_reconciler run want seen obj
  for run :: "'w cluster_reconciler \<Rightarrow> ('w sys, api_error option) prog"
    and want :: "desired_cluster_state \<Rightarrow> 'o option"
    and seen :: "inspected_cluster_state \<Rightarrow> 'o option"
    and obj :: "'o \<Rightarrow> api_object" +
  assumes keep: "want (rec_desired r) = Some d \<Longrightarrow> seen (rec_inspected r) = Some i \<Longrightarrow>
      run r = ret None"
begin

lemma only_creates:
  assumes "want (rec_desired r) = Some d"
  shows "emits (\<lambda>c. seen (rec_inspected r) = None \<and> c = CallCreate (obj d)) (run r)"
proof (cases "seen (rec_inspected r)")
  case None
  then show ?thesis using create_missing [OF assms] by (simp add: create_def emits_intros)
next
  case (Some i)
  then show ?thesis using keep [OF assms Some] by (simp add: emits_intros)
qed

lemma follows_plan:
  "follows (childPlan obj (\<lambda>_ _. False) (want (rec_desired r)) (seen (rec_inspected r)))
     (\<lambda>err. err \<noteq> None) (run r)"
  using create_missing [of r] delete_unwanted [of r] idle [of r] keep [of r]
  by (cases "want (rec_desired r)"; cases "seen (rec_inspected r)")
    (simp_all add: childPlan_def create_def delete_def follows_call follows_call_map follows_ret)

lemma never_panics: "want (rec_desired r) = Some d \<Longrightarrow> fst (run r s) \<noteq> Panicked"
  using create_missing [of r d] keep [of r d]
  by (cases "seen (rec_inspected r)") (simp_all add: create_def apiCall_def ret_def split: prod.split)

end

locale scaled_child = child_reconciler run want seen obj
  for run :: "'w cluster_reconciler \<Rightarrow> ('w sys, api_error option) prog"
    and want :: "desired_cluster_state \<Rightarrow> 'o option"
    and seen :: "inspected_cluster_state \<Rightarrow> 'o option"
    and obj :: "'o \<Rightarrow> api_object" +
  fixes replicas :: "'o \<Rightarrow> int32 option"
  assumes scale: "want (rec_desired r) = Some d \<Longrightarrow> seen (rec_inspected r) = Some i \<Longrightarrow>
      replicas d = Some n \<Longrightarrow> replicas i = Some m \<Longrightarrow>
      run r = (if n \<noteq> m then update (rec_k8sClient r) (obj d) else ret None)"
    and nil_replicas: "want (rec_desired r) = Some d \<Longrightarrow> seen (rec_inspected r) = Some i \<Longrightarrow>
      replicas d = None \<or> replicas i = None \<Longrightarrow> run r = panic"
begin

lemma follows_plan:
  assumes "\<And>d i. want (rec_desired r) = Some d \<Longrightarrow> seen (rec_inspected r) = Some i \<Longrightarrow>
    replicas d \<noteq> None \<and> replicas i \<noteq> None"
  shows "follows (childPlan obj (\<lambda>d i. replicas d \<noteq> replicas i) (want (rec_desired r))
     (seen (rec_inspected r))) (\<lambda>err. err \<noteq> None) (run r)"
proof (cases "want (rec_desired r)"; cases "seen (rec_inspected r)")
  fix d i
  assume w: "want (rec_desired r) = Some d" and s: "seen (rec_inspected r) = Some i"
  then obtain n m where "replicas d = Some n" "replicas i = Some m" using assms by blast
  then show ?thesis using scale [OF w s] w s
    by (simp add: childPlan_def update_def follows_call follows_ret)
qed (use create_missing [of r] delete_unwanted [of r] idle [of r] in
  \<open>simp_all add: childPlan_def create_def delete_def follows_call follows_call_map follows_ret\<close>)

text \<open>The replica counts differ exactly when an update is sent.\<close>

lemma wanted_scale_calls:
  assumes "want (rec_desired r) = Some d"
  shows "emits (\<lambda>c. (seen (rec_inspected r) = None \<and> c = CallCreate (obj d))
    \<or> (\<exists>i. seen (rec_inspected r) = Some i \<and> replicas d \<noteq> replicas i \<and> c = CallUpdate (obj d)))
    (run r)"
proof (cases "seen (rec_inspected r)")
  case None
  then show ?thesis using create_missing [OF assms] by (simp add: create_def emits_intros)
next
  case (Some i)
  show ?thesis
  proof (cases "replicas d = None \<or> replicas i = None")
    case True
    then show ?thesis using nil_replicas [OF assms Some] by (simp add: emits_intros)
  next
    case False
    then show ?thesis using scale [OF assms Some] Some
      by (auto simp: update_def intro: emits_intros)
  qed
qed

lemma panics_iff:
  assumes "want (rec_desired r) = Some d"
  shows "fst (run r s) = Panicked \<longleftrightarrow>
    (\<exists>i. seen (rec_inspected r) = Some i \<and> (replicas d = None \<or> replicas i = None))"
proof (cases "seen (rec_inspected r)")
  case None
  then show ?thesis using create_missing [OF assms]
    by (simp add: create_def apiCall_def split: prod.split)
next
  case (Some i)
  show ?thesis
  proof (cases "replicas d = None \<or> replicas i = None")
    case True
    then show ?thesis using nil_replicas [OF assms Some] Some by (simp add: panic_def)
  next
    case False
    then show ?thesis using scale [OF assms Some] Some
      by (auto simp: update_def apiCall_def ret_def split: prod.splits if_splits)
  qed
qed

end

interpretation presto_map: static_child reconcilePrestoConfigMap des_PrestoConfigMap
  ins_prestoConfigMap ConfigMapObj
  by unfold_locales (simp_all add: reconcilePrestoConfigMap_def createConfigMap_def
      deleteConfigMap_def emits_ret)

interpretation catalog_map: static_child reconcileCatalogConfigMap des_CatalogConfigMap
  ins_catalogConfigMap ConfigMapObj
  by unfold_locales (simp_all add: reconcileCatalogConfigMap_def createConfigMap_def
      deleteConfigMap_def emits_ret)

interpretation coordinator_service: static_child reconcileCoordinatorService
  des_CoordinatorService ins_coordinatorService ServiceObj
  by unfold_locales (simp_all add: reconcileCoordinatorService_def createService_def
      deleteService_def emits_ret)

text \<open>The replica count of a deployment.\<close>

abbreviation depReplicas :: "deployment \<Rightarrow> int32 option" where
  "depReplicas d \<equiv> ds_Replicas (dep_Spec d)"

lemma reconcileDeployment_keep_calls:
  "emits (\<lambda>c. c = CallUpdate (DeploymentObj d)) (reconcileDeployment r (Some d) (Some i))"
  unfolding reconcileDeployment_def updateDeployment_def update_def
  by (simp add: emits_intros)

lemma reconcileDeployment_nil:
  "depReplicas d = None \<or> depReplicas i = None \<Longrightarrow> reconcileDeployment r (Some d) (Some i) = panic"
  by (cases "depReplicas d") (auto simp: reconcileDeployment_def)

interpretation coordinator_deployment: scaled_child reconcileCoordinatorDeployment
  des_CoordinatorDeployment ins_coordinatorDeployment DeploymentObj depReplicas
  by unfold_locales (simp_all add: reconcileCoordinatorDeployment_def
      reconcileDeployment_keep_calls reconcileDeployment_nil,
      simp_all add: reconcileDeployment_def createDeployment_def deleteDeployment_def
      updateDeployment_def)

interpretation worker_deployment: scaled_child reconcileWorkerDeployment
  des_WorkerDeployment ins_workerDeployment DeploymentObj depReplicas
  by unfold_locales (simp_all add: reconcileWorkerDeployment_def
      reconcileDeployment_keep_calls reconcileDeployment_nil,
      simp_all add: reconcileDeployment_def createDeployment_def deleteDeployment_def
      updateDeployment_def)

subsection \<open>The plan of a reconciliation\<close>

definition reconcilePlan :: "desired_cluster_state \<Rightarrow> inspected_cluster_state
    \<Rightarrow> api_call list" where
  "reconcilePlan des ins =
     childPlan ConfigMapObj (\<lambda>_ _. False) (des_PrestoConfigMap des) (ins_prestoConfigMap ins)
     @ childPlan ConfigMapObj (\<lambda>_ _. False) (des_CatalogConfigMap des) (ins_catalogConfigMap ins)
     @ childPlan DeploymentObj (\<lambda>d i. depReplicas d \<noteq> depReplicas i)
         (des_CoordinatorDeployment des) (ins_coordinatorDeployment ins)
     @ childPlan ServiceObj (\<lambda>_ _. False) (des_CoordinatorService des) (ins_coordinatorService ins)
     @ childPlan DeploymentObj (\<lambda>d i. depReplicas d \<noteq> depReplicas i)
         (des_WorkerDeployment des) (ins_workerDeployment ins)"

text \<open>No deployment that has to be compared lacks its replica count.\<close>

definition scalable :: "desired_cluster_state \<Rightarrow> inspected_cluster_state \<Rightarrow> bool" where
  "scalable des ins \<longleftrightarrow>
     (\<forall>d i. des_CoordinatorDeployment des = Some d \<longrightarrow> ins_coordinatorDeployment ins = Some i \<longrightarrow>
        depReplicas d \<noteq> None \<and> depReplicas i \<noteq> None) \<and>
     (\<forall>d i. des_WorkerDeployment des = Some d \<longrightarrow> ins_workerDeployment ins = Some i \<longrightarrow>
        depReplicas d \<noteq> None \<and> depReplicas i \<noteq> None)"

lemma reconcile_deleted: "ins_cluster (rec_inspected r) = None \<Longrightarrow> reconcile r = ret (emptyResult, None)"
  by (simp add: reconcile_def)

text \<open>When every child is there and the coordinator has its replica, the worker deployment is left to
  do; when it has the wanted replicas too, nothing is called.\<close>

lemma reconcile_worker_only:
  assumes "ins_cluster (rec_inspected r) \<noteq> None"
    and "des_PrestoConfigMap (rec_desired r) \<noteq> None" "ins_prestoConfigMap (rec_inspected r) \<noteq> None"
    and "des_CatalogConfigMap (rec_desired r) \<noteq> None" "ins_catalogConfigMap (rec_inspected r) \<noteq> None"
    and "des_CoordinatorService (rec_desired r) \<noteq> None" "ins_coordinatorService (rec_inspected r) \<noteq> None"
    and "des_CoordinatorDeployment (rec_desired r) = Some cd" "ins_coordinatorDeployment (rec_inspected r) = Some ci"
    and "depReplicas cd = Some m" "depReplicas ci = Some m"
  shows "reconcile r = orReturn (reconcileWorkerDeployment r) (\<lambda>err. ret (emptyResult, Some err))
    (ret (emptyResult, None))"
proof -
  have "reconcilePrestoConfigMap r = ret None" "reconcileCatalogConfigMap r = ret None"
    "reconcileCoordinatorService r = ret None"
    using assms(2-7) presto_map.keep [of r] catalog_map.keep [of r] coordinator_service.keep [of r]
    by auto
  moreover have "reconcileCoordinatorDeployment r = ret None"
    using coordinator_deployment.scale [OF assms(8-11)] by simp
  ultimately show ?thesis using assms(1) by (auto simp: reconcile_def)
qed

lemma reconcile_idle:
  assumes "ins_cluster (rec_inspected r) \<noteq> None"
    and "des_PrestoConfigMap (rec_desired r) \<noteq> None" "ins_prestoConfigMap (rec_inspected r) \<noteq> None"
    and "des_CatalogConfigMap (rec_desired r) \<noteq> None" "ins_catalogConfigMap (rec_inspected r) \<noteq> None"
    and "des_CoordinatorService (rec_desired r) \<noteq> None" "ins_coordinatorService (rec_inspected r) \<noteq> None"
    and "des_CoordinatorDeployment (rec_desired r) = Some cd" "ins_coordinatorDeployment (rec_inspected r) = Some ci"
    and "depReplicas cd = Some m" "depReplicas ci = Some m"
    and "des_WorkerDeployment (rec_desired r) = Some wd" "ins_workerDeployment (rec_inspected r) = Some wi"
    and "depReplicas wd = Some n" "depReplicas wi = Some n"
  shows "reconcile r = ret (emptyResult, None)"
  using worker_deployment.scale [OF assms(12-15)] by (simp add: reconcile_worker_only [OF assms(1-11)])

abbreviation reconcileFailed :: "ctrl_result \<times> api_error option \<Rightarrow> bool" where
  "reconcileFailed x \<equiv> snd x \<noteq> None"

lemma reconcile_follows:
  assumes "ins_cluster (rec_inspected r) \<noteq> None"
    and "scalable (rec_desired r) (rec_inspected r)"
  shows "follows (reconcilePlan (rec_desired r) (rec_inspected r)) reconcileFailed (reconcile r)"
proof -
  have stop: "\<exists>y. ret (emptyResult, Some e) = ret y \<and> reconcileFailed y" for e
    by (intro exI [of _ "(emptyResult, Some e)"]) simp
  let ?des = "rec_desired r" and ?ins = "rec_inspected r"
  let ?scale = "\<lambda>d i. depReplicas d \<noteq> depReplicas i"
  have "follows (childPlan ConfigMapObj (\<lambda>_ _. False) (des_PrestoConfigMap ?des) (ins_prestoConfigMap ?ins)
     @ childPlan ConfigMapObj (\<lambda>_ _. False) (des_CatalogConfigMap ?des) (ins_catalogConfigMap ?ins)
     @ childPlan DeploymentObj ?scale (des_CoordinatorDeployment ?des) (ins_coordinatorDeployment ?ins)
     @ childPlan ServiceObj (\<lambda>_ _. False) (des_CoordinatorService ?des) (ins_coordinatorService ?ins)
     @ childPlan DeploymentObj ?scale (des_WorkerDeployment ?des) (ins_workerDeployment ?ins) @ [])
     reconcileFailed (reconcile r)"
    unfolding reconcile_def if_not_P [OF assms(1)]
    by (intro follows_orReturn stop presto_map.follows_plan catalog_map.follows_plan
        coordinator_deployment.follows_plan coordinator_service.follows_plan
        worker_deployment.follows_plan follows_ret)
      (use assms(2) in \<open>auto simp: scalable_def\<close>)
  then show ?thesis by (simp add: reconcilePlan_def)
qed

text \<open>Whatever the replica counts, the calls are among those a plan can hold.\<close>

lemma reconcile_emits:
  assumes "ins_cluster (rec_inspected r) \<noteq> None \<Longrightarrow>
      des_PrestoConfigMap (rec_desired r) = Some pm \<and> des_CatalogConfigMap (rec_desired r) = Some cm
      \<and> des_CoordinatorDeployment (rec_desired r) = Some cd
      \<and> des_CoordinatorService (rec_desired r) = Some cs \<and> des_WorkerDeployment (rec_desired r) = Some wd"
  shows "emits (\<lambda>c. ins_cluster (rec_inspected r) \<noteq> None \<and>
     (c \<in> CallCreate ` {ConfigMapObj pm, ConfigMapObj cm, DeploymentObj cd, ServiceObj cs,
        DeploymentObj wd}
      \<or> c \<in> CallUpdate ` {DeploymentObj cd, DeploymentObj wd})) (reconcile r)"
proof (cases "ins_cluster (rec_inspected r) = None")
  case True
  then show ?thesis by (simp add: reconcile_deleted emits_intros)
next
  case False
  then have want: "des_PrestoConfigMap (rec_desired r) = Some pm"
    "des_CatalogConfigMap (rec_desired r) = Some cm"
    "des_CoordinatorDeployment (rec_desired r) = Some cd"
    "des_CoordinatorService (rec_desired r) = Some cs"
    "des_WorkerDeployment (rec_desired r) = Some wd" using assms by auto
  show ?thesis
    unfolding reconcile_def if_not_P [OF False]
    by (intro emits_orReturn emits_ret
        emits_mono [OF presto_map.only_creates [OF want(1)]]
        emits_mono [OF catalog_map.only_creates [OF want(2)]]
        emits_mono [OF coordinator_deployment.wanted_calls [OF want(3)]]
        emits_mono [OF coordinator_service.only_creates [OF want(4)]]
        emits_mono [OF worker_deployment.wanted_calls [OF want(5)]])
      (use False in auto)
qed

end
