(* ===== verification/Status.thy ===== *)
theory Status
  imports Reconciler
begin

text \<open>
  \<open>src/controllers/status.go\<close>: copying the available replicas of the worker deployment into the
  status of the custom resource, with an event, and asking for another run while they differ from
  the wanted number of workers. A failed read of the deployment is not reported: the status is
  then derived from the empty deployment.
\<close>

record 'w cluster_status_updater =
  upd_k8sClient :: "'w client"
  upd_env :: runtime_env
  upd_inspected :: inspected_cluster_state

text \<open>\<open>new(appsv1.Deployment)\<close>.\<close>

definition zeroDeployment :: deployment where
  "zeroDeployment = \<lparr>dep_ObjectMeta = zeroObjectMeta,
     dep_Spec = \<lparr>ds_Replicas = None, ds_MatchLabels = None, ds_TemplateLabels = None,
       ds_PodSpec = \<lparr>ps_RunAsUser = None, ps_Containers = [], ps_Volumes = []\<rparr>\<rparr>,
     dep_AvailableReplicas = 0\<rparr>"

definition updateClusterStatus :: "'w cluster_status_updater \<Rightarrow> presto_cluster_status
    \<Rightarrow> ('w sys, api_error option) prog" where
  "updateClusterStatus updater status =
     bindP (deref (ins_cluster (upd_inspected updater))) (\<lambda>inspected.
       let cluster = PrestoCluster_DeepCopyInto (upd_env updater) inspected;
           cluster = cluster\<lparr>pc_Status := status\<rparr>
       in statusUpdate (upd_k8sClient updater) cluster)"

definition currentDeployment :: "'w cluster_status_updater \<Rightarrow> string \<Rightarrow> string
    \<Rightarrow> ('w sys, api_error + deployment) prog" where
  "currentDeployment updater namespace name =
     getDeployment (upd_k8sClient updater) \<lparr>nn_Namespace = namespace, nn_Name = name\<rparr>"

text \<open>The error of the read is dropped; the deployment then keeps its zero value.\<close>

definition deriveClusterStatus :: "'w cluster_status_updater \<Rightarrow> string \<Rightarrow> string
    \<Rightarrow> ('w sys, presto_cluster_status) prog" where
  "deriveClusterStatus updater name namespace =
     bindP (currentDeployment updater namespace (getWorkerDeploymentName name)) (\<lambda>r.
       let current = (case r of Inl _ \<Rightarrow> zeroDeployment | Inr d \<Rightarrow> d);
           availableReplicas = dep_AvailableReplicas current
       in ret \<lparr>status_AvailableWorkers = availableReplicas\<rparr>)"

definition workersMessage :: "string \<Rightarrow> int32 \<Rightarrow> int32 \<Rightarrow> string" where
  "workersMessage name old new =
     name @ '' workers counts changed: '' @ showInt32 old @ '' -> '' @ showInt32 new"

definition updatePrestoClusterStatus :: "'w cluster_status_updater \<Rightarrow> string \<Rightarrow> string
    \<Rightarrow> ('w sys, ctrl_result \<times> api_error option) prog" where
  "updatePrestoClusterStatus updater name namespace =
     bindP (deriveClusterStatus updater name namespace) (\<lambda>newStatus.
     bindP (deref (ins_cluster (upd_inspected updater))) (\<lambda>cluster.
     let oldStatus = pc_Status cluster in
     orReturn
       (if status_AvailableWorkers newStatus \<noteq> status_AvailableWorkers oldStatus then
          bindP (updateClusterStatus updater newStatus) (\<lambda>err. case err of
            Some e \<Rightarrow> ret (Some e)
          | None \<Rightarrow> bindP (event (upd_k8sClient updater) cluster ''Normal''
              ''workers counts update''
              (workersMessage name (status_AvailableWorkers oldStatus)
                 (status_AvailableWorkers newStatus))) (\<lambda>_. ret None))
        else ret None)
       (\<lambda>err. ret (emptyResult, Some err))
       (bindP (deref (spec_Workers (pc_Spec cluster))) (\<lambda>workers.
          if status_AvailableWorkers newStatus \<noteq> workers
          then ret (\<lparr>res_Requeue = True, res_RequeueAfter = 5 * second\<rparr>, None)
          else ret (emptyResult, None)))))"

subsection \<open>What the updater does\<close>

text \<open>The number of workers a read of the worker deployment stands for.\<close>

definition availableOf :: "api_error + deployment \<Rightarrow> int32" where
  "availableOf r = (case r of Inl _ \<Rightarrow> 0 | Inr d \<Rightarrow> dep_AvailableReplicas d)"

text \<open>Another run after five seconds, unless the cluster has the workers it wants.\<close>

definition requeueUnless :: "bool \<Rightarrow> ctrl_result" where
  "requeueUnless b = (if b then emptyResult else \<lparr>res_Requeue = True, res_RequeueAfter = 5 * second\<rparr>)"

lemma deriveClusterStatus_run:
  assumes "clGetDeployment (upd_k8sClient u) \<lparr>nn_Namespace = ns, nn_Name = getWorkerDeploymentName name\<rparr>
    (sysWorld s) = (r, w)"
  shows "deriveClusterStatus u name ns s = (Done \<lparr>status_AvailableWorkers = availableOf r\<rparr>,
    s\<lparr>sysWorld := w, sysCalls := sysCalls s @ [CallGet DeploymentKind
      \<lparr>nn_Namespace = ns, nn_Name = getWorkerDeploymentName name\<rparr>]\<rparr>)"
  using assms
  by (simp add: deriveClusterStatus_def currentDeployment_def getDeployment_def bindP_def apiCall_def
      availableOf_def zeroDeployment_def ret_def Let_def split: sum.split)

text \<open>The run, step by step: one read, at most one status write, an event if the write succeeds.\<close>

lemma updatePrestoClusterStatus_run:
  fixes u :: "'w cluster_status_updater" and s :: "'w sys"
  assumes env: "env_ok (upd_env u)" and c: "ins_cluster (upd_inspected u) = Some c"
    and wanted: "spec_Workers (pc_Spec c) = Some wanted"
    and get: "clGetDeployment (upd_k8sClient u) key (sysWorld s) = (r, w)"
    and key: "key = \<lparr>nn_Namespace = ns, nn_Name = getWorkerDeploymentName name\<rparr>"
  shows "updatePrestoClusterStatus u name ns s =
    (let cl = upd_k8sClient u; avail = availableOf r; old = status_AvailableWorkers (pc_Status c);
         calls = sysCalls s @ [CallGet DeploymentKind key];
         c' = c\<lparr>pc_Status := \<lparr>status_AvailableWorkers = avail\<rparr>\<rparr>
     in if avail = old
        then (Done (requeueUnless (avail = wanted), None), s\<lparr>sysWorld := w, sysCalls := calls\<rparr>)
        else case clStatusUpdate cl c' w of
          (Some e, w') \<Rightarrow> (Done (emptyResult, Some e),
             s\<lparr>sysWorld := w', sysCalls := calls @ [CallStatusUpdate c']\<rparr>)
        | (None, w') \<Rightarrow>
            let msg = workersMessage name old avail
            in (Done (requeueUnless (avail = wanted), None),
                s\<lparr>sysWorld := clEvent cl c ''Normal'' ''workers counts update'' msg w',
                  sysCalls := calls @ [CallStatusUpdate c',
                    CallEvent c ''Normal'' ''workers counts update'' msg]\<rparr>))"
proof -
  have derive: "deriveClusterStatus u name ns s = (Done \<lparr>status_AvailableWorkers = availableOf r\<rparr>,
    s\<lparr>sysWorld := w, sysCalls := sysCalls s @ [CallGet DeploymentKind key]\<rparr>)"
    unfolding key by (rule deriveClusterStatus_run [OF get [unfolded key]])
  show ?thesis
    using env c wanted derive
    by (auto simp: updatePrestoClusterStatus_def updateClusterStatus_def Let_def orReturn_def bindP_def ret_def statusUpdate_def event_def apiCall_def
        requeueUnless_def split: prod.splits option.splits)
qed

text \<open>The calls of the updater, and its result on an error.\<close>

lemma updatePrestoClusterStatus_emits:
  assumes "env_ok (upd_env u)" and "ins_cluster (upd_inspected u) = Some c"
  shows "emits (\<lambda>call. call = CallGet DeploymentKind
        \<lparr>nn_Namespace = ns, nn_Name = getWorkerDeploymentName name\<rparr>
      \<or> (\<exists>status. call = CallStatusUpdate (c\<lparr>pc_Status := status\<rparr>))
      \<or> (\<exists>msg. call = CallEvent c ''Normal'' ''workers counts update'' msg))
    (updatePrestoClusterStatus u name ns)"
  unfolding updatePrestoClusterStatus_def deriveClusterStatus_def currentDeployment_def
    getDeployment_def updateClusterStatus_def statusUpdate_def event_def Let_def assms(2)
    deref_Some bindP_ret
  using assms(1)
  by (auto intro!: emits_intros split: option.split)

lemma updatePrestoClusterStatus_error_result:
  "yields (\<lambda>(result, err). err \<noteq> None \<longrightarrow> result = emptyResult)
     (updatePrestoClusterStatus u name ns)"
  unfolding updatePrestoClusterStatus_def orReturn_def Let_def
  by (intro yields_bindP [OF yields_any])
    (auto intro!: yields_bindP [OF yields_any] yields_ret split: option.split)

end
