(* ===== verification/Controller.thy ===== *)
theory Controller
  imports Status
begin

text \<open>
  \<open>src/controllers/controller.go\<close>: one reconcile request from the inspection to the status update.
  Each request starts from an empty inspected state. The result and the error of the reconciler
  are logged and then overwritten by those of the status update.
\<close>

text \<open>The controller of one request. The recorder is the event function of the client; the context and the
  logger are left out.\<close>

record 'w presto_cluster_controller =
  ctl_k8sClient :: "'w client"
  ctl_request :: namespaced_name
  ctl_inspected :: inspected_cluster_state
  ctl_desired :: desired_cluster_state

definition controller_reconcile :: "runtime_env \<Rightarrow> 'w presto_cluster_controller \<Rightarrow> namespaced_name
    \<Rightarrow> ('w sys, ctrl_result \<times> api_error option) prog" where
  "controller_reconcile env controller request =
     bindP (inspect env (ctl_k8sClient controller) request (ctl_inspected controller)) (\<lambda>(err, inspected).
     let controller = controller\<lparr>ctl_inspected := inspected\<rparr> in case err of
       Some e \<Rightarrow> ret (emptyResult, Some e)
     | None \<Rightarrow>
       let controller = controller\<lparr>ctl_desired := getDesiredClusterState env (ins_cluster inspected)\<rparr>;
           reconciler = \<lparr>rec_k8sClient = ctl_k8sClient controller, rec_env = env,
             rec_inspected = ctl_inspected controller, rec_desired = ctl_desired controller\<rparr>
       in bindP (reconcile reconciler) (\<lambda>(result, err).
          let statusUpdater = \<lparr>upd_k8sClient = ctl_k8sClient controller, upd_env = env,
                upd_inspected = ctl_inspected controller\<rparr>
          in if ins_cluster (upd_inspected statusUpdater) = None then ret (emptyResult, None)
             else bindP (updatePrestoClusterStatus statusUpdater (nn_Name request)
                    (nn_Namespace request)) (\<lambda>(result, err).
                  if err \<noteq> None then ret (emptyResult, err) else ret (result, err))))"

definition Reconcile :: "runtime_env \<Rightarrow> 'w client \<Rightarrow> namespaced_name
    \<Rightarrow> ('w sys, ctrl_result \<times> api_error option) prog" where
  "Reconcile env client req =
     (let controller = \<lparr>ctl_k8sClient = client, ctl_request = req, ctl_inspected = emptyInspected,
        ctl_desired = getDesiredClusterState env None\<rparr>
      in controller_reconcile env controller req)"

text \<open>A run, with the fields of the controller filled in.\<close>

lemma Reconcile_unfold:
  "Reconcile env cl req = bindP (inspect env cl req emptyInspected) (\<lambda>(err, inspected). case err of
       Some e \<Rightarrow> ret (emptyResult, Some e)
     | None \<Rightarrow> bindP (reconcile \<lparr>rec_k8sClient = cl, rec_env = env, rec_inspected = inspected,
          rec_desired = getDesiredClusterState env (ins_cluster inspected)\<rparr>) (\<lambda>(result, err).
        if ins_cluster inspected = None then ret (emptyResult, None)
        else bindP (updatePrestoClusterStatus \<lparr>upd_k8sClient = cl, upd_env = env, upd_inspected = inspected\<rparr>
               (nn_Name req) (nn_Namespace req)) (\<lambda>(result, err).
             if err \<noteq> None then ret (emptyResult, err) else ret (result, err))))"
  by (simp add: Reconcile_def controller_reconcile_def Let_def cong: option.case_cong if_cong)

subsection \<open>The requests a run may issue\<close>

text \<open>The five children of the requested cluster, by kind and key.\<close>

definition childKeys :: "namespaced_name \<Rightarrow> (api_kind \<times> namespaced_name) list" where
  "childKeys req = (let ns = nn_Namespace req; n = nn_Name req in
     [(ConfigMapKind, \<lparr>nn_Namespace = ns, nn_Name = getPrestoConfigMapName n\<rparr>),
      (ConfigMapKind, \<lparr>nn_Namespace = ns, nn_Name = getCatalogConfigMapName n\<rparr>),
      (DeploymentKind, \<lparr>nn_Namespace = ns, nn_Name = getCoordinatorDeploymentName n\<rparr>),
      (ServiceKind, \<lparr>nn_Namespace = ns, nn_Name = getCoordinatorServiceName n\<rparr>),
      (DeploymentKind, \<lparr>nn_Namespace = ns, nn_Name = getWorkerDeploymentName n\<rparr>)])"

text \<open>The object a call writes.\<close>

fun writeTarget :: "api_call \<Rightarrow> (api_kind \<times> namespaced_name) option" where
  "writeTarget (CallGet _ _) = None"
| "writeTarget (CallCreate o') = Some (objKind o', keyOf (objMeta o'))"
| "writeTarget (CallUpdate o') = Some (objKind o', keyOf (objMeta o'))"
| "writeTarget (CallDelete o') = Some (objKind o', keyOf (objMeta o'))"
| "writeTarget (CallStatusUpdate c) = Some (PrestoClusterKind, keyOf (pc_ObjectMeta c))"
| "writeTarget (CallEvent c _ _ _) = None"

text \<open>
  The abstract contract of a run for one request: it reads the cluster and its children, creates
  children, updates deployments among them, writes the status of the cluster, records events on
  it, and deletes nothing.
\<close>

fun allowedCall :: "namespaced_name \<Rightarrow> api_call \<Rightarrow> bool" where
  "allowedCall req (CallGet k key) = ((k, key) \<in> set ((PrestoClusterKind, req) # childKeys req))"
| "allowedCall req (CallCreate o') = ((objKind o', keyOf (objMeta o')) \<in> set (childKeys req))"
| "allowedCall req (CallUpdate o') =
     (objKind o' = DeploymentKind \<and> (objKind o', keyOf (objMeta o')) \<in> set (childKeys req))"
| "allowedCall req (CallDelete o') = False"
| "allowedCall req (CallStatusUpdate c) = (keyOf (pc_ObjectMeta c) = req)"
| "allowedCall req (CallEvent c _ _ _) = (keyOf (pc_ObjectMeta c) = req)"

lemma allowedCall_target:
  "allowedCall req c \<Longrightarrow> writeTarget c = Some t \<Longrightarrow> t \<in> set ((PrestoClusterKind, req) # childKeys req)"
  by (cases c) auto

text \<open>An object belongs to one cluster at most.\<close>

lemma childKeys_owner:
  assumes "t \<in> set ((PrestoClusterKind, req1) # childKeys req1)"
    and "t \<in> set ((PrestoClusterKind, req2) # childKeys req2)"
  shows "req1 = req2"
proof -
  have "nn_Namespace req1 = nn_Namespace req2 \<and> nn_Name req1 = nn_Name req2"
    using assms by (cases t) (auto simp: childKeys_def Let_def)
  then show ?thesis by (cases req1; cases req2) simp
qed

text \<open>The keys of the desired objects are the children's keys.\<close>

lemma desired_keys:
  assumes "env_ok env"
  shows "keyOf (cm_ObjectMeta (getDesiredPrestoConfigMap env c)) = \<lparr>nn_Namespace =
      om_Namespace (pc_ObjectMeta c), nn_Name = getPrestoConfigMapName (om_Name (pc_ObjectMeta c))\<rparr>"
    and "keyOf (cm_ObjectMeta (getDesiredCatalogConfigMap env c)) = \<lparr>nn_Namespace =
      om_Namespace (pc_ObjectMeta c), nn_Name = getCatalogConfigMapName (om_Name (pc_ObjectMeta c))\<rparr>"
    and "keyOf (dep_ObjectMeta (getDesiredCoordinatorDeployment env c)) = \<lparr>nn_Namespace =
      om_Namespace (pc_ObjectMeta c), nn_Name = getCoordinatorDeploymentName (om_Name (pc_ObjectMeta c))\<rparr>"
    and "keyOf (svc_ObjectMeta (getDesiredCoordinatorService env c)) = \<lparr>nn_Namespace =
      om_Namespace (pc_ObjectMeta c), nn_Name = getCoordinatorServiceName (om_Name (pc_ObjectMeta c))\<rparr>"
    and "keyOf (dep_ObjectMeta (getDesiredWorkerDeployment env c)) = \<lparr>nn_Namespace =
      om_Namespace (pc_ObjectMeta c), nn_Name = getWorkerDeploymentName (om_Name (pc_ObjectMeta c))\<rparr>"
  using assms
  by (simp_all add: configmap_metas getDesiredPrestoConfigMap_def getDesiredCatalogConfigMap_def
      newConfigmap_def getDesiredCoordinatorDeployment_def getDesiredCoordinatorService_def
      getDesiredWorkerDeployment_def childMeta_def getCoordinatorDeploymentName_def
      getCoordinatorServiceName_def getWorkerDeploymentName_def Let_def)

lemma desired_Some:
  "des_PrestoConfigMap (getDesiredClusterState env (Some c)) = Some (getDesiredPrestoConfigMap env c)"
  "des_CatalogConfigMap (getDesiredClusterState env (Some c)) = Some (getDesiredCatalogConfigMap env c)"
  "des_CoordinatorDeployment (getDesiredClusterState env (Some c))
     = Some (getDesiredCoordinatorDeployment env c)"
  "des_CoordinatorService (getDesiredClusterState env (Some c))
     = Some (getDesiredCoordinatorService env c)"
  "des_WorkerDeployment (getDesiredClusterState env (Some c))
     = Some (getDesiredWorkerDeployment env c)"
  by (simp_all add: getDesiredClusterState_def)

text \<open>The reconciler of a request, on what its inspection found.\<close>

abbreviation requestReconciler :: "runtime_env \<Rightarrow> 'w client \<Rightarrow> inspected_cluster_state
    \<Rightarrow> 'w cluster_reconciler" where
  "requestReconciler env cl ins \<equiv> \<lparr>rec_k8sClient = cl, rec_env = env, rec_inspected = ins,
     rec_desired = getDesiredClusterState env (ins_cluster ins)\<rparr>"

abbreviation requestUpdater :: "runtime_env \<Rightarrow> 'w client \<Rightarrow> inspected_cluster_state
    \<Rightarrow> 'w cluster_status_updater" where
  "requestUpdater env cl ins \<equiv> \<lparr>upd_k8sClient = cl, upd_env = env, upd_inspected = ins\<rparr>"

text \<open>
  The calls of a run, object by object: what is created is a desired object of the cluster that was
  requested, what is updated one of its two desired deployments.
\<close>

definition desiredObjects :: "runtime_env \<Rightarrow> presto_cluster \<Rightarrow> api_object list" where
  "desiredObjects env c =
     [ConfigMapObj (getDesiredPrestoConfigMap env c), ConfigMapObj (getDesiredCatalogConfigMap env c),
      DeploymentObj (getDesiredCoordinatorDeployment env c),
      ServiceObj (getDesiredCoordinatorService env c),
      DeploymentObj (getDesiredWorkerDeployment env c)]"

fun runCall :: "runtime_env \<Rightarrow> namespaced_name \<Rightarrow> api_call \<Rightarrow> bool" where
  "runCall env req (CallCreate o') \<longleftrightarrow>
     (\<exists>c. keyOf (pc_ObjectMeta c) = req \<and> o' \<in> set (desiredObjects env c))"
| "runCall env req (CallUpdate o') \<longleftrightarrow> objKind o' = DeploymentKind \<and>
     (\<exists>c. keyOf (pc_ObjectMeta c) = req \<and> o' \<in> set (desiredObjects env c))"
| "runCall env req c \<longleftrightarrow> allowedCall req c"

lemma desiredObjects_children:
  assumes "env_ok env"
  shows "map (\<lambda>o'. (objKind o', keyOf (objMeta o'))) (desiredObjects env c)
    = childKeys (keyOf (pc_ObjectMeta c))"
  by (simp add: desiredObjects_def childKeys_def Let_def desired_keys [OF assms])

lemma desiredObject_child:
  "env_ok env \<Longrightarrow> o' \<in> set (desiredObjects env c) \<Longrightarrow>
     (objKind o', keyOf (objMeta o')) \<in> set (childKeys (keyOf (pc_ObjectMeta c)))"
  by (metis (no_types, lifting) desiredObjects_children image_eqI list.set_map)

lemma runCall_allowed:
  assumes "env_ok env" and "runCall env req c"
  shows "allowedCall req c"
  using assms by (cases c) (auto dest: desiredObject_child)

lemma reconcile_runCall:
  assumes "clusterKeyed req ins"
  shows "emits (runCall env req) (reconcile (requestReconciler env cl ins))"
proof (cases "ins_cluster ins")
  case None
  then show ?thesis by (simp add: reconcile_deleted emits_intros)
next
  case (Some c)
  then have "keyOf (pc_ObjectMeta c) = req" using assms by (simp add: clusterKeyed_def)
  then show ?thesis
    by (intro emits_mono [OF reconcile_emits])
      (use Some in \<open>auto simp: desired_Some desiredObjects_def\<close>)
qed

lemma status_runCall:
  assumes "env_ok env" and "clusterKeyed req ins" and "ins_cluster ins \<noteq> None"
  shows "emits (runCall env req)
    (updatePrestoClusterStatus (requestUpdater env cl ins) (nn_Name req) (nn_Namespace req))"
proof -
  obtain c where c: "ins_cluster ins = Some c" using assms(3) by blast
  then have "keyOf (pc_ObjectMeta c) = req" using assms(2) by (simp add: clusterKeyed_def)
  then show ?thesis
    by (intro emits_mono [OF updatePrestoClusterStatus_emits [where c = c]])
      (use c assms(1) in \<open>auto simp: childKeys_def Let_def\<close>)
qed

lemma inspectCalls_runCall: "c \<in> set (inspectCalls req) \<Longrightarrow> runCall env req c"
  by (auto simp: inspectCalls_def childKeys_def Let_def)

lemma Reconcile_emits_runCall:
  assumes "env_ok env" and "getKeyed cl"
  shows "emits (runCall env req) (Reconcile env cl req)"
  unfolding Reconcile_unfold
proof (rule emits_bindP_yields [OF emits_mono [OF inspect_emits [OF assms(1)] inspectCalls_runCall]
      inspect_keyed [OF assms emptyInspected_keyed]], assumption)
  fix x :: "api_error option \<times> inspected_cluster_state"
  assume "case x of (err, ins) \<Rightarrow> clusterKeyed req ins \<and> hardError err"
  then obtain err ins where x: "x = (err, ins)" "clusterKeyed req ins" by (cases x) auto
  note calls = reconcile_runCall [OF x(2)] status_runCall [OF assms(1) x(2)]
  show "emits (runCall env req) (case x of (err, inspected) \<Rightarrow> case err of
       Some e \<Rightarrow> ret (emptyResult, Some e)
     | None \<Rightarrow> bindP (reconcile (requestReconciler env cl inspected)) (\<lambda>(result, err).
        if ins_cluster inspected = None then ret (emptyResult, None)
        else bindP (updatePrestoClusterStatus (requestUpdater env cl inspected) (nn_Name req)
               (nn_Namespace req)) (\<lambda>(result, err).
             if err \<noteq> None then ret (emptyResult, err) else ret (result, err))))"
    unfolding x(1) using calls(1)
    by (auto intro!: emits_intros calls split: option.split)
qed

lemma Reconcile_emits_allowed:
  assumes "env_ok env" and "getKeyed cl"
  shows "emits (allowedCall req) (Reconcile env cl req)"
  by (rule emits_mono [OF Reconcile_emits_runCall [OF assms] runCall_allowed [OF assms(1)]])

subsection \<open>A run after its inspection\<close>

lemma bindP_passes:
  assumes "yields (\<lambda>(result, err). err \<noteq> None \<longrightarrow> result = emptyResult) m"
  shows "bindP m (\<lambda>(result, err). if err \<noteq> None then ret (emptyResult, err) else ret (result, err)) = m"
proof
  fix s
  obtain r s1 where m: "m s = (r, s1)" by fastforce
  show "bindP m (\<lambda>(result, err). if err \<noteq> None then ret (emptyResult, err) else ret (result, err)) s = m s"
  proof (cases r)
    case (Done x)
    then show ?thesis using m yieldsD [OF assms, of s x s1]
      by (cases x) (auto simp: bindP_def ret_def)
  next
    case Panicked
    then show ?thesis using m by (simp add: bindP_def)
  qed
qed

lemma Reconcile_run:
  assumes "inspect env cl req emptyInspected s = (Done (err, ins), s1)"
  shows "Reconcile env cl req s = (case err of
      Some e \<Rightarrow> (Done (emptyResult, Some e), s1)
    | None \<Rightarrow> (case reconcile (requestReconciler env cl ins) s1 of
        (Panicked, s2) \<Rightarrow> (Panicked, s2)
      | (Done _, s2) \<Rightarrow> if ins_cluster ins = None then (Done (emptyResult, None), s2)
          else updatePrestoClusterStatus (requestUpdater env cl ins) (nn_Name req) (nn_Namespace req) s2))"
  using assms
  unfolding Reconcile_unfold
    bindP_passes [OF updatePrestoClusterStatus_error_result]
  by (auto simp: bindP_def [of "inspect env cl req emptyInspected"] bindP_def [of "reconcile _"]
      ret_def split: option.split prod.split outcome.split)

end
