(* ===== verification/Server.thy ===== *)
theory Server
  imports Controller
begin

text \<open>
  The interface between the operator and an API server that answers: the locale \<open>api_server\<close>. Its
  laws are the documented behaviour of the Kubernetes API for the calls the operator makes, in
  worlds where no request fails (\<open>calm\<close>), over an abstraction of the world to the objects stored in
  it (\<open>cluster_view\<close>). A server may change what it stores in any way the laws do not exclude (fill
  defaults, set versions). The client's lemmas, convergence and idempotence of a reconcile
  request, are proved once inside the locale.
\<close>

record cluster_view =
  vwClusters :: "namespaced_name \<rightharpoonup> presto_cluster"
  vwConfigMaps :: "namespaced_name \<rightharpoonup> config_map"
  vwDeployments :: "namespaced_name \<rightharpoonup> deployment"
  vwServices :: "namespaced_name \<rightharpoonup> service"

text \<open>\<open>answers\<close>: the reply to a read of a store that holds \<open>o'\<close> under the key.\<close>

definition answers :: "'o option \<Rightarrow> api_error + 'o \<Rightarrow> bool" where
  "answers stored r \<longleftrightarrow> (case stored of Some x \<Rightarrow> r = Inr x | None \<Rightarrow> (\<exists>m. r = Inl (NotFound m)))"

text \<open>A deployment whose \<open>Replicas\<close> is nil is stored with one replica.\<close>

definition defaultReplicas :: "int32 option \<Rightarrow> int32" where
  "defaultReplicas n = (case n of None \<Rightarrow> 1 | Some n \<Rightarrow> n)"

text \<open>What an inspection finds in a store.\<close>

definition inspectedView :: "cluster_view \<Rightarrow> namespaced_name \<Rightarrow> inspected_cluster_state" where
  "inspectedView v req = (let ns = nn_Namespace req; n = nn_Name req in
     \<lparr>ins_cluster = vwClusters v req,
      ins_prestoConfigMap = vwConfigMaps v \<lparr>nn_Namespace = ns, nn_Name = getPrestoConfigMapName n\<rparr>,
      ins_catalogConfigMap = vwConfigMaps v \<lparr>nn_Namespace = ns, nn_Name = getCatalogConfigMapName n\<rparr>,
      ins_coordinatorDeployment =
        vwDeployments v \<lparr>nn_Namespace = ns, nn_Name = getCoordinatorDeploymentName n\<rparr>,
      ins_coordinatorService =
        vwServices v \<lparr>nn_Namespace = ns, nn_Name = getCoordinatorServiceName n\<rparr>,
      ins_workerDeployment =
        vwDeployments v \<lparr>nn_Namespace = ns, nn_Name = getWorkerDeploymentName n\<rparr>\<rparr>)"

abbreviation childKey :: "namespaced_name \<Rightarrow> (string \<Rightarrow> string) \<Rightarrow> namespaced_name" where
  "childKey req name \<equiv> \<lparr>nn_Namespace = nn_Namespace req, nn_Name = name (nn_Name req)\<rparr>"

text \<open>An object that was there is kept, an absent one is stored as \<open>good\<close> says.\<close>

definition keptOr :: "'o option \<Rightarrow> ('o \<Rightarrow> bool) \<Rightarrow> 'o \<Rightarrow> bool" where
  "keptOr old good x \<longleftrightarrow> (case old of None \<Rightarrow> good x | Some y \<Rightarrow> x = y)"

definition keepsPods :: "deployment option \<Rightarrow> deployment \<Rightarrow> bool" where
  "keepsPods old x \<longleftrightarrow>
     (case old of None \<Rightarrow> True | Some i \<Rightarrow> dep_AvailableReplicas x = dep_AvailableReplicas i)"

text \<open>
  The abstract contract of a reconciliation, as a relation between the stores before and after it:
  an absent child is stored with the desired data, an existing config map or service stays as it
  is, the deployments have the wanted replica counts and keep the pods they have, and nothing else
  changes (the clusters apart, which this relation leaves open).
\<close>

definition converges :: "runtime_env \<Rightarrow> presto_cluster \<Rightarrow> int32 \<Rightarrow> cluster_view \<Rightarrow> cluster_view
    \<Rightarrow> bool" where
  "converges env c n v v' \<longleftrightarrow> (let req = keyOf (pc_ObjectMeta c);
      pk = childKey req getPrestoConfigMapName; ck = childKey req getCatalogConfigMapName;
      dk = childKey req getCoordinatorDeploymentName; wk = childKey req getWorkerDeploymentName;
      sk = childKey req getCoordinatorServiceName in
     \<exists>pm cm cd svc wd.
       vwConfigMaps v' = (vwConfigMaps v)(pk \<mapsto> pm, ck \<mapsto> cm) \<and>
       vwServices v' = (vwServices v)(sk \<mapsto> svc) \<and>
       vwDeployments v' = (vwDeployments v)(dk \<mapsto> cd, wk \<mapsto> wd) \<and>
       keptOr (vwConfigMaps v pk) (\<lambda>x. cm_Data x = cm_Data (getDesiredPrestoConfigMap env c)) pm \<and>
       keptOr (vwConfigMaps v ck) (\<lambda>x. cm_Data x = cm_Data (getDesiredCatalogConfigMap env c)) cm \<and>
       keptOr (vwServices v sk)
         (\<lambda>x. svc_Selector x = svc_Selector (getDesiredCoordinatorService env c)) svc \<and>
       depReplicas cd = Some 1 \<and> depReplicas wd = Some n \<and>
       keepsPods (vwDeployments v dk) cd \<and> keepsPods (vwDeployments v wk) wd)"

lemma keptOrI: "old \<in> {None, Some x} \<Longrightarrow> (old = None \<Longrightarrow> good x) \<Longrightarrow> keptOr old good x"
  by (auto simp: keptOr_def)

lemma keepsPodsI:
  "(\<And>i. old = Some i \<Longrightarrow> dep_AvailableReplicas x = dep_AvailableReplicas i) \<Longrightarrow> keepsPods old x"
  by (simp add: keepsPods_def split: option.split)

lemma convergesI:
  assumes "req = keyOf (pc_ObjectMeta c)"
    and "vwConfigMaps v' = (vwConfigMaps v)(childKey req getPrestoConfigMapName \<mapsto> pm,
      childKey req getCatalogConfigMapName \<mapsto> cm)"
    and "vwServices v' = (vwServices v)(childKey req getCoordinatorServiceName \<mapsto> svc)"
    and "vwDeployments v' = (vwDeployments v)(childKey req getCoordinatorDeploymentName \<mapsto> cd,
      childKey req getWorkerDeploymentName \<mapsto> wd)"
    and "vwConfigMaps v (childKey req getPrestoConfigMapName) \<in> {None, Some pm}"
    and "vwConfigMaps v (childKey req getPrestoConfigMapName) = None \<Longrightarrow>
      cm_Data pm = cm_Data (getDesiredPrestoConfigMap env c)"
    and "vwConfigMaps v (childKey req getCatalogConfigMapName) \<in> {None, Some cm}"
    and "vwConfigMaps v (childKey req getCatalogConfigMapName) = None \<Longrightarrow>
      cm_Data cm = cm_Data (getDesiredCatalogConfigMap env c)"
    and "vwServices v (childKey req getCoordinatorServiceName) \<in> {None, Some svc}"
    and "vwServices v (childKey req getCoordinatorServiceName) = None \<Longrightarrow>
      svc_Selector svc = svc_Selector (getDesiredCoordinatorService env c)"
    and "depReplicas cd = Some 1" and "depReplicas wd = Some n"
    and "\<And>i. vwDeployments v (childKey req getCoordinatorDeploymentName) = Some i \<Longrightarrow>
      dep_AvailableReplicas cd = dep_AvailableReplicas i"
    and "\<And>i. vwDeployments v (childKey req getWorkerDeploymentName) = Some i \<Longrightarrow>
      dep_AvailableReplicas wd = dep_AvailableReplicas i"
  shows "converges env c n v v'"
  unfolding converges_def Let_def assms(1) [symmetric]
  using assms(2-4,11,12)
  by (intro exI [of _ pm] exI [of _ cm] exI [of _ cd] exI [of _ svc] exI [of _ wd] conjI
      keptOrI keepsPodsI assms(5-)) auto

lemma desired_replicas:
  "depReplicas (getDesiredCoordinatorDeployment env c) = Some 1"
  "depReplicas (getDesiredWorkerDeployment env c) = spec_Workers (pc_Spec c)"
  by (simp_all add: getDesiredCoordinatorDeployment_def getDesiredWorkerDeployment_def Let_def)

text \<open>The keys of the children of one cluster, told apart.\<close>

lemma childKeys_distinct [simp]:
  "childKey req getPrestoConfigMapName \<noteq> childKey req getCatalogConfigMapName"
  "childKey req getCatalogConfigMapName \<noteq> childKey req getPrestoConfigMapName"
  "childKey req getCoordinatorDeploymentName \<noteq> childKey req getWorkerDeploymentName"
  "childKey req getWorkerDeploymentName \<noteq> childKey req getCoordinatorDeploymentName"
  by (simp_all add: child_names_simps)

lemma converges_clusters [simp]:
  "converges env c n v (v'\<lparr>vwClusters := m\<rparr>) = converges env c n v v'"
  by (simp add: converges_def)

text \<open>A store in which a run for the request has nothing left to write.\<close>

definition settled :: "namespaced_name \<Rightarrow> int32 \<Rightarrow> deployment \<Rightarrow> cluster_view \<Rightarrow> bool" where
  "settled req n wd v \<longleftrightarrow>
     (\<exists>c. vwClusters v req = Some c \<and> spec_Workers (pc_Spec c) = Some n
        \<and> status_AvailableWorkers (pc_Status c) = dep_AvailableReplicas wd) \<and>
     vwConfigMaps v (childKey req getPrestoConfigMapName) \<noteq> None \<and>
     vwConfigMaps v (childKey req getCatalogConfigMapName) \<noteq> None \<and>
     vwServices v (childKey req getCoordinatorServiceName) \<noteq> None \<and>
     (\<exists>cd. vwDeployments v (childKey req getCoordinatorDeploymentName) = Some cd
        \<and> depReplicas cd = Some 1) \<and>
     vwDeployments v (childKey req getWorkerDeploymentName) = Some wd \<and> depReplicas wd = Some n"

lemma converges_settled:
  assumes "converges env c n v v'" and "req = keyOf (pc_ObjectMeta c)"
    and "spec_Workers (pc_Spec c) = Some n"
  obtains wd where "vwDeployments v' (childKey req getWorkerDeploymentName) = Some wd"
    and "settled req n wd (v'\<lparr>vwClusters := m(req \<mapsto> c\<lparr>pc_Status :=
      \<lparr>status_AvailableWorkers = dep_AvailableReplicas wd\<rparr>\<rparr>)\<rparr>)"
  using assms unfolding converges_def Let_def assms(2) [symmetric] settled_def
  by (elim exE conjE) simp

text \<open>What is settled for one request is out of reach of the runs for another.\<close>

lemma settled_undisturbed:
  assumes settled: "settled req n wd v" and conv: "converges env c m v v'"
    and other: "keyOf (pc_ObjectMeta c) \<noteq> req"
    and clusters: "vwClusters v' = (vwClusters v)(keyOf (pc_ObjectMeta c) \<mapsto> x)"
  shows "settled req n wd v'"
proof -
  let ?req2 = "keyOf (pc_ObjectMeta c)"
  have apart: "childKey req f \<noteq> childKey ?req2 g"
    if "f = g \<and> f \<in> {getPrestoConfigMapName, getCatalogConfigMapName, getCoordinatorDeploymentName,
        getCoordinatorServiceName, getWorkerDeploymentName} \<or>
      (f, g) \<in> {(getPrestoConfigMapName, getCatalogConfigMapName),
        (getCatalogConfigMapName, getPrestoConfigMapName),
        (getCoordinatorDeploymentName, getWorkerDeploymentName),
        (getWorkerDeploymentName, getCoordinatorDeploymentName)}" for f g
    using that other by (cases req) auto
  have "vwConfigMaps v' (childKey req f) = vwConfigMaps v (childKey req f)"
    if "f \<in> {getPrestoConfigMapName, getCatalogConfigMapName}" for f
    using conv that apart [of f getPrestoConfigMapName] apart [of f getCatalogConfigMapName]
    unfolding converges_def Let_def by (elim exE conjE) auto
  moreover have "vwDeployments v' (childKey req f) = vwDeployments v (childKey req f)"
    if "f \<in> {getCoordinatorDeploymentName, getWorkerDeploymentName}" for f
    using conv that apart [of f getCoordinatorDeploymentName] apart [of f getWorkerDeploymentName]
    unfolding converges_def Let_def by (elim exE conjE) auto
  moreover have "vwServices v' (childKey req getCoordinatorServiceName)
      = vwServices v (childKey req getCoordinatorServiceName)"
    using conv apart [of getCoordinatorServiceName getCoordinatorServiceName]
    unfolding converges_def Let_def by (elim exE conjE) auto
  moreover have "vwClusters v' req = vwClusters v req" using clusters other by simp
  ultimately show ?thesis using settled by (simp add: settled_def)
qed

locale api_server =
  fixes cl :: "'w client" and calm :: "'w \<Rightarrow> bool" and view :: "'w \<Rightarrow> cluster_view"
  assumes get_cluster: "calm w \<Longrightarrow> \<exists>r w'. clGetCluster cl key w = (r, w') \<and> calm w' \<and>
      view w' = view w \<and> answers (vwClusters (view w) key) r"
    and get_configMap: "calm w \<Longrightarrow> \<exists>r w'. clGetConfigMap cl key w = (r, w') \<and> calm w' \<and>
      view w' = view w \<and> answers (vwConfigMaps (view w) key) r"
    and get_deployment: "calm w \<Longrightarrow> \<exists>r w'. clGetDeployment cl key w = (r, w') \<and> calm w' \<and>
      view w' = view w \<and> answers (vwDeployments (view w) key) r"
    and get_service: "calm w \<Longrightarrow> \<exists>r w'. clGetService cl key w = (r, w') \<and> calm w' \<and>
      view w' = view w \<and> answers (vwServices (view w) key) r"
    and create_configMap: "calm w \<Longrightarrow> vwConfigMaps (view w) (keyOf (cm_ObjectMeta cm)) = None \<Longrightarrow>
      \<exists>w' cm'. clCreate cl (ConfigMapObj cm) w = (None, w') \<and> calm w' \<and> cm_Data cm' = cm_Data cm \<and>
        view w' = (view w)\<lparr>vwConfigMaps := (vwConfigMaps (view w))(keyOf (cm_ObjectMeta cm) \<mapsto> cm')\<rparr>"
    and create_deployment: "calm w \<Longrightarrow> vwDeployments (view w) (keyOf (dep_ObjectMeta d)) = None \<Longrightarrow>
      \<exists>w' d'. clCreate cl (DeploymentObj d) w = (None, w') \<and> calm w' \<and>
        depReplicas d' = Some (defaultReplicas (depReplicas d)) \<and>
        view w' = (view w)\<lparr>vwDeployments := (vwDeployments (view w))(keyOf (dep_ObjectMeta d) \<mapsto> d')\<rparr>"
    and create_service: "calm w \<Longrightarrow> vwServices (view w) (keyOf (svc_ObjectMeta svc)) = None \<Longrightarrow>
      \<exists>w' svc'. clCreate cl (ServiceObj svc) w = (None, w') \<and> calm w' \<and>
        svc_Selector svc' = svc_Selector svc \<and>
        view w' = (view w)\<lparr>vwServices := (vwServices (view w))(keyOf (svc_ObjectMeta svc) \<mapsto> svc')\<rparr>"
    and update_deployment: "calm w \<Longrightarrow> vwDeployments (view w) (keyOf (dep_ObjectMeta d)) = Some i \<Longrightarrow>
      \<exists>w' d'. clUpdate cl (DeploymentObj d) w = (None, w') \<and> calm w' \<and>
        depReplicas d' = Some (defaultReplicas (depReplicas d)) \<and>
        dep_AvailableReplicas d' = dep_AvailableReplicas i \<and>
        view w' = (view w)\<lparr>vwDeployments := (vwDeployments (view w))(keyOf (dep_ObjectMeta d) \<mapsto> d')\<rparr>"
    and status_update: "calm w \<Longrightarrow> vwClusters (view w) (keyOf (pc_ObjectMeta c)) = Some c0 \<Longrightarrow>
      \<exists>w'. clStatusUpdate cl c w = (None, w') \<and> calm w' \<and>
        view w' = (view w)\<lparr>vwClusters := (vwClusters (view w))
          (keyOf (pc_ObjectMeta c) \<mapsto> c0\<lparr>pc_Status := pc_Status c\<rparr>)\<rparr>"
    and cluster_keyed: "calm w \<Longrightarrow> vwClusters (view w) key = Some c \<Longrightarrow> keyOf (pc_ObjectMeta c) = key"
    and replicas_set: "calm w \<Longrightarrow> vwDeployments (view w) key = Some d \<Longrightarrow> depReplicas d \<noteq> None"
    and event_recorded: "calm w \<Longrightarrow> calm (clEvent cl c t r m w) \<and> view (clEvent cl c t r m w) = view w"
begin

text \<open>A calm world that stores \<open>v\<close>, after the calls \<open>cs\<close>.\<close>

definition holding :: "cluster_view \<Rightarrow> api_call list \<Rightarrow> 'w sys \<Rightarrow> bool" where
  "holding v cs s \<longleftrightarrow> calm (sysWorld s) \<and> view (sysWorld s) = v \<and> sysCalls s = cs"

lemma apiCall_lands:
  assumes "holding v cs s" and "f (sysWorld s) = (r, w)" and "calm w" and "view w = v'"
  shows "lands (\<lambda>x s'. x = r \<and> holding v' (cs @ [c]) s') (apiCall c f) s"
  using assms by (auto simp: lands_def apiCall_def holding_def)

lemma write_lands:
  assumes "holding v cs s" and "f (sysWorld s) = (None, w)" and "calm w" and "view w = v'"
    and "\<And>s'. holding v' (cs @ [c]) s' \<Longrightarrow> lands P rest s'"
  shows "lands P (orReturn (apiCall c f) h rest) s"
  using assms by (auto intro!: lands_orReturn lands_mono [OF apiCall_lands])

text \<open>An inspection in a calm world finds exactly what is stored.\<close>

lemma inspectStep_lands:
  assumes env: "env_ok env" and s: "holding v cs s"
    and get: "\<And>w. calm w \<Longrightarrow> \<exists>r w'. f w = (r, w') \<and> calm w' \<and> view w' = view w
      \<and> answers (stored (view w)) r"
    and rest: "\<And>s'. holding v (cs @ [c]) s' \<Longrightarrow>
      lands P (rest (case stored v of Some x \<Rightarrow> setObj x ins | None \<Rightarrow> ins)) s'"
  shows "lands P (inspectStep env (apiCall c f) setObj ins rest) s"
proof -
  obtain r w' where r: "f (sysWorld s) = (r, w')" "calm w'" "view w' = v" "answers (stored v) r"
    using get [of "sysWorld s"] s by (auto simp: holding_def)
  have go: "lands P (rest (case stored v of Some x \<Rightarrow> setObj x ins | None \<Rightarrow> ins))
      (s\<lparr>sysWorld := w', sysCalls := sysCalls s @ [c]\<rparr>)"
    using s r by (intro rest) (simp add: holding_def)
  then show ?thesis
    using r env by (auto simp: lands_def inspectStep_def bindP_def apiCall_def answers_def
        env_ok_ignore split: option.splits)
qed

lemma cluster_step:
  assumes "env_ok env" and "holding v cs s" and "\<And>s'. holding v (cs @ [c]) s' \<Longrightarrow>
    lands P (rest (case vwClusters v key of Some x \<Rightarrow> setObj x ins | None \<Rightarrow> ins)) s'"
  shows "lands P (inspectStep env (apiCall c (clGetCluster cl key)) setObj ins rest) s"
  by (rule inspectStep_lands [where stored = "\<lambda>v. vwClusters v key", OF assms(1,2)], erule get_cluster, erule assms(3))

lemma configMap_step:
  assumes "env_ok env" and "holding v cs s" and "\<And>s'. holding v (cs @ [c]) s' \<Longrightarrow>
    lands P (rest (case vwConfigMaps v key of Some x \<Rightarrow> setObj x ins | None \<Rightarrow> ins)) s'"
  shows "lands P (inspectStep env (apiCall c (clGetConfigMap cl key)) setObj ins rest) s"
  by (rule inspectStep_lands [where stored = "\<lambda>v. vwConfigMaps v key", OF assms(1,2)], erule get_configMap, erule assms(3))

lemma deployment_step:
  assumes "env_ok env" and "holding v cs s" and "\<And>s'. holding v (cs @ [c]) s' \<Longrightarrow>
    lands P (rest (case vwDeployments v key of Some x \<Rightarrow> setObj x ins | None \<Rightarrow> ins)) s'"
  shows "lands P (inspectStep env (apiCall c (clGetDeployment cl key)) setObj ins rest) s"
  by (rule inspectStep_lands [where stored = "\<lambda>v. vwDeployments v key", OF assms(1,2)], erule get_deployment, erule assms(3))

lemma service_step:
  assumes "env_ok env" and "holding v cs s" and "\<And>s'. holding v (cs @ [c]) s' \<Longrightarrow>
    lands P (rest (case vwServices v key of Some x \<Rightarrow> setObj x ins | None \<Rightarrow> ins)) s'"
  shows "lands P (inspectStep env (apiCall c (clGetService cl key)) setObj ins rest) s"
  by (rule inspectStep_lands [where stored = "\<lambda>v. vwServices v key", OF assms(1,2)], erule get_service, erule assms(3))

text \<open>Setting a field that is nil to what was read, if anything was.\<close>

lemma set_read:
  "ins_cluster i = None \<Longrightarrow>
     (case o1 of Some x \<Rightarrow> i\<lparr>ins_cluster := Some x\<rparr> | None \<Rightarrow> i) = i\<lparr>ins_cluster := o1\<rparr>"
  "ins_catalogConfigMap i = None \<Longrightarrow> (case o2 of Some x \<Rightarrow> i\<lparr>ins_catalogConfigMap := Some x\<rparr>
     | None \<Rightarrow> i) = i\<lparr>ins_catalogConfigMap := o2\<rparr>"
  "ins_prestoConfigMap i = None \<Longrightarrow> (case o2 of Some x \<Rightarrow> i\<lparr>ins_prestoConfigMap := Some x\<rparr>
     | None \<Rightarrow> i) = i\<lparr>ins_prestoConfigMap := o2\<rparr>"
  "ins_coordinatorDeployment i = None \<Longrightarrow> (case o3 of Some x \<Rightarrow> i\<lparr>ins_coordinatorDeployment := Some x\<rparr>
     | None \<Rightarrow> i) = i\<lparr>ins_coordinatorDeployment := o3\<rparr>"
  "ins_coordinatorService i = None \<Longrightarrow> (case o4 of Some x \<Rightarrow> i\<lparr>ins_coordinatorService := Some x\<rparr>
     | None \<Rightarrow> i) = i\<lparr>ins_coordinatorService := o4\<rparr>"
  "ins_workerDeployment i = None \<Longrightarrow> (case o3 of Some x \<Rightarrow> i\<lparr>ins_workerDeployment := Some x\<rparr>
     | None \<Rightarrow> i) = i\<lparr>ins_workerDeployment := o3\<rparr>"
  by (cases o1; simp; fail | cases o2; simp; fail | cases o3; simp; fail | cases o4; simp; fail)+

lemma inspect_lands:
  assumes env: "env_ok env" and s: "holding v cs s"
  shows "lands (\<lambda>x s'. x = (None, inspectedView v req) \<and> holding v (cs @ inspectCalls req) s')
    (inspect env cl req emptyInspected) s"
  unfolding inspect_def inspector_call_defs call_defs Let_def
  by (rule cluster_step [OF env s], rule configMap_step [OF env], assumption,
      rule configMap_step [OF env], assumption, rule deployment_step [OF env], assumption,
      rule service_step [OF env], assumption, rule deployment_step [OF env], assumption)
    (simp add: inspectCalls_def inspectedView_def emptyInspected_def set_read Let_def
      getCatalogConfigMapName_def getPrestoConfigMapName_def)

text \<open>One child: it is there afterwards; the rest of the reconciliation goes on from the new store.\<close>

lemma configMap_child_lands:
  assumes child: "static_child run want seen ConfigMapObj" and s: "holding v cs s"
    and r: "rec_k8sClient r = cl" "want (rec_desired r) = Some d"
      "seen (rec_inspected r) = vwConfigMaps v (keyOf (cm_ObjectMeta d))"
    and rest: "\<And>x cs' s'. holding (v\<lparr>vwConfigMaps := (vwConfigMaps v)(keyOf (cm_ObjectMeta d) \<mapsto> x)\<rparr>) cs' s'
      \<Longrightarrow> vwConfigMaps v (keyOf (cm_ObjectMeta d)) \<in> {None, Some x}
      \<Longrightarrow> (vwConfigMaps v (keyOf (cm_ObjectMeta d)) = None \<Longrightarrow> cm_Data x = cm_Data d) \<Longrightarrow> lands P rest s'"
  shows "lands P (orReturn (run r) h rest) s"
proof (cases "vwConfigMaps v (keyOf (cm_ObjectMeta d))")
  case None
  have calm: "calm (sysWorld s)" "view (sysWorld s) = v" using s by (auto simp: holding_def)
  obtain w' cm' where cm': "clCreate cl (ConfigMapObj d) (sysWorld s) = (None, w')" "calm w'"
    "cm_Data cm' = cm_Data d"
    "view w' = v\<lparr>vwConfigMaps := (vwConfigMaps v)(keyOf (cm_ObjectMeta d) \<mapsto> cm')\<rparr>"
    using create_configMap [of "sysWorld s" d] calm None by auto
  have "run r = apiCall (CallCreate (ConfigMapObj d)) (clCreate cl (ConfigMapObj d))"
    using static_child.axioms(1) [OF child] r None
    by (simp add: child_reconciler.create_missing create_def)
  moreover have "lands P (orReturn (apiCall c (clCreate cl (ConfigMapObj d))) h rest) s" for c
    by (rule write_lands [OF s _ cm'(2,4)], rule cm'(1), rule rest [where x = cm'], assumption)
      (use cm'(3) None in simp_all)
  ultimately show ?thesis by simp
next
  case (Some i)
  have "run r = ret None" using static_child.keep [OF child] r Some by simp
  moreover have "v\<lparr>vwConfigMaps := (vwConfigMaps v)(keyOf (cm_ObjectMeta d) \<mapsto> i)\<rparr> = v"
    using Some by (simp add: fun_upd_idem)
  ultimately show ?thesis using rest [of i cs s] s Some by simp
qed

lemma service_child_lands:
  assumes child: "static_child run want seen ServiceObj" and s: "holding v cs s"
    and r: "rec_k8sClient r = cl" "want (rec_desired r) = Some d"
      "seen (rec_inspected r) = vwServices v (keyOf (svc_ObjectMeta d))"
    and rest: "\<And>x cs' s'. holding (v\<lparr>vwServices := (vwServices v)(keyOf (svc_ObjectMeta d) \<mapsto> x)\<rparr>) cs' s'
      \<Longrightarrow> vwServices v (keyOf (svc_ObjectMeta d)) \<in> {None, Some x}
      \<Longrightarrow> (vwServices v (keyOf (svc_ObjectMeta d)) = None \<Longrightarrow> svc_Selector x = svc_Selector d)
      \<Longrightarrow> lands P rest s'"
  shows "lands P (orReturn (run r) h rest) s"
proof (cases "vwServices v (keyOf (svc_ObjectMeta d))")
  case None
  have calm: "calm (sysWorld s)" "view (sysWorld s) = v" using s by (auto simp: holding_def)
  obtain w' svc' where svc': "clCreate cl (ServiceObj d) (sysWorld s) = (None, w')" "calm w'"
    "svc_Selector svc' = svc_Selector d"
    "view w' = v\<lparr>vwServices := (vwServices v)(keyOf (svc_ObjectMeta d) \<mapsto> svc')\<rparr>"
    using create_service [of "sysWorld s" d] calm None by auto
  have "run r = apiCall (CallCreate (ServiceObj d)) (clCreate cl (ServiceObj d))"
    using static_child.axioms(1) [OF child] r None
    by (simp add: child_reconciler.create_missing create_def)
  moreover have "lands P (orReturn (apiCall c (clCreate cl (ServiceObj d))) h rest) s" for c
    by (rule write_lands [OF s _ svc'(2,4)], rule svc'(1), rule rest [where x = svc'], assumption)
      (use svc'(3) None in simp_all)
  ultimately show ?thesis by simp
next
  case (Some i)
  have "run r = ret None" using static_child.keep [OF child] r Some by simp
  moreover have "v\<lparr>vwServices := (vwServices v)(keyOf (svc_ObjectMeta d) \<mapsto> i)\<rparr> = v"
    using Some by (simp add: fun_upd_idem)
  ultimately show ?thesis using rest [of i cs s] s Some by simp
qed

text \<open>A deployment ends up with the wanted replicas; the pods it already has stay available.\<close>

lemma deployment_child_lands:
  assumes child: "scaled_child run want seen DeploymentObj depReplicas" and s: "holding v cs s"
    and r: "rec_k8sClient r = cl" "want (rec_desired r) = Some d"
      "seen (rec_inspected r) = vwDeployments v (keyOf (dep_ObjectMeta d))"
    and n: "depReplicas d = Some n"
    and rest: "\<And>x cs' s'. holding (v\<lparr>vwDeployments := (vwDeployments v)(keyOf (dep_ObjectMeta d) \<mapsto> x)\<rparr>)
        cs' s' \<Longrightarrow> depReplicas x = Some n
      \<Longrightarrow> (\<And>i. vwDeployments v (keyOf (dep_ObjectMeta d)) = Some i \<Longrightarrow>
            dep_AvailableReplicas x = dep_AvailableReplicas i) \<Longrightarrow> lands P rest s'"
  shows "lands P (orReturn (run r) h rest) s"
proof -
  have calm: "calm (sysWorld s)" "view (sysWorld s) = v" using s by (auto simp: holding_def)
  have writes: "lands P (orReturn (apiCall c f) h rest) s"
    if "f (sysWorld s) = (None, w')" "calm w'" "depReplicas x = Some (defaultReplicas (depReplicas d))"
      "view w' = v\<lparr>vwDeployments := (vwDeployments v)(keyOf (dep_ObjectMeta d) \<mapsto> x)\<rparr>"
      "\<And>i. vwDeployments v (keyOf (dep_ObjectMeta d)) = Some i \<Longrightarrow>
            dep_AvailableReplicas x = dep_AvailableReplicas i" for c f w' x
    by (rule write_lands [OF s _ that(2,4)], rule that(1), rule rest, assumption)
      (use that(3,5) n in \<open>simp_all add: defaultReplicas_def\<close>)
  note base = scaled_child.axioms(1) [OF child]
  show ?thesis
  proof (cases "vwDeployments v (keyOf (dep_ObjectMeta d))")
    case None
    obtain w' x where "clCreate cl (DeploymentObj d) (sysWorld s) = (None, w')" "calm w'"
      "depReplicas x = Some (defaultReplicas (depReplicas d))"
      "view w' = v\<lparr>vwDeployments := (vwDeployments v)(keyOf (dep_ObjectMeta d) \<mapsto> x)\<rparr>"
      using create_deployment [of "sysWorld s" d] calm None by auto
    then show ?thesis
      using writes None r child_reconciler.create_missing [OF base] by (simp add: create_def)
  next
    case (Some i)
    then obtain m where m: "depReplicas i = Some m" using replicas_set [OF calm(1)] calm(2) by blast
    note run = scaled_child.scale [OF child r(2) _ n m, unfolded r(1)]
    show ?thesis
    proof (cases "n = m")
      case True
      have "v\<lparr>vwDeployments := (vwDeployments v)(keyOf (dep_ObjectMeta d) \<mapsto> i)\<rparr> = v"
        using Some by (simp add: fun_upd_idem)
      then show ?thesis using rest [of i cs s] s Some run r(3) True m by simp
    next
      case False
      obtain w' x where "clUpdate cl (DeploymentObj d) (sysWorld s) = (None, w')" "calm w'"
        "depReplicas x = Some (defaultReplicas (depReplicas d))"
        "dep_AvailableReplicas x = dep_AvailableReplicas i"
        "view w' = v\<lparr>vwDeployments := (vwDeployments v)(keyOf (dep_ObjectMeta d) \<mapsto> x)\<rparr>"
        using update_deployment [of "sysWorld s" d i] calm Some by auto
      then show ?thesis
        using writes Some r run False by (simp add: update_def)
    qed
  qed
qed

text \<open>The whole reconciliation.\<close>

lemma reconcile_lands:
  assumes env: "env_ok env" and s: "holding v cs s" and req: "req = keyOf (pc_ObjectMeta c)"
    and c: "vwClusters v req = Some c" and n: "spec_Workers (pc_Spec c) = Some n"
  shows "lands (\<lambda>x s'. x = (emptyResult, None) \<and> (\<exists>v' cs'. holding v' cs' s' \<and> converges env c n v v'
      \<and> vwClusters v' = vwClusters v))
    (reconcile (requestReconciler env cl (inspectedView v req))) s"
    (is "lands ?P (reconcile ?r) s")
proof -
  let ?pm = "getDesiredPrestoConfigMap env c" and ?cm = "getDesiredCatalogConfigMap env c"
    and ?cd = "getDesiredCoordinatorDeployment env c" and ?wd = "getDesiredWorkerDeployment env c"
    and ?svc = "getDesiredCoordinatorService env c"
  have ins: "ins_cluster (inspectedView v req) = Some c" using c by (simp add: inspectedView_def Let_def)
  have want: "des_PrestoConfigMap (rec_desired ?r) = Some ?pm"
    "des_CatalogConfigMap (rec_desired ?r) = Some ?cm"
    "des_CoordinatorDeployment (rec_desired ?r) = Some ?cd"
    "des_CoordinatorService (rec_desired ?r) = Some ?svc"
    "des_WorkerDeployment (rec_desired ?r) = Some ?wd"
    by (simp_all add: ins desired_Some)
  have seen: "ins_prestoConfigMap (inspectedView v req) = vwConfigMaps v (childKey req getPrestoConfigMapName)"
    "ins_catalogConfigMap (inspectedView v req) = vwConfigMaps v (childKey req getCatalogConfigMapName)"
    "ins_coordinatorDeployment (inspectedView v req)
       = vwDeployments v (childKey req getCoordinatorDeploymentName)"
    "ins_coordinatorService (inspectedView v req) = vwServices v (childKey req getCoordinatorServiceName)"
    "ins_workerDeployment (inspectedView v req) = vwDeployments v (childKey req getWorkerDeploymentName)"
    by (simp_all add: inspectedView_def Let_def)
  have keys: "keyOf (cm_ObjectMeta ?pm) = childKey req getPrestoConfigMapName"
    "keyOf (cm_ObjectMeta ?cm) = childKey req getCatalogConfigMapName"
    "keyOf (dep_ObjectMeta ?cd) = childKey req getCoordinatorDeploymentName"
    "keyOf (svc_ObjectMeta ?svc) = childKey req getCoordinatorServiceName"
    "keyOf (dep_ObjectMeta ?wd) = childKey req getWorkerDeploymentName"
    using req by (simp_all add: desired_keys [OF env])
  note wd = n [folded desired_replicas(2) [of env]]
  have live: "ins_cluster (rec_inspected ?r) \<noteq> None" by (simp add: ins)
  show ?thesis
    unfolding reconcile_def if_not_P [OF live]
    by (rule configMap_child_lands [OF presto_map.static_child_axioms s _ want(1)], simp,
        simp add: seen keys, unfold keys,
        rule configMap_child_lands [OF catalog_map.static_child_axioms _ _ want(2)], assumption, simp,
        simp add: seen keys, unfold keys,
        rule deployment_child_lands [OF coordinator_deployment.scaled_child_axioms _ _ want(3) _
          desired_replicas(1)], assumption, simp, simp add: seen keys, unfold keys,
        rule service_child_lands [OF coordinator_service.static_child_axioms _ _ want(4)], assumption,
        simp, simp add: seen keys, unfold keys,
        rule deployment_child_lands [OF worker_deployment.scaled_child_axioms _ _ want(5) _ wd],
        assumption, simp, simp add: seen keys, unfold keys,
        simp only: lands_ret, rule conjI [OF refl], intro exI, rule conjI, assumption, rule conjI)
      (auto intro!: convergesI simp flip: req)
qed

text \<open>The status update copies the available replicas.\<close>

lemma status_lands:
  assumes env: "env_ok env" and s: "holding v cs s" and c: "vwClusters v req = Some c"
    and n: "spec_Workers (pc_Spec c) = Some n" and ins: "ins_cluster ins = Some c"
    and wd: "vwDeployments v (childKey req getWorkerDeploymentName) = Some wd"
  shows "lands (\<lambda>x s'. x = (requeueUnless (dep_AvailableReplicas wd = n), None) \<and>
      (\<exists>cs'. holding (v\<lparr>vwClusters := (vwClusters v)(req \<mapsto> c\<lparr>pc_Status :=
        \<lparr>status_AvailableWorkers = dep_AvailableReplicas wd\<rparr>\<rparr>)\<rparr>) cs' s') \<and>
      (dep_AvailableReplicas wd = status_AvailableWorkers (pc_Status c) \<longrightarrow> holding v (cs @
        [CallGet DeploymentKind (childKey req getWorkerDeploymentName)]) s'))
    (updatePrestoClusterStatus (requestUpdater env cl ins) (nn_Name req) (nn_Namespace req)) s"
proof -
  let ?key = "childKey req getWorkerDeploymentName"
  let ?c' = "c\<lparr>pc_Status := \<lparr>status_AvailableWorkers = dep_AvailableReplicas wd\<rparr>\<rparr>"
  have calm: "calm (sysWorld s)" "view (sysWorld s) = v" using s by (auto simp: holding_def)
  obtain w where get: "clGetDeployment cl ?key (sysWorld s) = (Inr wd, w)" "calm w" "view w = v"
    using get_deployment [OF calm(1), of ?key] calm(2) wd by (auto simp: answers_def)
  have key: "keyOf (pc_ObjectMeta c) = req" using cluster_keyed [OF get(2)] get(3) c by blast
  note run = updatePrestoClusterStatus_run [of "requestUpdater env cl ins", simplified, OF env ins n get(1) refl]
  obtain w' where upd: "clStatusUpdate cl ?c' w = (None, w')" "calm w'"
    "view w' = v\<lparr>vwClusters := (vwClusters v)(req \<mapsto> ?c')\<rparr>"
    using status_update [OF get(2), of ?c' c] get(3) c key by auto
  show ?thesis
  proof (cases "dep_AvailableReplicas wd = status_AvailableWorkers (pc_Status c)")
    case True
    then have "?c' = c" by simp
    then have "v\<lparr>vwClusters := (vwClusters v)(req \<mapsto> ?c')\<rparr> = v" using c by (simp add: fun_upd_idem)
    then show ?thesis using run True get s by (simp add: lands_def availableOf_def holding_def Let_def)
  next
    case False
    then show ?thesis using run upd event_recorded [OF upd(2)]
      by (simp add: lands_def availableOf_def holding_def Let_def)
  qed
qed

text \<open>A run of a request in a calm world.\<close>

lemma Reconcile_lands:
  assumes env: "env_ok env" and s: "holding v cs s" and c: "vwClusters v req = Some c"
    and n: "spec_Workers (pc_Spec c) = Some n"
  shows "lands (\<lambda>x s'. \<exists>v' cs' wd. holding v' cs' s' \<and> converges env c n v v' \<and>
      vwClusters v' = (vwClusters v)(req \<mapsto> c\<lparr>pc_Status :=
        \<lparr>status_AvailableWorkers = dep_AvailableReplicas wd\<rparr>\<rparr>) \<and>
      settled req n wd v' \<and> x = (requeueUnless (dep_AvailableReplicas wd = n), None))
    (Reconcile env cl req) s"
proof -
  let ?ins = "inspectedView v req"
  have req: "req = keyOf (pc_ObjectMeta c)"
    using cluster_keyed [of "sysWorld s" req c] s c by (simp add: holding_def)
  obtain s1 where s1: "inspect env cl req emptyInspected s = (Done (None, ?ins), s1)"
    "holding v (cs @ inspectCalls req) s1"
    using landsE [OF inspect_lands [OF env s, of req]] by metis
  obtain v2 cs2 s2 where s2: "reconcile (requestReconciler env cl ?ins) s1 = (Done (emptyResult, None), s2)"
    "holding v2 cs2 s2" "converges env c n v v2" "vwClusters v2 = vwClusters v"
    using landsE [OF reconcile_lands [OF env s1(2) req c n]] by metis
  obtain wd where wd: "vwDeployments v2 (childKey req getWorkerDeploymentName) = Some wd"
    "settled req n wd (v2\<lparr>vwClusters := (vwClusters v2)(req \<mapsto> c\<lparr>pc_Status :=
      \<lparr>status_AvailableWorkers = dep_AvailableReplicas wd\<rparr>\<rparr>)\<rparr>)"
    by (rule converges_settled [OF s2(3) req n])
  have ins: "ins_cluster ?ins = Some c" using c by (simp add: inspectedView_def Let_def)
  have run: "Reconcile env cl req s
    = updatePrestoClusterStatus (requestUpdater env cl ?ins) (nn_Name req) (nn_Namespace req) s2"
    using Reconcile_run [OF s1(1)] s2(1) ins by simp
  have c2: "vwClusters v2 req = Some c" using s2(4) c by simp
  show ?thesis
    using status_lands [OF env s2(2) c2 n ins wd(1)] wd(2) s2(3,4)
    unfolding lands_def run by (elim exE conjE) (intro exI conjI, assumption, assumption, simp_all)
qed

text \<open>In a settled store a run only reads.\<close>

lemma Reconcile_settled:
  assumes env: "env_ok env" and s: "holding v cs s" and v: "settled req n wd v"
  shows "lands (\<lambda>x s'. x = (requeueUnless (dep_AvailableReplicas wd = n), None) \<and>
      holding v (cs @ inspectCalls req @ [CallGet DeploymentKind (childKey req getWorkerDeploymentName)]) s')
    (Reconcile env cl req) s"
proof -
  let ?ins = "inspectedView v req"
  obtain c cd where c: "vwClusters v req = Some c" "spec_Workers (pc_Spec c) = Some n"
      "status_AvailableWorkers (pc_Status c) = dep_AvailableReplicas wd"
    and cd: "vwDeployments v (childKey req getCoordinatorDeploymentName) = Some cd" "depReplicas cd = Some 1"
    and wd: "vwDeployments v (childKey req getWorkerDeploymentName) = Some wd" "depReplicas wd = Some n"
    using v unfolding settled_def by blast
  obtain s1 where s1: "inspect env cl req emptyInspected s = (Done (None, ?ins), s1)"
    "holding v (cs @ inspectCalls req) s1"
    using landsE [OF inspect_lands [OF env s, of req]] by metis
  have ins: "ins_cluster ?ins = Some c" using c by (simp add: inspectedView_def Let_def)
  have "reconcile (requestReconciler env cl ?ins) = ret (emptyResult, None)"
    by (rule reconcile_idle [where cd = "getDesiredCoordinatorDeployment env c" and ci = cd and m = 1
          and wd = "getDesiredWorkerDeployment env c" and wi = wd and n = n])
      (use v c cd wd ins in \<open>auto simp: desired_Some desired_replicas settled_def inspectedView_def Let_def\<close>)
  then have run: "Reconcile env cl req s
    = updatePrestoClusterStatus (requestUpdater env cl ?ins) (nn_Name req) (nn_Namespace req) s1"
    using Reconcile_run [OF s1(1)] ins by (simp add: ret_def)
  show ?thesis
    using status_lands [OF env s1(2) c(1,2) ins wd(1)] c(3) unfolding lands_def run by auto
qed

end

end
