(* ===== verification/Safety.thy ===== *)
theory Safety
  imports Controller
begin

text \<open>
  Runs under failures. The interface \<open>sound_api\<close> asks of a client only that it keeps an invariant of
  the world and of the calls issued, whether its calls fail or not, and that what it reads passed
  validation: a cluster has its \<open>workers\<close> field, a deployment its replica count. It asks this of
  reads, creations, updates of deployments, status writes and events: a run makes no other call.
  Inside it, \<open>safe\<close> programs keep the invariant and do not panic; a run of a request is safe.
\<close>

text \<open>The state after a call.\<close>

definition after :: "api_call \<Rightarrow> 'w \<Rightarrow> 'w sys \<Rightarrow> 'w sys" where
  "after c w s = s\<lparr>sysWorld := w, sysCalls := sysCalls s @ [c]\<rparr>"

locale sound_api =
  fixes cl :: "'w client" and inv :: "'w sys \<Rightarrow> bool"
  assumes get_cluster: "inv s \<Longrightarrow> clGetCluster cl key (sysWorld s) = (r, w) \<Longrightarrow>
      inv (after (CallGet PrestoClusterKind key) w s) \<and>
      (\<forall>c. r = Inr c \<longrightarrow> spec_Workers (pc_Spec c) \<noteq> None)"
    and get_configMap: "inv s \<Longrightarrow> clGetConfigMap cl key (sysWorld s) = (rm, w) \<Longrightarrow>
      inv (after (CallGet ConfigMapKind key) w s)"
    and get_deployment: "inv s \<Longrightarrow> clGetDeployment cl key (sysWorld s) = (rd, w) \<Longrightarrow>
      inv (after (CallGet DeploymentKind key) w s) \<and> (\<forall>d. rd = Inr d \<longrightarrow> depReplicas d \<noteq> None)"
    and get_service: "inv s \<Longrightarrow> clGetService cl key (sysWorld s) = (rs, w) \<Longrightarrow>
      inv (after (CallGet ServiceKind key) w s)"
    and create_object: "inv s \<Longrightarrow> clCreate cl obj (sysWorld s) = (e, w) \<Longrightarrow>
      inv (after (CallCreate obj) w s)"
    and update_deployment: "inv s \<Longrightarrow> clUpdate cl (DeploymentObj dep) (sysWorld s) = (e, w) \<Longrightarrow>
      inv (after (CallUpdate (DeploymentObj dep)) w s)"
    and update_status: "inv s \<Longrightarrow> clStatusUpdate cl pc (sysWorld s) = (e, w) \<Longrightarrow>
      inv (after (CallStatusUpdate pc) w s)"
    and record_event: "inv s \<Longrightarrow>
      inv (after (CallEvent pc t m i) (clEvent cl pc t m i (sysWorld s)) s)"
begin

definition safe :: "('a \<Rightarrow> bool) \<Rightarrow> ('w sys, 'a) prog \<Rightarrow> bool" where
  "safe Q m \<longleftrightarrow> (\<forall>s. inv s \<longrightarrow> lands (\<lambda>x s'. Q x \<and> inv s') m s)"

lemma safeD: "safe Q m \<Longrightarrow> inv s \<Longrightarrow> lands (\<lambda>x s'. Q x \<and> inv s') m s"
  by (simp add: safe_def)

lemma safe_ret: "Q x \<Longrightarrow> safe Q (ret x)"
  by (simp add: safe_def)

lemma safe_deref: "p = Some x \<Longrightarrow> Q x \<Longrightarrow> safe Q (deref p)"
  by (simp add: safe_def)

lemma safe_bindP: "safe P m \<Longrightarrow> (\<And>x. P x \<Longrightarrow> safe Q (f x)) \<Longrightarrow> safe Q (bindP m f)"
  unfolding safe_def by (intro allI impI lands_bindP) (blast intro: lands_mono)

lemma safe_mono: "safe P m \<Longrightarrow> (\<And>x. P x \<Longrightarrow> Q x) \<Longrightarrow> safe Q m"
  unfolding safe_def by (blast intro: lands_mono)

lemma safe_orReturn:
  "safe (\<lambda>_. True) m \<Longrightarrow> (\<And>e. safe Q (h e)) \<Longrightarrow> safe Q rest \<Longrightarrow> safe Q (orReturn m h rest)"
  unfolding orReturn_def by (rule safe_bindP) (auto split: option.split)

lemma safe_if: "(b \<Longrightarrow> safe Q m) \<Longrightarrow> (\<not> b \<Longrightarrow> safe Q m') \<Longrightarrow> safe Q (if b then m else m')"
  by simp

lemma safe_apiCall:
  assumes "\<And>s r w. inv s \<Longrightarrow> f (sysWorld s) = (r, w) \<Longrightarrow> inv (after c w s) \<and> Q r"
  shows "safe Q (apiCall c f)"
  using assms by (fastforce simp: safe_def lands_def apiCall_def after_def split: prod.splits)

lemma safe_calls:
  "safe (\<lambda>r. \<forall>c. r = Inr c \<longrightarrow> spec_Workers (pc_Spec c) \<noteq> None) (getCluster cl key)"
  "safe (\<lambda>_. True) (getConfigMap cl key)"
  "safe (\<lambda>r. \<forall>d. r = Inr d \<longrightarrow> depReplicas d \<noteq> None) (getDeployment cl key)"
  "safe (\<lambda>_. True) (getService cl key)"
  "safe (\<lambda>_. True) (create cl obj)" "safe (\<lambda>_. True) (update cl (DeploymentObj dep))"
  "safe (\<lambda>_. True) (statusUpdate cl pc)"
  "safe (\<lambda>_. True) (event cl pc t m i)"
  unfolding call_defs
  by (rule safe_apiCall, use get_cluster get_configMap get_deployment get_service create_object
      update_deployment update_status record_event in auto)+

text \<open>What an inspection finds passed validation.\<close>

definition validated :: "inspected_cluster_state \<Rightarrow> bool" where
  "validated ins \<longleftrightarrow> (\<forall>c. ins_cluster ins = Some c \<longrightarrow> spec_Workers (pc_Spec c) \<noteq> None)
     \<and> (\<forall>d. ins_coordinatorDeployment ins = Some d \<longrightarrow> depReplicas d \<noteq> None)
     \<and> (\<forall>d. ins_workerDeployment ins = Some d \<longrightarrow> depReplicas d \<noteq> None)"

lemma safe_inspectStep:
  assumes "safe (\<lambda>r. \<forall>obj. r = Inr obj \<longrightarrow> validated (setObj obj ins)) getObj" and "validated ins"
    and "\<And>ins'. validated ins' \<Longrightarrow> safe (\<lambda>(_, i). validated i) (rest ins')"
  shows "safe (\<lambda>(_, i). validated i) (inspectStep env getObj setObj ins rest)"
  unfolding inspectStep_def
  by (rule safe_bindP [OF assms(1)]) (auto intro!: safe_ret assms split: sum.split)

lemma safe_inspect: "validated ins \<Longrightarrow> safe (\<lambda>(_, i). validated i) (inspect env cl req ins)"
  unfolding inspect_def inspector_call_defs Let_def
  by (intro safe_inspectStep safe_ret safe_calls [THEN safe_mono]) (auto simp: validated_def)

text \<open>A wanted child is never deleted, so nothing is asked of deletions.\<close>

lemma safe_static_child:
  assumes "static_child run want seen obj" and "rec_k8sClient r = cl" and "want (rec_desired r) \<noteq> None"
  shows "safe (\<lambda>_. True) (run r)"
proof -
  note laws = child_reconciler.create_missing [OF static_child.axioms(1) [OF assms(1)], of r]
    static_child.keep [OF assms(1), of r]
  show ?thesis
    using assms(3) by (cases "seen (rec_inspected r)") (auto simp: laws assms(2) safe_ret safe_calls)
qed

lemma safe_scaled_child:
  assumes "scaled_child run want seen DeploymentObj replicas" and "rec_k8sClient r = cl"
    and "\<exists>d. want (rec_desired r) = Some d \<and> replicas d \<noteq> None"
    and "\<And>d. seen (rec_inspected r) = Some d \<Longrightarrow> replicas d \<noteq> None"
  shows "safe (\<lambda>_. True) (run r)"
proof -
  note laws = child_reconciler.create_missing [OF scaled_child.axioms(1) [OF assms(1)], of r]
    scaled_child.scale [OF assms(1), of r]
  show ?thesis
    using assms(3,4) by (cases "seen (rec_inspected r)") (auto simp: laws assms(2) safe_ret safe_calls)
qed

lemma safe_reconcile:
  assumes "validated ins"
  shows "safe (\<lambda>_. True) (reconcile (requestReconciler env cl ins))"
proof (cases "ins_cluster ins")
  case None
  then show ?thesis by (simp add: reconcile_deleted safe_ret)
next
  case (Some c)
  then have w: "spec_Workers (pc_Spec c) \<noteq> None" using assms by (simp add: validated_def)
  have live: "ins_cluster (rec_inspected (requestReconciler env cl ins)) \<noteq> None" using Some by simp
  show ?thesis
    unfolding reconcile_def if_not_P [OF live]
    by (intro safe_orReturn safe_ret TrueI
        safe_static_child [OF presto_map.static_child_axioms]
        safe_static_child [OF catalog_map.static_child_axioms]
        safe_static_child [OF coordinator_service.static_child_axioms]
        safe_scaled_child [OF coordinator_deployment.scaled_child_axioms]
        safe_scaled_child [OF worker_deployment.scaled_child_axioms])
      (use Some assms w in \<open>auto simp: desired_Some validated_def getDesiredCoordinatorDeployment_def
         getDesiredWorkerDeployment_def Let_def\<close>)
qed

lemma safe_status:
  assumes "validated ins" and "ins_cluster ins \<noteq> None"
  shows "safe (\<lambda>_. True) (updatePrestoClusterStatus (requestUpdater env cl ins) name ns)"
proof -
  obtain c n where c: "ins_cluster ins = Some c" "spec_Workers (pc_Spec c) = Some n"
    using assms by (auto simp: validated_def)
  have derive: "safe (\<lambda>_. True) (deriveClusterStatus (requestUpdater env cl ins) name ns)"
    unfolding deriveClusterStatus_def currentDeployment_def Let_def cluster_status_updater.simps
    by (rule safe_bindP [OF safe_calls(3)]) (simp add: safe_ret)
  show ?thesis
    unfolding updatePrestoClusterStatus_def updateClusterStatus_def Let_def
    by (rule safe_bindP [OF derive])
      (auto simp: c intro!: safe_orReturn safe_bindP [OF safe_calls(7)] safe_bindP [OF safe_calls(8)]
        safe_ret safe_if split: option.split)
qed

lemma safe_Reconcile: "safe (\<lambda>_. True) (Reconcile env cl req)"
proof -
  have start: "validated emptyInspected" by (simp add: validated_def emptyInspected_def)
  show ?thesis
    unfolding Reconcile_unfold
      bindP_passes [OF updatePrestoClusterStatus_error_result]
  proof (rule safe_bindP [OF safe_inspect [OF start]], clarify)
    fix err ins
    assume ins: "validated ins"
    show "safe (\<lambda>_. True) (case err of Some e \<Rightarrow> ret (emptyResult, Some e)
       | None \<Rightarrow> bindP (reconcile (requestReconciler env cl ins)) (\<lambda>(result, err).
          if ins_cluster ins = None then ret (emptyResult, None)
          else updatePrestoClusterStatus (requestUpdater env cl ins) (nn_Name req) (nn_Namespace req)))"
      using safe_reconcile [OF ins, of env]
      by (cases err; cases "ins_cluster ins")
        (auto intro!: safe_ret safe_status [OF ins] safe_if elim!: safe_bindP)
  qed
qed

end

subsection \<open>A run issues a call\<close>

lemma child_any_calls:
  assumes "child_reconciler run want seen obj"
  shows "emits (\<lambda>_. True) (run r)"
  using child_reconciler.wanted_calls [OF assms, of r] child_reconciler.unwanted_calls [OF assms, of r]
  by (cases "want (rec_desired r)") (auto elim: emits_mono)

lemmas children_any_calls = child_any_calls [OF presto_map.child_reconciler_axioms]
  child_any_calls [OF catalog_map.child_reconciler_axioms]
  child_any_calls [OF coordinator_deployment.child_reconciler_axioms]
  child_any_calls [OF coordinator_service.child_reconciler_axioms]
  child_any_calls [OF worker_deployment.child_reconciler_axioms]

lemma reconcile_any_calls: "emits (\<lambda>_. True) (reconcile r)"
  unfolding reconcile_def by (intro emits_if emits_orReturn emits_ret children_any_calls)

lemma status_any_calls: "emits (\<lambda>_. True) (updatePrestoClusterStatus u name ns)"
  unfolding updatePrestoClusterStatus_def deriveClusterStatus_def currentDeployment_def
    getDeployment_def updateClusterStatus_def statusUpdate_def event_def Let_def
  by (auto intro!: emits_intros split: option.split)

lemma Reconcile_calls:
  assumes env: "env_ok env" and run: "Reconcile env cl req s = (r, s')"
  obtains cs where "sysCalls s' = sysCalls s @ cs" and "cs \<noteq> []"
proof -
  obtain x s1 n where x: "inspect env cl req emptyInspected s = (Done x, s1)"
    "sysCalls s1 = sysCalls s @ take n (inspectCalls req)"
    "if inspectFailed x then 0 < n else n = length (inspectCalls req)"
    using followsE [OF inspect_follows [OF env]] by metis
  then have n: "take n (inspectCalls req) \<noteq> []"
    by (auto simp: inspectCalls_def Let_def split: if_splits)
  obtain err ins where p: "x = (err, ins)" by fastforce
  obtain o' s2 where rec: "reconcile (requestReconciler env cl ins) s1 = (o', s2)" by fastforce
  obtain r3 s3 where upd: "updatePrestoClusterStatus (requestUpdater env cl ins) (nn_Name req)
      (nn_Namespace req) s2 = (r3, s3)" by fastforce
  obtain ds2 where ds2: "sysCalls s2 = sysCalls s1 @ ds2" using emitsE [OF reconcile_any_calls rec] .
  obtain ds3 where ds3: "sysCalls s3 = sysCalls s2 @ ds3" using emitsE [OF status_any_calls upd] .
  have "s' \<in> {s1, s2, s3}"
    using run Reconcile_run [OF x(1) [unfolded p]] rec upd
    by (auto split: option.splits outcome.splits if_splits)
  then obtain ds where "sysCalls s' = sysCalls s1 @ ds" using ds2 ds3 by auto
  then show thesis using x(2) n by (intro that [of "take n (inspectCalls req) @ ds"]) simp_all
qed

end
