(* ===== verification/MemServer.thy ===== *)
theory MemServer
  imports Server Safety
begin

text \<open>
  An API server in memory: a store of objects and a schedule of faults, one entry per call
  (\<open>Some e\<close> makes the call fail with \<open>e\<close>; after the schedule no call fails). Reads of an absent
  object, updates and deletions of one answer NotFound, a second creation answers an error.
  It provides the contract \<open>api_server\<close> in worlds without faults, and is the server the witnesses
  run against.
\<close>

record mem_world =
  mwView :: cluster_view
  mwFaults :: "api_error option list"

text \<open>One call: the fault that is due, or the effect on the store.\<close>

definition served :: "(api_error \<Rightarrow> 'r) \<Rightarrow> (cluster_view \<Rightarrow> 'r \<times> cluster_view) \<Rightarrow> mem_world
    \<Rightarrow> 'r \<times> mem_world" where
  "served onErr f w = (case mwFaults w of
     Some e # fs \<Rightarrow> (onErr e, w\<lparr>mwFaults := fs\<rparr>)
   | fs \<Rightarrow> (let (r, v) = f (mwView w) in (r, \<lparr>mwView = v, mwFaults = tl fs\<rparr>)))"

definition absent :: "namespaced_name \<Rightarrow> api_error" where
  "absent key = NotFound (nn_Name key)"

definition present :: "namespaced_name \<Rightarrow> api_error" where
  "present key = OtherError (nn_Name key @ '' already exists'')"

text \<open>An object answers to its own key.\<close>

definition lookupKey :: "('o \<Rightarrow> object_meta) \<Rightarrow> (namespaced_name \<rightharpoonup> 'o) \<Rightarrow> namespaced_name
    \<Rightarrow> api_error + 'o" where
  "lookupKey meta m key = (case m key of
     Some x \<Rightarrow> if keyOf (meta x) = key then Inr x else Inl (absent key)
   | None \<Rightarrow> Inl (absent key))"

definition memGet :: "('o \<Rightarrow> object_meta) \<Rightarrow> (cluster_view \<Rightarrow> namespaced_name \<rightharpoonup> 'o)
    \<Rightarrow> namespaced_name \<Rightarrow> mem_world \<Rightarrow> (api_error + 'o) \<times> mem_world" where
  "memGet meta objs key = served Inl (\<lambda>v. (lookupKey meta (objs v) key, v))"

text \<open>A deployment as it is stored: the replica count has its default, the status is the server's.\<close>

definition storedDeployment :: "deployment \<Rightarrow> int32 \<Rightarrow> deployment" where
  "storedDeployment d avail = d\<lparr>dep_Spec := (dep_Spec d)\<lparr>ds_Replicas :=
     Some (defaultReplicas (depReplicas d))\<rparr>, dep_AvailableReplicas := avail\<rparr>"

definition storeObject :: "api_object \<Rightarrow> int32 \<Rightarrow> cluster_view \<Rightarrow> cluster_view" where
  "storeObject obj avail v = (case obj of
     ConfigMapObj cm \<Rightarrow> v\<lparr>vwConfigMaps := (vwConfigMaps v)(keyOf (cm_ObjectMeta cm) \<mapsto> cm)\<rparr>
   | DeploymentObj d \<Rightarrow> v\<lparr>vwDeployments := (vwDeployments v)
       (keyOf (dep_ObjectMeta d) \<mapsto> storedDeployment d avail)\<rparr>
   | ServiceObj s \<Rightarrow> v\<lparr>vwServices := (vwServices v)(keyOf (svc_ObjectMeta s) \<mapsto> s)\<rparr>
   | IngressObj _ \<Rightarrow> v)"

fun stored :: "api_object \<Rightarrow> cluster_view \<Rightarrow> bool" where
  "stored (ConfigMapObj cm) v = (vwConfigMaps v (keyOf (cm_ObjectMeta cm)) \<noteq> None)"
| "stored (DeploymentObj d) v = (vwDeployments v (keyOf (dep_ObjectMeta d)) \<noteq> None)"
| "stored (ServiceObj s) v = (vwServices v (keyOf (svc_ObjectMeta s)) \<noteq> None)"
| "stored (IngressObj _) v = False"

fun removeObject :: "api_object \<Rightarrow> cluster_view \<Rightarrow> cluster_view" where
  "removeObject (ConfigMapObj cm) v =
     v\<lparr>vwConfigMaps := (vwConfigMaps v)(keyOf (cm_ObjectMeta cm) := None)\<rparr>"
| "removeObject (DeploymentObj d) v =
     v\<lparr>vwDeployments := (vwDeployments v)(keyOf (dep_ObjectMeta d) := None)\<rparr>"
| "removeObject (ServiceObj s) v = v\<lparr>vwServices := (vwServices v)(keyOf (svc_ObjectMeta s) := None)\<rparr>"
| "removeObject (IngressObj _) v = v"

text \<open>The pods a stored deployment has available.\<close>

definition availableAt :: "api_object \<Rightarrow> cluster_view \<Rightarrow> int32" where
  "availableAt obj v = (case vwDeployments v (keyOf (objMeta obj)) of
     None \<Rightarrow> 0 | Some d \<Rightarrow> dep_AvailableReplicas d)"

definition memCreate :: "api_object \<Rightarrow> mem_world \<Rightarrow> api_error option \<times> mem_world" where
  "memCreate obj = served Some (\<lambda>v. if stored obj v then (Some (present (keyOf (objMeta obj))), v)
     else (None, storeObject obj 0 v))"

definition memUpdate :: "api_object \<Rightarrow> mem_world \<Rightarrow> api_error option \<times> mem_world" where
  "memUpdate obj = served Some (\<lambda>v. if stored obj v then (None, storeObject obj (availableAt obj v) v)
     else (Some (absent (keyOf (objMeta obj))), v))"

definition memDelete :: "api_object \<Rightarrow> mem_world \<Rightarrow> api_error option \<times> mem_world" where
  "memDelete obj = served Some (\<lambda>v. if stored obj v then (None, removeObject obj v)
     else (Some (absent (keyOf (objMeta obj))), v))"

definition memStatusUpdate :: "presto_cluster \<Rightarrow> mem_world \<Rightarrow> api_error option \<times> mem_world" where
  "memStatusUpdate c = served Some (\<lambda>v. case vwClusters v (keyOf (pc_ObjectMeta c)) of
     None \<Rightarrow> (Some (absent (keyOf (pc_ObjectMeta c))), v)
   | Some c0 \<Rightarrow> (None, v\<lparr>vwClusters := (vwClusters v)
       (keyOf (pc_ObjectMeta c) \<mapsto> c0\<lparr>pc_Status := pc_Status c\<rparr>)\<rparr>))"

definition memClient :: "mem_world client" where
  "memClient = \<lparr>
     clGetCluster = memGet pc_ObjectMeta vwClusters,
     clGetConfigMap = memGet cm_ObjectMeta vwConfigMaps,
     clGetDeployment = memGet dep_ObjectMeta vwDeployments,
     clGetService = memGet svc_ObjectMeta vwServices,
     clCreate = memCreate, clUpdate = memUpdate, clDelete = memDelete,
     clStatusUpdate = memStatusUpdate,
     clEvent = (\<lambda>c eventtype reason message w. snd (served (\<lambda>_. ()) (Pair ()) w))\<rparr>"

subsection \<open>The contract\<close>

text \<open>Objects are stored under their keys, deployments with their replica counts.\<close>

definition keyed :: "('o \<Rightarrow> object_meta) \<Rightarrow> (namespaced_name \<rightharpoonup> 'o) \<Rightarrow> bool" where
  "keyed meta m \<longleftrightarrow> (\<forall>key x. m key = Some x \<longrightarrow> keyOf (meta x) = key)"

definition viewOk :: "cluster_view \<Rightarrow> bool" where
  "viewOk v \<longleftrightarrow> keyed pc_ObjectMeta (vwClusters v) \<and> keyed cm_ObjectMeta (vwConfigMaps v)
     \<and> keyed dep_ObjectMeta (vwDeployments v) \<and> keyed svc_ObjectMeta (vwServices v)
     \<and> (\<forall>d \<in> ran (vwDeployments v). depReplicas d \<noteq> None)"

definition memCalm :: "mem_world \<Rightarrow> bool" where
  "memCalm w \<longleftrightarrow> mwFaults w = [] \<and> viewOk (mwView w)"

lemma keyedD: "keyed meta m \<Longrightarrow> m key = Some x \<Longrightarrow> keyOf (meta x) = key"
  by (simp add: keyed_def)

lemma keyed_upd: "keyed meta m \<Longrightarrow> keyOf (meta x) = key \<Longrightarrow> keyed meta (m(key \<mapsto> x))"
  by (simp add: keyed_def)

lemma served_calm: "mwFaults w = [] \<Longrightarrow>
    served onErr f w = (fst (f (mwView w)), \<lparr>mwView = snd (f (mwView w)), mwFaults = []\<rparr>)"
  by (simp add: served_def split: prod.split)

lemma memGet_calm:
  assumes "memCalm w" and "keyed meta (objs (mwView w))"
  shows "\<exists>r w'. memGet meta objs key w = (r, w') \<and> memCalm w' \<and> mwView w' = mwView w
    \<and> answers (objs (mwView w) key) r"
  using assms
  by (auto simp: memGet_def lookupKey_def memCalm_def served_calm answers_def absent_def keyed_def split: option.splits)

lemma viewOk_store:
  assumes "viewOk v"
  shows "viewOk (storeObject obj avail v)"
  using assms
  by (cases obj) (auto simp: storeObject_def viewOk_def storedDeployment_def ran_def intro!: keyed_upd)

lemma viewOk_remove: "viewOk v \<Longrightarrow> viewOk (removeObject obj v)"
  by (cases obj) (auto simp: viewOk_def keyed_def ran_def)

lemma viewOk_status:
  assumes "viewOk v" and "vwClusters v (keyOf (pc_ObjectMeta c)) = Some c0"
  shows "viewOk (v\<lparr>vwClusters := (vwClusters v)(keyOf (pc_ObjectMeta c) \<mapsto> c0\<lparr>pc_Status := st\<rparr>)\<rparr>)"
  using assms by (auto simp: viewOk_def intro!: keyed_upd dest: keyedD)

interpretation mem: api_server memClient memCalm mwView
proof unfold_locales
  fix w :: mem_world and key
  assume calm: "memCalm w"
  then have ok: "viewOk (mwView w)" "mwFaults w = []" by (simp_all add: memCalm_def)
  show "\<exists>r w'. clGetCluster memClient key w = (r, w') \<and> memCalm w' \<and> mwView w' = mwView w
      \<and> answers (vwClusters (mwView w) key) r"
    using memGet_calm [OF calm, of pc_ObjectMeta vwClusters] ok by (simp add: memClient_def viewOk_def)
  show "\<exists>r w'. clGetConfigMap memClient key w = (r, w') \<and> memCalm w' \<and> mwView w' = mwView w
      \<and> answers (vwConfigMaps (mwView w) key) r"
    using memGet_calm [OF calm, of cm_ObjectMeta vwConfigMaps] ok by (simp add: memClient_def viewOk_def)
  show "\<exists>r w'. clGetDeployment memClient key w = (r, w') \<and> memCalm w' \<and> mwView w' = mwView w
      \<and> answers (vwDeployments (mwView w) key) r"
    using memGet_calm [OF calm, of dep_ObjectMeta vwDeployments] ok by (simp add: memClient_def viewOk_def)
  show "\<exists>r w'. clGetService memClient key w = (r, w') \<and> memCalm w' \<and> mwView w' = mwView w
      \<and> answers (vwServices (mwView w) key) r"
    using memGet_calm [OF calm, of svc_ObjectMeta vwServices] ok by (simp add: memClient_def viewOk_def)
  show "keyOf (pc_ObjectMeta c) = key" if "vwClusters (mwView w) key = Some c" for c
    using that ok by (auto simp: viewOk_def keyed_def)
  show "depReplicas d \<noteq> None" if "vwDeployments (mwView w) key = Some d" for d
    using that ok unfolding viewOk_def by (blast intro: ranI)
  show "memCalm (clEvent memClient c t r m w) \<and> mwView (clEvent memClient c t r m w) = mwView w" for c t r m
    using calm by (simp add: memClient_def memCalm_def served_calm)
next
  fix w :: mem_world
  assume "memCalm w"
  then have ok: "viewOk (mwView w)" "mwFaults w = []" by (simp_all add: memCalm_def)
  note writes = memClient_def memCreate_def memUpdate_def memStatusUpdate_def served_calm
    memCalm_def viewOk_store
  show "\<exists>w' cm'. clCreate memClient (ConfigMapObj cm) w = (None, w') \<and> memCalm w'
      \<and> cm_Data cm' = cm_Data cm \<and> mwView w' = (mwView w)\<lparr>vwConfigMaps :=
        (vwConfigMaps (mwView w))(keyOf (cm_ObjectMeta cm) \<mapsto> cm')\<rparr>"
    if "vwConfigMaps (mwView w) (keyOf (cm_ObjectMeta cm)) = None" for cm
    using ok that by (simp add: writes) (auto simp: storeObject_def)
  show "\<exists>w' d'. clCreate memClient (DeploymentObj d) w = (None, w') \<and> memCalm w'
      \<and> depReplicas d' = Some (defaultReplicas (depReplicas d)) \<and> mwView w' = (mwView w)\<lparr>vwDeployments :=
        (vwDeployments (mwView w))(keyOf (dep_ObjectMeta d) \<mapsto> d')\<rparr>"
    if "vwDeployments (mwView w) (keyOf (dep_ObjectMeta d)) = None" for d
    using ok that
    by (intro exI [of _ "\<lparr>mwView = storeObject (DeploymentObj d) 0 (mwView w), mwFaults = []\<rparr>"]
        exI [of _ "storedDeployment d 0"])
      (simp add: writes, simp add: storeObject_def storedDeployment_def)
  show "\<exists>w' svc'. clCreate memClient (ServiceObj svc) w = (None, w') \<and> memCalm w'
      \<and> svc_Selector svc' = svc_Selector svc \<and> mwView w' = (mwView w)\<lparr>vwServices :=
        (vwServices (mwView w))(keyOf (svc_ObjectMeta svc) \<mapsto> svc')\<rparr>"
    if "vwServices (mwView w) (keyOf (svc_ObjectMeta svc)) = None" for svc
    using ok that by (simp add: writes) (auto simp: storeObject_def)
  show "\<exists>w' d'. clUpdate memClient (DeploymentObj d) w = (None, w') \<and> memCalm w'
      \<and> depReplicas d' = Some (defaultReplicas (depReplicas d))
      \<and> dep_AvailableReplicas d' = dep_AvailableReplicas i \<and> mwView w' = (mwView w)\<lparr>vwDeployments :=
        (vwDeployments (mwView w))(keyOf (dep_ObjectMeta d) \<mapsto> d')\<rparr>"
    if "vwDeployments (mwView w) (keyOf (dep_ObjectMeta d)) = Some i" for d i
    using ok that
    by (intro exI [of _ "\<lparr>mwView = storeObject (DeploymentObj d) (dep_AvailableReplicas i) (mwView w),
          mwFaults = []\<rparr>"] exI [of _ "storedDeployment d (dep_AvailableReplicas i)"])
      (simp add: writes availableAt_def, simp add: storeObject_def storedDeployment_def)
  show "\<exists>w'. clStatusUpdate memClient c w = (None, w') \<and> memCalm w' \<and> mwView w' =
      (mwView w)\<lparr>vwClusters := (vwClusters (mwView w))(keyOf (pc_ObjectMeta c) \<mapsto> c0\<lparr>pc_Status := pc_Status c\<rparr>)\<rparr>"
    if "vwClusters (mwView w) (keyOf (pc_ObjectMeta c)) = Some c0" for c c0
    using ok that by (simp add: writes viewOk_status)
qed

lemma memClient_keyed: "getKeyed memClient"
  by (auto simp: getKeyed_def memClient_def memGet_def lookupKey_def served_def Let_def
      split: list.splits option.splits if_splits)

subsection \<open>Under faults\<close>

text \<open>
  What every call keeps, failing or not: the objects are stored as they should be, every cluster
  passed validation, the clusters of \<open>goals\<close> keep their specifications, and each call has used up
  one entry of the schedule \<open>F\<close>.
\<close>

type_synonym goals = "(namespaced_name \<times> presto_cluster_spec) list"

definition hasSpec :: "cluster_view \<Rightarrow> namespaced_name \<times> presto_cluster_spec \<Rightarrow> bool" where
  "hasSpec v g \<longleftrightarrow> (\<exists>c. vwClusters v (fst g) = Some c \<and> pc_Spec c = snd g)"

definition goodView :: "goals \<Rightarrow> cluster_view \<Rightarrow> bool" where
  "goodView goals v \<longleftrightarrow> viewOk v \<and> (\<forall>c \<in> ran (vwClusters v). spec_Workers (pc_Spec c) \<noteq> None)
     \<and> (\<forall>g \<in> set goals. hasSpec v g)"

text \<open>The config maps and services of \<open>v0\<close> are still there as they were, its deployments are still there.\<close>

definition keeps :: "cluster_view \<Rightarrow> cluster_view \<Rightarrow> bool" where
  "keeps v0 v \<longleftrightarrow> vwConfigMaps v0 \<subseteq>\<^sub>m vwConfigMaps v \<and> vwServices v0 \<subseteq>\<^sub>m vwServices v
     \<and> dom (vwDeployments v0) \<subseteq> dom (vwDeployments v)"

definition memInv :: "api_error option list \<Rightarrow> goals \<Rightarrow> cluster_view \<Rightarrow> mem_world sys \<Rightarrow> bool" where
  "memInv F goals v0 s \<longleftrightarrow> goodView goals (mwView (sysWorld s)) \<and> keeps v0 (mwView (sysWorld s))
     \<and> mwFaults (sysWorld s) = drop (length (sysCalls s)) F"

lemma keeps_refl [simp]: "keeps v v"
  by (simp add: keeps_def)

lemma keeps_trans: "keeps u v \<Longrightarrow> keeps v w \<Longrightarrow> keeps u w"
  unfolding keeps_def by (auto intro: map_le_trans)

lemma map_le_new: "m0 \<subseteq>\<^sub>m m \<Longrightarrow> m k = None \<Longrightarrow> m0 \<subseteq>\<^sub>m m(k \<mapsto> x)"
  unfolding map_le_def by (metis domI domIff fun_upd_apply option.distinct(1))

lemma keeps_writes:
  assumes "keeps v0 v"
  shows "\<not> stored obj v \<Longrightarrow> keeps v0 (storeObject obj avail v)"
    and "keeps v0 (storeObject (DeploymentObj d) avail v)"
    and "keeps v0 (v\<lparr>vwClusters := m\<rparr>)"
  using assms by (cases obj; auto simp: keeps_def storeObject_def intro: map_le_new)+

lemma goodView_writes:
  assumes "goodView goals v"
  shows "goodView goals (storeObject obj avail v)" and "goodView goals (removeObject obj v)"
  using assms viewOk_store [of v obj avail] viewOk_remove [of v obj]
  by (cases obj; simp add: goodView_def hasSpec_def storeObject_def)+

lemma goodView_status:
  assumes "goodView goals v" and "vwClusters v (keyOf (pc_ObjectMeta c)) = Some c0"
  shows "goodView goals (v\<lparr>vwClusters := (vwClusters v)
    (keyOf (pc_ObjectMeta c) \<mapsto> c0\<lparr>pc_Status := st\<rparr>)\<rparr>)"
  using assms viewOk_status [of v c c0 st]
  by (auto simp: goodView_def hasSpec_def ran_def split: if_splits)

lemma served_inv:
  assumes "memInv F goals v0 s" and "served onErr f (sysWorld s) = (r, w)"
    and "\<And>v. goodView goals v \<Longrightarrow> keeps v0 v \<Longrightarrow> goodView goals (snd (f v)) \<and> keeps v0 (snd (f v))"
  shows "memInv F goals v0 (after c w s)"
proof -
  have "mwView w \<in> {mwView (sysWorld s), snd (f (mwView (sysWorld s)))}"
    "mwFaults w = tl (mwFaults (sysWorld s))"
    using assms(2) by (auto simp: served_def split: list.splits option.splits prod.splits)
  then show ?thesis using assms(1,3) by (auto simp: memInv_def after_def tl_drop drop_Suc)
qed

lemma served_result:
  assumes "served Inl f w = (Inr x, w')"
  shows "fst (f (mwView w)) = Inr x"
  using assms by (auto simp: served_def split: list.splits option.splits prod.splits)

lemma memGet_inv:
  "memInv F goals v0 s \<Longrightarrow> memGet meta objs key (sysWorld s) = (r, w) \<Longrightarrow> memInv F goals v0 (after c w s)"
  unfolding memGet_def by (erule served_inv, assumption) simp

lemma memGet_found:
  "memGet meta objs key w = (Inr x, w') \<Longrightarrow> objs (mwView w) key = Some x"
  unfolding memGet_def by (drule served_result) (auto simp: lookupKey_def split: option.splits if_splits)

lemma memWrite_inv:
  assumes "memInv F goals v0 s"
  shows "memCreate obj (sysWorld s) = (e, w) \<Longrightarrow> memInv F goals v0 (after c w s)"
    and "memUpdate (DeploymentObj d) (sysWorld s) = (e, w) \<Longrightarrow> memInv F goals v0 (after c w s)"
    and "memStatusUpdate pc (sysWorld s) = (e, w) \<Longrightarrow> memInv F goals v0 (after c w s)"
  unfolding memCreate_def memUpdate_def memStatusUpdate_def
  by (erule served_inv [OF assms], simp add: goodView_writes goodView_status keeps_writes
      split: option.split)+

interpretation mem_faulty: sound_api memClient "memInv F goals v0" for F goals v0
proof unfold_locales
  fix s :: "mem_world sys"
  assume inv: "memInv F goals v0 s"
  then have good: "goodView goals (mwView (sysWorld s))" by (simp add: memInv_def)
  show "memInv F goals v0 (after (CallGet PrestoClusterKind key) w s)
      \<and> (\<forall>c. r = Inr c \<longrightarrow> spec_Workers (pc_Spec c) \<noteq> None)"
    if "clGetCluster memClient key (sysWorld s) = (r, w)" for key r w
    using that memGet_inv [OF inv] good
    by (auto simp: memClient_def goodView_def dest!: memGet_found intro: ranI)
  show "memInv F goals v0 (after (CallGet DeploymentKind key) w s)
      \<and> (\<forall>d. r = Inr d \<longrightarrow> depReplicas d \<noteq> None)"
    if "clGetDeployment memClient key (sysWorld s) = (r, w)" for key r w
    using that memGet_inv [OF inv] good
    by (auto simp: memClient_def goodView_def viewOk_def dest!: memGet_found intro: ranI)
  show "memInv F goals v0 (after (CallEvent pc t m i) (clEvent memClient pc t m i (sysWorld s)) s)" for pc t m i
    by (rule served_inv [OF inv, of "\<lambda>_. ()" "Pair ()" "()"]) (simp_all add: memClient_def prod_eq_iff)
qed (auto simp: memClient_def memGet_inv memWrite_inv)

subsection \<open>A world to run requests in\<close>

definition sampleView :: cluster_view where
  "sampleView = \<lparr>vwClusters = [keyOf (pc_ObjectMeta sampleCluster) \<mapsto> sampleCluster],
     vwConfigMaps = Map.empty, vwDeployments = Map.empty, vwServices = Map.empty\<rparr>"

definition sampleWorld :: "api_error option list \<Rightarrow> mem_world sys" where
  "sampleWorld faults = \<lparr>sysWorld = \<lparr>mwView = sampleView, mwFaults = faults\<rparr>, sysCalls = []\<rparr>"

definition sampleReq :: namespaced_name where
  "sampleReq = \<lparr>nn_Namespace = ''default'', nn_Name = ''presto''\<rparr>"

lemma sample_world:
  "mem.holding sampleView [] (sampleWorld [])"
  "vwClusters sampleView sampleReq = Some sampleCluster"
  "spec_Workers (pc_Spec sampleCluster) = Some 2"
  by (auto simp: mem.holding_def sampleWorld_def memCalm_def viewOk_def sampleView_def keyed_def
      sampleReq_def sampleCluster_def)

end
