(* ===== verification/Requests.thy ===== *)
theory Requests
  imports MemServer
begin

text \<open>
  The properties of one request: what the inspection reads, what the reconciler writes, what the
  status updater reports, and what a whole run may do to the cluster, for every client or for
  every client that keeps the stated documentation. Witnesses run against the server in memory.
\<close>

subsection \<open>Runs on the sample store\<close>

lemma sample_inspect:
  obtains s1 where "inspect std_env memClient sampleReq emptyInspected (sampleWorld [])
      = (Done (None, inspectedView sampleView sampleReq), s1)"
    and "mem.holding sampleView (inspectCalls sampleReq) s1"
  using landsE [OF mem.inspect_lands [OF std_env_ok sample_world(1), of sampleReq]]
  by (metis append_Nil)

lemma sample_ins:
  "ins_cluster (inspectedView sampleView sampleReq) = Some sampleCluster"
  "ins_prestoConfigMap (inspectedView sampleView sampleReq) = None"
  "ins_catalogConfigMap (inspectedView sampleView sampleReq) = None"
  "ins_coordinatorDeployment (inspectedView sampleView sampleReq) = None"
  "ins_coordinatorService (inspectedView sampleView sampleReq) = None"
  "ins_workerDeployment (inspectedView sampleView sampleReq) = None"
  by (simp_all add: inspectedView_def sample_world Let_def) (simp_all add: sampleView_def)

subsection \<open>The inspection\<close>

text \<open>C22: an inspection returns, issues its six reads in order and nothing else, and stops early only
  to return an error, which is never a NotFound: absence of an object is not a failure.\<close>

theorem inspection_reads_in_order:
  assumes "env_ok env"
  shows "\<exists>err ins s' n. inspect env cl req inspected s = (Done (err, ins), s')
    \<and> sysCalls s' = sysCalls s @ take n (inspectCalls req)
    \<and> (err = None \<longrightarrow> n = length (inspectCalls req)) \<and> (\<forall>e. err = Some e \<longrightarrow> \<not> isNotFound e)"
proof -
  obtain x s' n where x: "inspect env cl req inspected s = (Done x, s')"
    "sysCalls s' = sysCalls s @ take n (inspectCalls req)"
    "if inspectFailed x then 0 < n else n = length (inspectCalls req)"
    using followsE [OF inspect_follows [OF assms]] by metis
  obtain err ins where p: "x = (err, ins)" by fastforce
  have "hardError err" using yieldsD [OF inspect_hardError [OF assms] x(1)] p by simp
  then show ?thesis using x p by (auto simp: hardError_def split: if_splits option.splits)
qed

theorem inspection_reads_in_order_witness:
  "\<exists>err ins s'. inspect std_env memClient sampleReq emptyInspected (sampleWorld [None, Some (OtherError [])])
     = (Done (err, ins), s') \<and> (\<exists>n. sysCalls s' = take n (inspectCalls sampleReq))"
  using inspection_reads_in_order [OF std_env_ok, of memClient sampleReq emptyInspected
      "sampleWorld [None, Some (OtherError [])]"]
  by (auto simp: sampleWorld_def)

text \<open>C23: against a server that answers as documented and does not fail, an inspection finds exactly
  what is stored under the keys of the cluster and of its children, and changes nothing.\<close>

theorem inspection_finds_the_store:
  assumes "env_ok env" and "api_server cl calm view" and "calm (sysWorld s)"
  shows "\<exists>s'. inspect env cl req emptyInspected s
      = (Done (None, inspectedView (view (sysWorld s)) req), s') \<and> view (sysWorld s') = view (sysWorld s)"
proof -
  have "api_server.holding calm view (view (sysWorld s)) (sysCalls s) s"
    using assms(3) by (simp add: api_server.holding_def [OF assms(2)])
  from landsE [OF api_server.inspect_lands [OF assms(2,1) this, of req]] show ?thesis
    by (metis api_server.holding_def [OF assms(2)])
qed

theorem inspection_finds_the_store_witness:
  "\<exists>s'. inspect std_env memClient sampleReq emptyInspected (sampleWorld [])
      = (Done (None, inspectedView sampleView sampleReq), s')"
  using inspection_finds_the_store [OF std_env_ok mem.api_server_axioms, of "sampleWorld []" sampleReq]
    sample_world(1) by (auto simp: mem.holding_def)

subsection \<open>The reconciler\<close>



text \<open>C25: reconciling a deployment panics exactly when a wanted one is compared with an existing one
  and either lacks its replica count.\<close>

theorem deployment_panics_iff:
  "fst (reconcileDeployment r want seen s) = Panicked \<longleftrightarrow>
     (\<exists>d i. want = Some d \<and> seen = Some i \<and> (depReplicas d = None \<or> depReplicas i = None))"
proof (cases want; cases seen)
  fix d i
  assume ds: "want = Some d" "seen = Some i"
  show ?thesis
  proof (cases "depReplicas d = None \<or> depReplicas i = None")
    case True
    then show ?thesis using ds by (auto simp: reconcileDeployment_nil panic_def)
  next
    case False
    then show ?thesis using ds
      by (auto simp: reconcileDeployment_def updateDeployment_def update_def apiCall_def ret_run
          split: prod.splits if_splits)
  qed
qed (simp_all add: reconcileDeployment_def createDeployment_def deleteDeployment_def create_def
    delete_def apiCall_def bindP_def ret_def split: prod.split)

lemma delete_mem:
  assumes "env_ok env" and "mwFaults (sysWorld s) = []"
  shows "\<exists>s'. bindP (delete memClient obj) (\<lambda>err. ret (IgnoreNotFound env err)) s = (Done None, s')
    \<and> \<not> stored obj (mwView (sysWorld s'))"
proof -
  have "\<not> stored obj (removeObject obj v)" for v by (cases obj) simp_all
  then show ?thesis
    using assms by (simp add: delete_def apiCall_def bindP_def ret_def memClient_def memDelete_def
        served_calm absent_def env_ok_ignore)
qed



subsection \<open>The status updater\<close>

text \<open>C26: a status update reads the worker deployment, writes the status exactly when the available
  workers changed, records an event exactly when that write succeeded, and asks for another run,
  five seconds later, exactly when it succeeds without the wanted number of workers.\<close>

theorem status_update_outcome:
  fixes u :: "'w cluster_status_updater" and s :: "'w sys"
  assumes "env_ok (upd_env u)" and "ins_cluster (upd_inspected u) = Some c"
    and "spec_Workers (pc_Spec c) = Some wanted"
    and "clGetDeployment (upd_k8sClient u)
      \<lparr>nn_Namespace = ns, nn_Name = getWorkerDeploymentName name\<rparr> (sysWorld s) = (r, w)"
  shows "\<exists>res err s' ws. updatePrestoClusterStatus u name ns s = (Done (res, err), s')
    \<and> sysCalls s' = sysCalls s @ CallGet DeploymentKind
        \<lparr>nn_Namespace = ns, nn_Name = getWorkerDeploymentName name\<rparr> # ws
    \<and> (ws = [] \<longleftrightarrow> availableOf r = status_AvailableWorkers (pc_Status c))
    \<and> (ws \<noteq> [] \<longrightarrow> hd ws = CallStatusUpdate (c\<lparr>pc_Status := \<lparr>status_AvailableWorkers = availableOf r\<rparr>\<rparr>)
        \<and> (tl ws = [] \<longleftrightarrow> err \<noteq> None)
        \<and> (err = None \<longrightarrow> (\<exists>msg. tl ws = [CallEvent c ''Normal'' ''workers counts update'' msg])))
    \<and> (if err = None \<and> availableOf r \<noteq> wanted
       then res = \<lparr>res_Requeue = True, res_RequeueAfter = 5000000000\<rparr> else res = emptyResult)"
  unfolding updatePrestoClusterStatus_run [OF assms refl] Let_def
  by (cases "clStatusUpdate (upd_k8sClient u)
        (c\<lparr>pc_Status := \<lparr>status_AvailableWorkers = availableOf r\<rparr>\<rparr>) w";
      cases "fst (clStatusUpdate (upd_k8sClient u)
        (c\<lparr>pc_Status := \<lparr>status_AvailableWorkers = availableOf r\<rparr>\<rparr>) w)";
      cases "availableOf r = wanted"; cases "availableOf r = status_AvailableWorkers (pc_Status c)")
    (simp_all add: requeueUnless_def second_def)

theorem status_update_outcome_witness:
  "\<exists>res err s'. updatePrestoClusterStatus (requestUpdater std_env memClient
       (inspectedView sampleView sampleReq)) ''presto'' ''default'' (sampleWorld []) = (Done (res, err), s')
     \<and> (if err = None then res_Requeue res else res = emptyResult)"
proof -
  let ?u = "requestUpdater std_env memClient (inspectedView sampleView sampleReq)"
  obtain r w where g: "clGetDeployment (upd_k8sClient ?u)
      \<lparr>nn_Namespace = ''default'', nn_Name = getWorkerDeploymentName ''presto''\<rparr> (sysWorld (sampleWorld []))
    = (r, w)" and r: "availableOf r = 0"
    by (auto simp: memClient_def memGet_def lookupKey_def served_def sampleWorld_def sampleView_def
        availableOf_def)
  show ?thesis
    using status_update_outcome [of ?u, OF _ _ sample_world(3) g] r std_env_ok
    by (fastforce simp: sample_ins split: if_splits)
qed

text \<open>C28: a failed read of the worker deployment is not told apart from a deployment without pods:
  whatever the error, a cluster whose status says otherwise is reported to have 0 workers.\<close>

theorem read_failure_reported_as_no_workers:
  fixes u :: "'w cluster_status_updater" and s :: "'w sys"
  assumes "env_ok (upd_env u)" and "ins_cluster (upd_inspected u) = Some c"
    and "spec_Workers (pc_Spec c) = Some wanted" and "status_AvailableWorkers (pc_Status c) \<noteq> 0"
    and "clGetDeployment (upd_k8sClient u)
      \<lparr>nn_Namespace = ns, nn_Name = getWorkerDeploymentName name\<rparr> (sysWorld s) = (Inl e, w)"
  shows "CallStatusUpdate (c\<lparr>pc_Status := \<lparr>status_AvailableWorkers = 0\<rparr>\<rparr>)
    \<in> set (sysCalls (snd (updatePrestoClusterStatus u name ns s)))"
  unfolding updatePrestoClusterStatus_run [OF assms(1,2,3,5) refl] Let_def
  using assms(4) by (auto simp: availableOf_def split: prod.split option.split)

text \<open>The sample cluster with workers available, as a request finds it.\<close>

definition busyCluster :: presto_cluster where
  "busyCluster = sampleCluster\<lparr>pc_Status := \<lparr>status_AvailableWorkers = 2\<rparr>\<rparr>"

theorem read_failure_reported_as_no_workers_witness:
  "CallStatusUpdate sampleCluster \<in> set (sysCalls (snd (updatePrestoClusterStatus
     (requestUpdater std_env memClient (emptyInspected\<lparr>ins_cluster := Some busyCluster\<rparr>))
     ''presto'' ''default'' (sampleWorld [Some (OtherError ''timeout'')]))))"
proof -
  let ?u = "requestUpdater std_env memClient (emptyInspected\<lparr>ins_cluster := Some busyCluster\<rparr>)"
  have get: "clGetDeployment (upd_k8sClient ?u)
      \<lparr>nn_Namespace = ''default'', nn_Name = getWorkerDeploymentName ''presto''\<rparr>
      (sysWorld (sampleWorld [Some (OtherError ''timeout'')]))
    = (Inl (OtherError ''timeout''), \<lparr>mwView = sampleView, mwFaults = []\<rparr>)"
    by (simp add: memClient_def memGet_def served_def sampleWorld_def)
  have c: "busyCluster\<lparr>pc_Status := \<lparr>status_AvailableWorkers = 0\<rparr>\<rparr> = sampleCluster"
    "spec_Workers (pc_Spec busyCluster) = Some 2" "status_AvailableWorkers (pc_Status busyCluster) \<noteq> 0"
    by (simp_all add: busyCluster_def sampleCluster_def)
  show ?thesis
    using read_failure_reported_as_no_workers [of ?u, OF _ _ c(2,3) get] std_env_ok c(1) by simp
qed

subsection \<open>A whole run\<close>

text \<open>C3: every call of a run is one the operator may make for that request: reads of the cluster and
  of its five children, creations of these children, updates of its two deployments, writes of its
  own status and events on it; what it creates or updates is what the code desires for a cluster of
  that name. A run deletes nothing and touches no other cluster's objects.\<close>

theorem run_makes_allowed_calls_only:
  assumes "env_ok env" and "getKeyed cl" and "Reconcile env cl req s = (r, s')"
  shows "\<exists>cs. sysCalls s' = sysCalls s @ cs \<and> list_all (allowedCall req) cs
    \<and> list_all (runCall env req) cs \<and> (\<forall>obj. CallDelete obj \<notin> set cs)"
proof -
  obtain cs where "sysCalls s' = sysCalls s @ cs" "list_all (runCall env req) cs"
    by (rule emitsE [OF Reconcile_emits_runCall [OF assms(1,2)] assms(3)])
  then show ?thesis using runCall_allowed [OF assms(1)] by (fastforce simp: list_all_iff)
qed

theorem run_makes_allowed_calls_only_witness:
  "list_all (allowedCall sampleReq) (sysCalls (snd (Reconcile std_env memClient sampleReq (sampleWorld []))))"
  using run_makes_allowed_calls_only [OF std_env_ok memClient_keyed, of sampleReq "sampleWorld []"]
  by (cases "Reconcile std_env memClient sampleReq (sampleWorld [])") (force simp: sampleWorld_def)

text \<open>C10: runs for two different requests never write the same object, whatever the names of the two
  clusters: the five naming functions keep the children of all clusters apart.\<close>

theorem requests_write_disjoint_objects:
  assumes "env_ok env" and "getKeyed cl" and "req1 \<noteq> req2"
    and "Reconcile env cl req1 s = (r1, s1)" and "sysCalls s1 = sysCalls s @ cs1"
    and "Reconcile env cl req2 t = (r2, t1)" and "sysCalls t1 = sysCalls t @ cs2"
    and "c1 \<in> set cs1" and "c2 \<in> set cs2" and "writeTarget c1 = Some target"
  shows "writeTarget c2 \<noteq> Some target"
proof -
  have "list_all (allowedCall req1) cs1"
    by (rule emitsE [OF Reconcile_emits_allowed [OF assms(1,2)] assms(4)]) (use assms(5) in simp)
  moreover have "list_all (allowedCall req2) cs2"
    by (rule emitsE [OF Reconcile_emits_allowed [OF assms(1,2)] assms(6)]) (use assms(7) in simp)
  ultimately have "allowedCall req1 c1" "allowedCall req2 c2" using assms(8,9) by (simp_all add: list_all_iff)
  then show ?thesis
    using childKeys_owner [of target req1 req2] allowedCall_target [of _ _ target] assms(3,10) by blast
qed

theorem requests_write_disjoint_objects_witness:
  "\<exists>cs1 cs2. sysCalls (snd (Reconcile std_env memClient sampleReq (sampleWorld []))) = cs1
     \<and> sysCalls (snd (Reconcile std_env memClient (sampleReq\<lparr>nn_Name := ''presto-worker''\<rparr>) (sampleWorld []))) = cs2
     \<and> (\<forall>c1 \<in> set cs1. \<forall>c2 \<in> set cs2. writeTarget c1 \<noteq> None \<longrightarrow> writeTarget c1 \<noteq> writeTarget c2)"
proof -
  let ?req = "sampleReq\<lparr>nn_Name := ''presto-worker''\<rparr>"
  obtain r1 s1 where s1: "Reconcile std_env memClient sampleReq (sampleWorld []) = (r1, s1)" by fastforce
  obtain r2 s2 where s2: "Reconcile std_env memClient ?req (sampleWorld []) = (r2, s2)" by fastforce
  have "sampleReq \<noteq> ?req" by (simp add: sampleReq_def)
  note apart = requests_write_disjoint_objects [OF std_env_ok memClient_keyed this s1 _ s2]
  have "sysCalls s1 = sysCalls (sampleWorld []) @ sysCalls s1"
    "sysCalls s2 = sysCalls (sampleWorld []) @ sysCalls s2" by (simp_all add: sampleWorld_def)
  with apart s1 s2 show ?thesis by fastforce
qed

text \<open>C4: a run never panics, whichever calls fail: against a server that only hands out validated
  objects (a cluster has its \<open>workers\<close>, a deployment its replica count) it returns, and it keeps every
  invariant the server's operations keep.\<close>

theorem run_never_panics:
  assumes "sound_api cl invar" and "invar s"
  shows "\<exists>x s'. Reconcile env cl req s = (Done x, s') \<and> invar s'"
  using sound_api.safeD [OF assms(1) sound_api.safe_Reconcile [OF assms(1)] assms(2), of env req]
  by (auto simp: lands_def)

lemma sample_inv: "memInv faults [(sampleReq, pc_Spec sampleCluster)] sampleView (sampleWorld faults)"
  using sample_world(1)
  by (auto simp: memInv_def goodView_def hasSpec_def sampleWorld_def mem.holding_def memCalm_def sample_world)
    (auto simp: sampleView_def sample_world)

theorem run_never_panics_witness:
  "\<exists>x s'. Reconcile std_env memClient sampleReq (sampleWorld [None, Some (OtherError ''timeout'')])
     = (Done x, s')"
  using run_never_panics [OF mem_faulty.sound_api_axioms sample_inv] by blast

text \<open>An error of the inspection is returned, and nothing has been written by then.\<close>

lemma failed_inspection_is_reported:
  assumes "env_ok env" and "inspect env cl req emptyInspected s = (Done (Some e, ins), s1)"
  shows "Reconcile env cl req s = (Done (emptyResult, Some e), s1)
    \<and> (\<exists>cs. sysCalls s1 = sysCalls s @ cs \<and> list_all isGet cs)"
proof -
  have "emits isGet (inspect env cl req emptyInspected)"
    by (rule emits_mono [OF inspect_emits [OF assms(1)]]) (auto simp: inspectCalls_def Let_def)
  from emitsE [OF this assms(2)] show ?thesis
    using Reconcile_run [OF assms(2)] by auto
qed

lemma sample_failing_read:
  "inspect std_env memClient sampleReq emptyInspected (sampleWorld [Some (OtherError ''timeout'')])
    = (Done (Some (OtherError ''timeout''), emptyInspected),
       \<lparr>sysWorld = \<lparr>mwView = sampleView, mwFaults = []\<rparr>, sysCalls = [CallGet PrestoClusterKind sampleReq]\<rparr>)"
  by (simp add: inspect_def inspectStep_def inspectCluster_def getCluster_def apiCall_def bindP_def
      memClient_def memGet_def served_def sampleWorld_def std_env_def ret_def)

lemma failed_inspection_is_reported_witness:
  "fst (Reconcile std_env memClient sampleReq (sampleWorld [Some (OtherError ''timeout'')]))
     = Done (emptyResult, Some (OtherError ''timeout''))"
  using failed_inspection_is_reported [OF std_env_ok sample_failing_read] by simp



text \<open>C5: an error of the reconciler is lost: when the creation of the first config map fails and the
  worker deployment shows the workers the status and the specification name (none at all, say),
  the run stops there, creates nothing else, and still returns an empty result without an error, so
  that the request is not tried again.\<close>

theorem failed_creation_is_not_retried:
  assumes "env_ok env" and "inspect env cl req emptyInspected s = (Done (None, ins), s1)"
    and "ins_cluster ins = Some c" and "ins_prestoConfigMap ins = None"
    and "clCreate cl (ConfigMapObj (getDesiredPrestoConfigMap env c)) (sysWorld s1) = (Some e, w2)"
    and "clGetDeployment cl (childKey req getWorkerDeploymentName) w2 = (r, w3)"
    and "spec_Workers (pc_Spec c) = Some (availableOf r)"
    and "status_AvailableWorkers (pc_Status c) = availableOf r"
  shows "Reconcile env cl req s = (Done (emptyResult, None), \<lparr>sysWorld = w3, sysCalls = sysCalls s1 @
      [CallCreate (ConfigMapObj (getDesiredPrestoConfigMap env c)),
       CallGet DeploymentKind (childKey req getWorkerDeploymentName)]\<rparr>)"
proof -
  let ?r = "requestReconciler env cl ins" and ?u = "requestUpdater env cl ins"
  let ?call = "CallCreate (ConfigMapObj (getDesiredPrestoConfigMap env c))"
  have want: "des_PrestoConfigMap (rec_desired ?r) = Some (getDesiredPrestoConfigMap env c)"
    using assms(3) by (simp add: desired_Some)
  have "reconcilePrestoConfigMap ?r s1 = (Done (Some e), after ?call w2 s1)"
    using presto_map.create_missing [OF want] assms(4,5)
    by (simp add: create_def apiCall_def after_def)
  then have rec: "reconcile ?r s1 = (Done (emptyResult, Some e), after ?call w2 s1)"
    using assms(3) by (simp add: reconcile_def orReturn_Some ret_def)
  have get: "clGetDeployment (upd_k8sClient ?u) (childKey req getWorkerDeploymentName)
      (sysWorld (after ?call w2 s1)) = (r, w3)"
    using assms(6) by (simp add: after_def)
  have "Reconcile env cl req s = updatePrestoClusterStatus ?u (nn_Name req) (nn_Namespace req)
      (after ?call w2 s1)"
    using Reconcile_run [OF assms(2)] rec assms(3) by simp
  also have "\<dots> = (Done (emptyResult, None), \<lparr>sysWorld = w3, sysCalls = sysCalls s1 @
      [?call, CallGet DeploymentKind (childKey req getWorkerDeploymentName)]\<rparr>)"
    using updatePrestoClusterStatus_run [of ?u c, OF _ _ assms(7) get refl] assms(1,3,8)
    by (simp add: Let_def requeueUnless_def after_def)
  finally show ?thesis .
qed

text \<open>The sample cluster scaled to no workers; every call works but the first creation.\<close>

definition idleCluster :: presto_cluster where
  "idleCluster = sampleCluster\<lparr>pc_Spec := (pc_Spec sampleCluster)\<lparr>spec_Workers := Some 0\<rparr>\<rparr>"

definition idleWorld :: "mem_world sys" where
  "idleWorld = \<lparr>sysWorld = \<lparr>mwView = sampleView\<lparr>vwClusters := [sampleReq \<mapsto> idleCluster]\<rparr>,
     mwFaults = replicate 6 None @ [Some (OtherError ''timeout'')]\<rparr>, sysCalls = []\<rparr>"

lemma idle_inspect:
  "inspect std_env memClient sampleReq emptyInspected idleWorld
    = (Done (None, emptyInspected\<lparr>ins_cluster := Some idleCluster\<rparr>),
       \<lparr>sysWorld = \<lparr>mwView = sampleView\<lparr>vwClusters := [sampleReq \<mapsto> idleCluster]\<rparr>,
          mwFaults = [Some (OtherError ''timeout'')]\<rparr>, sysCalls = inspectCalls sampleReq\<rparr>)"
proof -
  have key: "keyOf (pc_ObjectMeta idleCluster) = sampleReq"
    by (simp add: idleCluster_def sampleCluster_def sampleReq_def)
  have "IgnoreNotFound std_env (Some (absent k)) = None" for k
    by (simp add: absent_def env_ok_ignore [OF std_env_ok])
  then show ?thesis
    using key
    by (simp add: inspect_def inspectStep_def inspector_call_defs call_defs apiCall_def bindP_def
      memClient_def memGet_def lookupKey_def served_def idleWorld_def sampleView_def ret_def
      inspectCalls_def Let_def emptyInspected_def eval_nat_numeral
      getCatalogConfigMapName_def getPrestoConfigMapName_def)
qed

theorem failed_creation_is_not_retried_witness:
  "let (x, s') = Reconcile std_env memClient sampleReq idleWorld
   in x = Done (emptyResult, None) \<and> vwConfigMaps (mwView (sysWorld s')) = Map.empty
      \<and> vwDeployments (mwView (sysWorld s')) = Map.empty"
proof -
  let ?v = "sampleView\<lparr>vwClusters := [sampleReq \<mapsto> idleCluster]\<rparr>"
  note run = failed_creation_is_not_retried [OF std_env_ok idle_inspect, of idleCluster
      "OtherError ''timeout''" "\<lparr>mwView = ?v, mwFaults = []\<rparr>"
      "Inl (absent (childKey sampleReq getWorkerDeploymentName))" "\<lparr>mwView = ?v, mwFaults = []\<rparr>"]
  show ?thesis
    by (subst run)
      (simp_all add: emptyInspected_def memClient_def memCreate_def memGet_def lookupKey_def served_def
        sampleView_def availableOf_def idleCluster_def sampleCluster_def)
qed

end
