(* ===== verification/Convergence.thy ===== *)
theory Convergence
  imports Requests
begin

text \<open>
  What repeated runs achieve. Against a server that answers as documented, one run brings the
  store to the desired state and a second one only reads. Against the server in memory, whatever
  finite schedule of faults it has, as many runs as there are faults, and one more, settle the
  request.
\<close>

text \<open>C1: one run against a server that does not fail brings the store to the desired state: the five
  children exist, those it had to create with the desired data, the deployments have the wanted
  replicas, existing config maps and services are untouched, the status shows the available
  workers, and nothing else changes; the result asks for another run unless all workers are
  available.\<close>

theorem run_converges:
  assumes "env_ok env" and "api_server cl calm view" and "calm (sysWorld s)"
    and "vwClusters (view (sysWorld s)) req = Some c" and "spec_Workers (pc_Spec c) = Some n"
  shows "\<exists>s' wd. Reconcile env cl req s = (Done (requeueUnless (dep_AvailableReplicas wd = n), None), s')
    \<and> calm (sysWorld s') \<and> converges env c n (view (sysWorld s)) (view (sysWorld s'))
    \<and> vwClusters (view (sysWorld s')) = (vwClusters (view (sysWorld s)))(req \<mapsto> c\<lparr>pc_Status :=
        \<lparr>status_AvailableWorkers = dep_AvailableReplicas wd\<rparr>\<rparr>)
    \<and> settled req n wd (view (sysWorld s'))"
proof -
  note holding = api_server.holding_def [OF assms(2)]
  have "api_server.holding calm view (view (sysWorld s)) (sysCalls s) s"
    using assms(3) by (simp add: holding)
  from api_server.Reconcile_lands [OF assms(2,1) this assms(4,5)] show ?thesis
    unfolding lands_def holding by blast
qed

theorem run_converges_witness:
  "\<exists>s' wd. Reconcile std_env memClient sampleReq (sampleWorld [])
      = (Done (requeueUnless (dep_AvailableReplicas wd = 2), None), s')
    \<and> settled sampleReq 2 wd (mwView (sysWorld s'))"
  using run_converges [OF std_env_ok mem.api_server_axioms, of "sampleWorld []" sampleReq sampleCluster 2]
    sample_world by (auto simp: mem.holding_def)

text \<open>C6: once settled, a run only reads: it makes the six reads of the inspection and the read of the
  status update, changes nothing, and its result depends on the available workers alone.\<close>

theorem settled_run_only_reads:
  assumes "env_ok env" and "api_server cl calm view" and "calm (sysWorld s)"
    and "settled req n wd (view (sysWorld s))"
  shows "\<exists>s'. Reconcile env cl req s = (Done (requeueUnless (dep_AvailableReplicas wd = n), None), s')
    \<and> view (sysWorld s') = view (sysWorld s)
    \<and> sysCalls s' = sysCalls s @ inspectCalls req
        @ [CallGet DeploymentKind (childKey req getWorkerDeploymentName)]"
proof -
  note holding = api_server.holding_def [OF assms(2)]
  have "api_server.holding calm view (view (sysWorld s)) (sysCalls s) s"
    using assms(3) by (simp add: holding)
  from api_server.Reconcile_settled [OF assms(2,1) this assms(4)] show ?thesis
    unfolding lands_def holding by auto
qed

theorem settled_run_only_reads_witness:
  "\<exists>s s' wd. settled sampleReq 2 wd (mwView (sysWorld s))
    \<and> Reconcile std_env memClient sampleReq s
        = (Done (requeueUnless (dep_AvailableReplicas wd = 2), None), s')
    \<and> mwView (sysWorld s') = mwView (sysWorld s)"
proof -
  obtain s :: "mem_world sys" and wd where s: "memCalm (sysWorld s)" "settled sampleReq 2 wd (mwView (sysWorld s))"
    using mem.Reconcile_lands [OF std_env_ok sample_world] by (auto simp: lands_def mem.holding_def)
  obtain s' where "Reconcile std_env memClient sampleReq s
      = (Done (requeueUnless (dep_AvailableReplicas wd = 2), None), s')"
    "mwView (sysWorld s') = mwView (sysWorld s)"
    using settled_run_only_reads [OF std_env_ok mem.api_server_axioms s] by metis
  with s(2) show ?thesis by (intro exI conjI)
qed

text \<open>C11: handling another request leaves a settled cluster settled: the children, the replicas and the
  status of a cluster are out of reach of the runs for every other cluster.\<close>

theorem other_requests_leave_settled:
  assumes "env_ok env" and "api_server cl calm view" and "calm (sysWorld s)"
    and "settled req n wd (view (sysWorld s))" and "req' \<noteq> req"
    and "vwClusters (view (sysWorld s)) req' = Some c" and "spec_Workers (pc_Spec c) = Some m"
  shows "\<exists>x s'. Reconcile env cl req' s = (Done x, s') \<and> settled req n wd (view (sysWorld s'))"
proof -
  note holding = api_server.holding_def [OF assms(2)]
  have h: "api_server.holding calm view (view (sysWorld s)) (sysCalls s) s"
    using assms(3) by (simp add: holding)
  have key: "keyOf (pc_ObjectMeta c) = req'"
    by (rule api_server.cluster_keyed [OF assms(2,3,6)])
  obtain x s' where run: "Reconcile env cl req' s = (Done x, s')"
    and v': "converges env c m (view (sysWorld s)) (view (sysWorld s'))"
      "\<exists>y. vwClusters (view (sysWorld s')) = (vwClusters (view (sysWorld s)))(req' \<mapsto> y)"
    using landsE [OF api_server.Reconcile_lands [OF assms(2,1) h assms(6,7)]] unfolding holding by metis
  then have "settled req n wd (view (sysWorld s'))"
    using settled_undisturbed [OF assms(4) v'(1)] key assms(5) by auto
  with run show ?thesis by blast
qed

text \<open>A store with a second cluster.\<close>

definition otherCluster :: presto_cluster where
  "otherCluster = sampleCluster\<lparr>pc_ObjectMeta := (pc_ObjectMeta sampleCluster)\<lparr>om_Name := ''other''\<rparr>\<rparr>"

definition twoWorld :: "mem_world sys" where
  "twoWorld = \<lparr>sysWorld = \<lparr>mwView = sampleView\<lparr>vwClusters := (vwClusters sampleView)
     (sampleReq\<lparr>nn_Name := ''other''\<rparr> \<mapsto> otherCluster)\<rparr>, mwFaults = []\<rparr>, sysCalls = []\<rparr>"

lemma two_world:
  "mem.holding (mwView (sysWorld twoWorld)) [] twoWorld"
  "vwClusters (mwView (sysWorld twoWorld)) sampleReq = Some sampleCluster"
  "vwClusters (mwView (sysWorld twoWorld)) (sampleReq\<lparr>nn_Name := ''other''\<rparr>) = Some otherCluster"
  "spec_Workers (pc_Spec otherCluster) = Some 2" "sampleReq\<lparr>nn_Name := ''other''\<rparr> \<noteq> sampleReq"
  by (auto simp: mem.holding_def twoWorld_def memCalm_def viewOk_def sampleView_def keyed_def
      sampleReq_def otherCluster_def sampleCluster_def)

theorem other_requests_leave_settled_witness:
  "\<exists>wd x s'. Reconcile std_env memClient (sampleReq\<lparr>nn_Name := ''other''\<rparr>)
      (snd (Reconcile std_env memClient sampleReq twoWorld)) = (Done x, s')
    \<and> settled sampleReq 2 wd (mwView (sysWorld s'))"
proof -
  obtain x s wd where s: "Reconcile std_env memClient sampleReq twoWorld = (Done x, s)"
    "memCalm (sysWorld s)" "settled sampleReq 2 wd (mwView (sysWorld s))"
    "vwClusters (mwView (sysWorld s)) (sampleReq\<lparr>nn_Name := ''other''\<rparr>) = Some otherCluster"
    using mem.Reconcile_lands [OF std_env_ok two_world(1,2) sample_world(3)] two_world(3,5)
    by (auto simp: lands_def mem.holding_def)
  from other_requests_leave_settled [OF std_env_ok mem.api_server_axioms s(2,3) two_world(5) s(4) two_world(4)]
  show ?thesis using s(1) by auto
qed

subsection \<open>Repeated runs under faults\<close>

text \<open>The request handled \<open>k\<close> times, whatever the results.\<close>

fun runs :: "runtime_env \<Rightarrow> 'w client \<Rightarrow> namespaced_name \<Rightarrow> nat \<Rightarrow> 'w sys \<Rightarrow> 'w sys" where
  "runs env cl req 0 s = s"
| "runs env cl req (Suc k) s = runs env cl req k (snd (Reconcile env cl req s))"

lemma calm_runs_settle:
  assumes env: "env_ok env" and s: "memCalm (sysWorld s)"
    and c: "vwClusters (mwView (sysWorld s)) req = Some c" "spec_Workers (pc_Spec c) = Some n"
  shows "\<exists>wd. memCalm (sysWorld (runs env memClient req (Suc k) s))
    \<and> settled req n wd (mwView (sysWorld (runs env memClient req (Suc k) s)))"
  using s c
proof (induction k arbitrary: s c)
  case 0
  then show ?case
    using mem.Reconcile_lands [OF env, of "mwView (sysWorld s)" "sysCalls s" s req c n]
    by (auto simp: lands_def mem.holding_def)
next
  case (Suc k)
  obtain x s' wd where s': "Reconcile env memClient req s = (x, s')" "memCalm (sysWorld s')"
    "settled req n wd (mwView (sysWorld s'))"
    using mem.Reconcile_lands [OF env, of "mwView (sysWorld s)" "sysCalls s" s req c n] Suc.prems
    by (auto simp: lands_def mem.holding_def)
  then obtain c' where "vwClusters (mwView (sysWorld s')) req = Some c'" "spec_Workers (pc_Spec c') = Some n"
    by (auto simp: settled_def)
  from Suc.IH [OF s'(2) this] show ?case using s'(1) by simp
qed

text \<open>A run uses up a fault, if there is one.\<close>

lemma run_uses_fault:
  assumes env: "env_ok env" and good: "goodView goals (mwView (sysWorld s))"
  obtains x s' m where "Reconcile env memClient req s = (Done x, s')"
    and "goodView goals (mwView (sysWorld s'))" and "mwFaults (sysWorld s') = drop (Suc m) (mwFaults (sysWorld s))"
    and "keeps (mwView (sysWorld s)) (mwView (sysWorld s'))"
proof -
  let ?F = "replicate (length (sysCalls s)) None @ mwFaults (sysWorld s)"
  have "memInv ?F goals (mwView (sysWorld s)) s" using good by (simp add: memInv_def)
  then obtain x s' where run: "Reconcile env memClient req s = (Done x, s')" and inv: "memInv ?F goals (mwView (sysWorld s)) s'"
    using mem_faulty.safeD [OF mem_faulty.safe_Reconcile, of ?F goals "mwView (sysWorld s)" s env req] by (auto simp: lands_def)
  obtain cs where cs: "sysCalls s' = sysCalls s @ cs" "cs \<noteq> []" by (rule Reconcile_calls [OF env run])
  then obtain m where "length cs = Suc m" by (cases cs) auto
  then show thesis using that [OF run] inv cs by (simp add: memInv_def)
qed

text \<open>Requests handled one after the other.\<close>

fun handleAll :: "runtime_env \<Rightarrow> 'w client \<Rightarrow> namespaced_name list \<Rightarrow> 'w sys \<Rightarrow> 'w sys" where
  "handleAll env cl [] s = s"
| "handleAll env cl (req # reqs) s = handleAll env cl reqs (snd (Reconcile env cl req s))"


text \<open>A user has put a config map of their own where the operator keeps the catalog.\<close>

definition userMap :: config_map where
  "userMap = \<lparr>cm_ObjectMeta = zeroObjectMeta\<lparr>om_Name := ''presto-catalog-configmap'',
     om_Namespace := ''default''\<rparr>, cm_Data = Some (fmap_of_list [(''hive.properties'', ''mine'')])\<rparr>"

definition editedWorld :: "mem_world sys" where
  "editedWorld = \<lparr>sysWorld = \<lparr>mwView = sampleView\<lparr>vwConfigMaps :=
     [keyOf (cm_ObjectMeta userMap) \<mapsto> userMap]\<rparr>, mwFaults = []\<rparr>, sysCalls = []\<rparr>"


lemma finite_runs_settle:
  assumes "env_ok env" and "goodView [(req, sp)] (mwView (sysWorld s))" and "spec_Workers sp = Some n"
    and "length (mwFaults (sysWorld s)) \<le> k"
  shows "\<exists>wd. settled req n wd (mwView (sysWorld (runs env memClient req (Suc k) s)))"
  using assms(2,4)
proof (induction k arbitrary: s)
  case 0
  then have "memCalm (sysWorld s)" by (simp add: memCalm_def goodView_def)
  moreover obtain c where "vwClusters (mwView (sysWorld s)) req = Some c" "pc_Spec c = sp"
    using "0.prems" by (auto simp: goodView_def hasSpec_def)
  ultimately show ?case using calm_runs_settle [OF assms(1), of s req c n 0] assms(3) by blast
next
  case (Suc k)
  obtain x s' m where s': "Reconcile env memClient req s = (Done x, s')"
    "goodView [(req, sp)] (mwView (sysWorld s'))" "mwFaults (sysWorld s') = drop (Suc m) (mwFaults (sysWorld s))"
    by (rule run_uses_fault [OF assms(1) Suc.prems(1)])
  then show ?case using Suc.IH [OF s'(2)] Suc.prems(2) by simp
qed



end
