(* ===== verification/Operator.thy ===== *)
theory Operator
  imports Convergence
begin

text \<open>
  The operator among the other actors of a cluster, as a step relation. A step handles one request
  (controller-runtime calls \<open>Reconcile\<close> for one request at a time by default), and either returns or
  panics; or the world changes by itself, as the relation \<open>world_step\<close> allows. The server in memory
  is placed in an environment of users, pods and faults.
\<close>

subsection \<open>Steps and traces\<close>

datatype op_event =
    Handled namespaced_name "ctrl_result \<times> api_error option"
  | Crashed namespaced_name
  | Elsewhere

inductive op_step :: "runtime_env \<Rightarrow> 'w client \<Rightarrow> ('w \<Rightarrow> 'w \<Rightarrow> bool) \<Rightarrow> 'w sys \<Rightarrow> op_event \<Rightarrow> 'w sys \<Rightarrow> bool"
  for env cl world_step where
  handles: "Reconcile env cl req s = (Done x, s') \<Longrightarrow> op_step env cl world_step s (Handled req x) s'"
| crashes: "Reconcile env cl req s = (Panicked, s') \<Longrightarrow> op_step env cl world_step s (Crashed req) s'"
| elsewhere: "world_step (sysWorld s) w \<Longrightarrow>
    op_step env cl world_step s Elsewhere (s\<lparr>sysWorld := w\<rparr>)"

inductive_cases op_stepE: "op_step env cl world_step s e s'"
inductive_simps op_step_handled: "op_step env cl world_step s (Handled req x) s'"
inductive_simps op_step_crashed: "op_step env cl world_step s (Crashed req) s'"

inductive op_trace :: "runtime_env \<Rightarrow> 'w client \<Rightarrow> ('w \<Rightarrow> 'w \<Rightarrow> bool) \<Rightarrow> 'w sys \<Rightarrow> op_event list
    \<Rightarrow> 'w sys \<Rightarrow> bool" for env cl world_step where
  start: "op_trace env cl world_step s [] s"
| next_step: "op_trace env cl world_step s es s1 \<Longrightarrow> op_step env cl world_step s1 e s2 \<Longrightarrow>
    op_trace env cl world_step s (es @ [e]) s2"

text \<open>The requests a trace takes up.\<close>

fun requestOf :: "op_event \<Rightarrow> namespaced_name option" where
  "requestOf (Handled req _) = Some req"
| "requestOf (Crashed req) = Some req"
| "requestOf Elsewhere = None"

lemma op_trace_invariant:
  assumes "op_trace env cl world_step s es s'" and "I s"
    and "\<And>t e t'. op_step env cl world_step t e t' \<Longrightarrow> I t \<Longrightarrow> I t' \<and> P e"
  shows "I s' \<and> (\<forall>e \<in> set es. P e)"
  using assms(1,2) by (induction rule: op_trace.induct) (auto dest: assms(3))

text \<open>Along every trace, whatever else happens in the cluster, each call of the operator is one it
  may make for a request it has taken up: it deletes nothing, and no object of a cluster for which
  there was no request is created, updated or written a status.\<close>

lemma trace_calls_are_allowed:
  assumes "env_ok env" and "getKeyed cl" and "op_trace env cl world_step s es s'"
  shows "\<exists>cs. sysCalls s' = sysCalls s @ cs \<and>
    (\<forall>c \<in> set cs. \<exists>e \<in> set es. \<exists>req. requestOf e = Some req \<and> allowedCall req c)"
  using assms(3)
proof (induction rule: op_trace.induct)
  case (start s)
  then show ?case by simp
next
  case (next_step s es s1 e s2)
  then obtain cs where cs: "sysCalls s1 = sysCalls s @ cs"
    "\<forall>c \<in> set cs. \<exists>e \<in> set es. \<exists>req. requestOf e = Some req \<and> allowedCall req c" by blast
  have "\<exists>ds. sysCalls s2 = sysCalls s1 @ ds \<and>
      (\<forall>c \<in> set ds. \<exists>req. requestOf e = Some req \<and> allowedCall req c)"
    using next_step.hyps(2)
  proof (cases rule: op_step.cases)
    case (elsewhere w)
    then show ?thesis by simp
  qed (use emitsE [OF Reconcile_emits_allowed [OF assms(1,2)]] in
    \<open>simp add: list_all_iff; metis\<close>)+
  then obtain ds where "sysCalls s2 = sysCalls s1 @ ds"
    "\<forall>c \<in> set ds. \<exists>req. requestOf e = Some req \<and> allowedCall req c" by blast
  with cs show ?case by (intro exI [of _ "cs @ ds"]) auto
qed

subsection \<open>The server in memory among users, pods and faults\<close>

text \<open>
  What changes the store besides the operator: a user applies a cluster that passes validation or
  deletes one, pods come and go, any object is removed (by a user or the garbage collector), and the
  network schedules faults.
\<close>

inductive mem_step :: "mem_world \<Rightarrow> mem_world \<Rightarrow> bool" where
  apply_cluster: "spec_Workers (pc_Spec c) \<noteq> None \<Longrightarrow> mem_step w (w\<lparr>mwView := (mwView w)\<lparr>vwClusters :=
      (vwClusters (mwView w))(keyOf (pc_ObjectMeta c) \<mapsto> c)\<rparr>\<rparr>)"
| delete_cluster: "mem_step w (w\<lparr>mwView := (mwView w)\<lparr>vwClusters :=
      (vwClusters (mwView w))(key := None)\<rparr>\<rparr>)"
| pods_change: "vwDeployments (mwView w) key = Some d \<Longrightarrow> mem_step w (w\<lparr>mwView := (mwView w)\<lparr>vwDeployments :=
      (vwDeployments (mwView w))(key \<mapsto> d\<lparr>dep_AvailableReplicas := n\<rparr>)\<rparr>\<rparr>)"
| remove_object: "mem_step w (w\<lparr>mwView := removeObject obj (mwView w)\<rparr>)"
| faults: "mem_step w (w\<lparr>mwFaults := fs\<rparr>)"

lemma mem_step_good:
  assumes "mem_step w w'" and "goodView [] (mwView w)"
  shows "goodView [] (mwView w')"
  using assms
proof (cases rule: mem_step.cases)
  case (remove_object obj)
  then show ?thesis using assms(2) by (simp add: goodView_writes)
qed (auto simp: goodView_def viewOk_def keyed_def ran_def split: if_splits)

lemma mem_op_step_good:
  assumes env: "env_ok env" and step: "op_step env memClient mem_step t e t'"
    and good: "goodView [] (mwView (sysWorld t))"
  shows "goodView [] (mwView (sysWorld t')) \<and> (\<forall>req. e \<noteq> Crashed req)"
  using step
proof (cases rule: op_step.cases)
  case (elsewhere w)
  then show ?thesis using mem_step_good good by simp
next
  case (handles req x)
  then show ?thesis using run_uses_fault [OF env good, of req] by auto
next
  case (crashes req)
  then show ?thesis using run_uses_fault [OF env good, of req] by auto
qed

lemma mem_trace_good:
  assumes "env_ok env" and "op_trace env memClient mem_step s es s'" and "goodView [] (mwView (sysWorld s))"
  shows "goodView [] (mwView (sysWorld s')) \<and> (\<forall>e \<in> set es. \<forall>req. e \<noteq> Crashed req)"
  by (rule op_trace_invariant [where I = "\<lambda>t. goodView [] (mwView (sysWorld t))", OF assms(2,3)])
    (rule mem_op_step_good [OF assms(1)])


lemma sample_good: "goodView [] (mwView (sysWorld (sampleWorld faults)))"
  using sample_inv [of faults] by (simp add: memInv_def goodView_def)

text \<open>A trace: a fault is scheduled, then the request is handled.\<close>

lemma sample_trace:
  obtains es s' where "op_trace std_env memClient mem_step (sampleWorld []) es s'" and "length es = 2"
    and "sysCalls s' \<noteq> []"
proof -
  let ?s1 = "(sampleWorld [])\<lparr>sysWorld := (sysWorld (sampleWorld []))\<lparr>mwFaults := [Some (OtherError [])]\<rparr>\<rparr>"
  have tr: "op_trace std_env memClient mem_step (sampleWorld []) ([] @ [Elsewhere]) ?s1"
    by (rule op_trace.next_step, rule op_trace.start, rule op_step.elsewhere, rule mem_step.faults)
  have "goodView [] (mwView (sysWorld ?s1))" using sample_good [of "[]"] by simp
  then obtain x s' where run: "Reconcile std_env memClient sampleReq ?s1 = (Done x, s')"
    by (rule run_uses_fault [OF std_env_ok])
  obtain cs where "sysCalls s' = sysCalls ?s1 @ cs" "cs \<noteq> []" by (rule Reconcile_calls [OF std_env_ok run])
  then show thesis
    using that op_trace.next_step [OF tr op_step.handles [of std_env memClient, OF run]] by auto
qed




end
