(* ===== verification/Interference.thy ===== *)
theory Interference
  imports Operator
begin

text \<open>
  Runs that are not alone: with \<open>MaxConcurrentReconciles\<close> above one, and with users and other
  controllers at work, the world may change between any two calls of a run. The others are a list
  of changes of the world, one due before each call; \<open>sharedClient\<close> lets them happen. A change may be
  any call of another run, any step of the environment, or several of them.
\<close>

record 'w shared =
  shWorld :: 'w
  shOthers :: "('w \<Rightarrow> 'w) list"

text \<open>The change that is due before the next call; after the list nothing more happens.\<close>

definition othersAct :: "'w shared \<Rightarrow> 'w" where
  "othersAct sw = (case shOthers sw of [] \<Rightarrow> shWorld sw | g # _ \<Rightarrow> g (shWorld sw))"

definition interleaved :: "('w \<Rightarrow> 'r \<times> 'w) \<Rightarrow> 'w shared \<Rightarrow> 'r \<times> 'w shared" where
  "interleaved f sw =
     (let (r, w) = f (othersAct sw) in (r, \<lparr>shWorld = w, shOthers = tl (shOthers sw)\<rparr>))"

definition sharedClient :: "'w client \<Rightarrow> 'w shared client" where
  "sharedClient cl = \<lparr>
     clGetCluster = (\<lambda>key. interleaved (clGetCluster cl key)),
     clGetConfigMap = (\<lambda>key. interleaved (clGetConfigMap cl key)),
     clGetDeployment = (\<lambda>key. interleaved (clGetDeployment cl key)),
     clGetService = (\<lambda>key. interleaved (clGetService cl key)),
     clCreate = (\<lambda>obj. interleaved (clCreate cl obj)),
     clUpdate = (\<lambda>obj. interleaved (clUpdate cl obj)),
     clDelete = (\<lambda>obj. interleaved (clDelete cl obj)),
     clStatusUpdate = (\<lambda>c. interleaved (clStatusUpdate cl c)),
     clEvent = (\<lambda>c t r m sw. snd (interleaved (\<lambda>w. ((), clEvent cl c t r m w)) sw))\<rparr>"

text \<open>
  The run's own view of a shared state, and the rely condition: the others keep the invariant.
\<close>

definition ownView :: "'w shared sys \<Rightarrow> 'w sys" where
  "ownView s = \<lparr>sysWorld = shWorld (sysWorld s), sysCalls = sysCalls s\<rparr>"

definition stableUnder :: "('w sys \<Rightarrow> bool) \<Rightarrow> ('w \<Rightarrow> 'w) \<Rightarrow> bool" where
  "stableUnder invar g \<longleftrightarrow> (\<forall>s. invar s \<longrightarrow> invar (s\<lparr>sysWorld := g (sysWorld s)\<rparr>))"

definition sharedInv :: "('w sys \<Rightarrow> bool) \<Rightarrow> 'w shared sys \<Rightarrow> bool" where
  "sharedInv invar s \<longleftrightarrow> invar (ownView s) \<and> (\<forall>g \<in> set (shOthers (sysWorld s)). stableUnder invar g)"

lemma sharedInv_act:
  assumes "sharedInv invar s"
  shows "invar \<lparr>sysWorld = othersAct (sysWorld s), sysCalls = sysCalls s\<rparr>"
proof (cases "shOthers (sysWorld s)")
  case Nil
  then show ?thesis using assms by (simp add: sharedInv_def othersAct_def ownView_def)
next
  case (Cons g gs)
  then have "invar ((ownView s)\<lparr>sysWorld := g (sysWorld (ownView s))\<rparr>)"
    using assms by (simp add: sharedInv_def stableUnder_def)
  then show ?thesis using Cons by (simp add: othersAct_def ownView_def)
qed

text \<open>One call among the others.\<close>

lemma interleaved_call:
  assumes "sharedInv invar s" and "interleaved f (sysWorld s) = (r, sw)"
    and "\<And>s0 w. invar s0 \<Longrightarrow> f (sysWorld s0) = (r, w) \<Longrightarrow> invar (after c w s0) \<and> Q"
  shows "sharedInv invar (after c sw s) \<and> Q"
proof -
  let ?s0 = "\<lparr>sysWorld = othersAct (sysWorld s), sysCalls = sysCalls s\<rparr>"
  obtain w where w: "f (othersAct (sysWorld s)) = (r, w)"
    "sw = \<lparr>shWorld = w, shOthers = tl (shOthers (sysWorld s))\<rparr>"
    using assms(2) by (auto simp: interleaved_def split: prod.splits)
  have "invar (after c w ?s0) \<and> Q"
    by (rule assms(3) [OF sharedInv_act [OF assms(1)]]) (simp add: w(1))
  moreover have "set (tl (shOthers (sysWorld s))) \<subseteq> set (shOthers (sysWorld s))"
    by (cases "shOthers (sysWorld s)") auto
  ultimately show ?thesis
    using assms(1) w(2) by (auto simp: sharedInv_def ownView_def after_def)
qed

lemmas interleaved_keeps = interleaved_call [where Q = True, simplified]

text \<open>A client that keeps an invariant keeps it among others that keep it too.\<close>

lemma shared_sound:
  assumes "sound_api cl invar"
  shows "sound_api (sharedClient cl) (sharedInv invar)"
proof
  fix s :: "'a shared sys"
  assume inv: "sharedInv invar s"
  note keeps = interleaved_keeps [OF inv] and call = interleaved_call [OF inv]
  show "sharedInv invar (after (CallGet PrestoClusterKind key) w s)
      \<and> (\<forall>c. r = Inr c \<longrightarrow> spec_Workers (pc_Spec c) \<noteq> None)"
    if "clGetCluster (sharedClient cl) key (sysWorld s) = (r, w)" for key r w
    by (rule call [OF that [unfolded sharedClient_def, simplified]])
      (rule sound_api.get_cluster [OF assms])
  show "sharedInv invar (after (CallGet DeploymentKind key) w s)
      \<and> (\<forall>d. r = Inr d \<longrightarrow> depReplicas d \<noteq> None)"
    if "clGetDeployment (sharedClient cl) key (sysWorld s) = (r, w)" for key r w
    by (rule call [OF that [unfolded sharedClient_def, simplified]])
      (rule sound_api.get_deployment [OF assms])
  show "sharedInv invar (after (CallGet ConfigMapKind key) w s)"
    if "clGetConfigMap (sharedClient cl) key (sysWorld s) = (r, w)" for key r w
    by (rule keeps [OF that [unfolded sharedClient_def, simplified]])
      (rule sound_api.get_configMap [OF assms])
  show "sharedInv invar (after (CallGet ServiceKind key) w s)"
    if "clGetService (sharedClient cl) key (sysWorld s) = (r, w)" for key r w
    by (rule keeps [OF that [unfolded sharedClient_def, simplified]])
      (rule sound_api.get_service [OF assms])
  show "sharedInv invar (after (CallCreate obj) w s)"
    if "clCreate (sharedClient cl) obj (sysWorld s) = (e, w)" for obj e w
    by (rule keeps [OF that [unfolded sharedClient_def, simplified]])
      (rule sound_api.create_object [OF assms])
  show "sharedInv invar (after (CallUpdate (DeploymentObj dep)) w s)"
    if "clUpdate (sharedClient cl) (DeploymentObj dep) (sysWorld s) = (e, w)" for dep e w
    by (rule keeps [OF that [unfolded sharedClient_def, simplified]])
      (rule sound_api.update_deployment [OF assms])
  show "sharedInv invar (after (CallStatusUpdate pc) w s)"
    if "clStatusUpdate (sharedClient cl) pc (sysWorld s) = (e, w)" for pc e w
    by (rule keeps [OF that [unfolded sharedClient_def, simplified]])
      (rule sound_api.update_status [OF assms])
  show "sharedInv invar (after (CallEvent pc t m i) (clEvent (sharedClient cl) pc t m i (sysWorld s)) s)"
    for pc t m i
  proof -
    let ?f = "\<lambda>w. ((), clEvent cl pc t m i w)"
    have "interleaved ?f (sysWorld s) = ((), clEvent (sharedClient cl) pc t m i (sysWorld s))"
      by (simp add: sharedClient_def prod_eq_iff)
    then show ?thesis by (rule keeps) (use sound_api.record_event [OF assms] in auto)
  qed
qed

interpretation shared_mem: sound_api "sharedClient memClient" "sharedInv (memInv F goals v0)"
  for F goals v0
  by (rule shared_sound) (rule mem_faulty.sound_api_axioms)

subsection \<open>Concurrent runs\<close>

text \<open>What a call does to the world.\<close>

fun callEffect :: "'w client \<Rightarrow> api_call \<Rightarrow> 'w \<Rightarrow> 'w" where
  "callEffect cl (CallGet PrestoClusterKind key) w = snd (clGetCluster cl key w)"
| "callEffect cl (CallGet ConfigMapKind key) w = snd (clGetConfigMap cl key w)"
| "callEffect cl (CallGet DeploymentKind key) w = snd (clGetDeployment cl key w)"
| "callEffect cl (CallGet ServiceKind key) w = snd (clGetService cl key w)"
| "callEffect cl (CallGet IngressKind key) w = w"
| "callEffect cl (CallCreate obj) w = snd (clCreate cl obj w)"
| "callEffect cl (CallUpdate obj) w = snd (clUpdate cl obj w)"
| "callEffect cl (CallDelete obj) w = snd (clDelete cl obj w)"
| "callEffect cl (CallStatusUpdate c) w = snd (clStatusUpdate cl c w)"
| "callEffect cl (CallEvent c t r m) w = clEvent cl c t r m w"

lemma memInv_calm: "memInv [] goals v0 (after c w s) = memInv [] goals v0 (s\<lparr>sysWorld := w\<rparr>)"
  by (simp add: memInv_def after_def)

lemma callEffect_stable:
  assumes "allowedCall req c"
  shows "stableUnder (memInv [] goals v0) (callEffect memClient c)"
  unfolding stableUnder_def
proof (intro allI impI)
  fix s assume inv: "memInv [] goals v0 s"
  note reads = mem_faulty.get_cluster [OF inv prod.collapse [symmetric]]
    mem_faulty.get_configMap [OF inv prod.collapse [symmetric]]
    mem_faulty.get_deployment [OF inv prod.collapse [symmetric]]
    mem_faulty.get_service [OF inv prod.collapse [symmetric]]
  note writes = mem_faulty.create_object [OF inv prod.collapse [symmetric]]
    mem_faulty.update_deployment [OF inv prod.collapse [symmetric]]
    mem_faulty.update_status [OF inv prod.collapse [symmetric]] mem_faulty.record_event [OF inv]
  show "memInv [] goals v0 (s\<lparr>sysWorld := callEffect memClient c (sysWorld s)\<rparr>)"
  proof (cases c)
    case (CallGet k key)
    then show ?thesis using reads [of key] inv by (cases k) (simp_all add: memInv_calm)
  next
    case (CallUpdate obj)
    then obtain d where "obj = DeploymentObj d" using assms by (cases obj) auto
    then show ?thesis using CallUpdate writes(2) by (simp add: memInv_calm)
  qed (use assms writes in \<open>auto simp: memInv_calm\<close>)
qed

lemma fold_stable:
  "\<forall>g \<in> set gs. stableUnder invar g \<Longrightarrow> stableUnder invar (fold (\<lambda>g. g) gs)"
proof (induction gs)
  case (Cons g gs)
  then show ?case by (fastforce simp: stableUnder_def)
qed (simp add: stableUnder_def)

text \<open>One run among others: it returns, and the invariant of a calm store holds for what is left.\<close>

lemma concurrent_run:
  assumes "goodView goals (mwView w)" and "mwFaults w = []"
    and "\<forall>cs \<in> set turns. \<forall>c \<in> set cs. \<exists>other. allowedCall other c"
  obtains x s' where "Reconcile env (sharedClient memClient) req
       \<lparr>sysWorld = \<lparr>shWorld = w, shOthers = map (fold (callEffect memClient)) turns\<rparr>, sysCalls = []\<rparr>
       = (Done x, s')"
    and "memInv [] goals (mwView w) (ownView s')"
proof -
  let ?I = "memInv [] goals (mwView w)"
  let ?s = "\<lparr>sysWorld = \<lparr>shWorld = w, shOthers = map (fold (callEffect memClient)) turns\<rparr>, sysCalls = []\<rparr>"
  have "stableUnder ?I (fold (callEffect memClient) cs)" if "cs \<in> set turns" for cs
  proof -
    have "\<forall>g \<in> set (map (callEffect memClient) cs). stableUnder ?I g"
      using assms(3) that callEffect_stable by fastforce
    from fold_stable [OF this] show ?thesis by (simp add: fold_map comp_def)
  qed
  then have "sharedInv ?I ?s"
    using assms(1,2) by (auto simp: sharedInv_def ownView_def memInv_def)
  from shared_mem.safeD [OF shared_mem.safe_Reconcile this, of env req] show thesis
    using that by (auto simp: lands_def sharedInv_def)
qed


text \<open>Between the inspection and the first creation another run for the same request creates the
  coordinator's config map, so that the creation by this run fails.\<close>

definition rivalTurns :: "api_call list list" where
  "rivalTurns = replicate 6 [] @ [[CallCreate (ConfigMapObj (newConfigmap sampleCluster
     (getPrestoConfigMapName ''presto'') None))]]"


end
