(* ===== verification/Flags.thy ===== *)
theory Flags
  imports GoStrings
begin

text \<open>
  The packages \<open>flag\<close> and \<open>strconv\<close> of the Go 1.13 standard library, as far as \<open>src/main.go\<close> uses them:
  \<open>strconv.ParseInt(s, 0, 64)\<close>, \<open>strconv.ParseBool\<close> and \<open>flag.Parse\<close> over string, int and bool flags.
  A flag set maps the declared names to their current values; the constructor of the value is the
  kind of the flag. Errors are values, since \<open>flag.Parse\<close> exits with code 2 on each of them.
\<close>

subsection \<open>Numbers and truth values\<close>

definition digitVal :: "char \<Rightarrow> int option" where
  "digitVal c = (let n = of_char c :: nat in
     if 48 \<le> n \<and> n \<le> 57 then Some (int (n - 48))
     else if 97 \<le> n \<and> n \<le> 122 then Some (int (n - 87))
     else if 65 \<le> n \<and> n \<le> 90 then Some (int (n - 55)) else None)"

text \<open>The loop over the digits, which skips underscores.\<close>

fun digitsVal :: "int \<Rightarrow> string \<Rightarrow> int \<Rightarrow> int option" where
  "digitsVal base [] n = Some n"
| "digitsVal base (c # s) n =
     (if c = CHR ''_'' then digitsVal base s n
      else case digitVal c of
        None \<Rightarrow> None
      | Some d \<Rightarrow> if d < base then digitsVal base s (base * n + d) else None)"

text \<open>The prefix that gives the base of a literal, and the digits after it.\<close>

definition basePrefix :: "string \<Rightarrow> int \<times> string" where
  "basePrefix s = (case s of
     CHR ''0'' # c # d # rest \<Rightarrow>
       if c \<in> set ''bB'' then (2, d # rest)
       else if c \<in> set ''oO'' then (8, d # rest)
       else if c \<in> set ''xX'' then (16, d # rest)
       else (8, c # d # rest)
   | CHR ''0'' # rest \<Rightarrow> (8, rest)
   | _ \<Rightarrow> (10, s))"

text \<open>An underscore stands between digits, or after the base prefix. \<open>saw\<close> is the class of the
  character before: a digit, an underscore, or anything else.\<close>

datatype saw = SawDigit | SawUnderscore | SawOther

fun underscoresOk :: "bool \<Rightarrow> saw \<Rightarrow> string \<Rightarrow> bool" where
  "underscoresOk hex saw [] = (saw \<noteq> SawUnderscore)"
| "underscoresOk hex saw (c # s) =
     (let n = of_char c :: nat in
      if 48 \<le> n \<and> n \<le> 57 \<or> hex \<and> (97 \<le> n \<and> n \<le> 102 \<or> 65 \<le> n \<and> n \<le> 70)
      then underscoresOk hex SawDigit s
      else if c = CHR ''_'' then saw = SawDigit \<and> underscoresOk hex SawUnderscore s
      else saw \<noteq> SawUnderscore \<and> underscoresOk hex SawOther s)"

definition underscoreOK :: "string \<Rightarrow> bool" where
  "underscoreOK s = (case s of
     CHR ''0'' # c # rest \<Rightarrow>
       if c \<in> set ''bBoOxX'' then underscoresOk (c \<in> set ''xX'') SawDigit rest
       else underscoresOk False SawOther s
   | _ \<Rightarrow> underscoresOk False SawOther s)"

definition parseUint :: "string \<Rightarrow> int option" where
  "parseUint s = (if s = [] then None else
     let (base, ds) = basePrefix s
     in if CHR ''_'' \<in> set ds \<and> \<not> underscoreOK s then None else digitsVal base ds 0)"

definition parseInt64 :: "string \<Rightarrow> int option" where
  "parseInt64 s =
     (let negative = s \<noteq> [] \<and> hd s = CHR ''-'';
          digits = (if s \<noteq> [] \<and> hd s \<in> set ''+-'' then tl s else s)
      in case parseUint digits of
           None \<Rightarrow> None
         | Some n \<Rightarrow> if negative then (if n \<le> 2 ^ 63 then Some (- n) else None)
             else (if n < 2 ^ 63 then Some n else None))"

definition parseBool :: "string \<Rightarrow> bool option" where
  "parseBool s =
     (if s \<in> set [''1'', ''t'', ''T'', ''true'', ''TRUE'', ''True''] then Some True
      else if s \<in> set [''0'', ''f'', ''F'', ''false'', ''FALSE'', ''False''] then Some False
      else None)"

subsection \<open>Parsing a command line\<close>

datatype flag_value = StrV string | IntV int | BoolV bool

type_synonym flag_set = "string \<rightharpoonup> flag_value"

datatype flag_error =
    BadFlagSyntax string
  | FlagNotDefined string
  | HelpRequested
  | FlagNeedsArgument string
  | InvalidFlagValue string string

text \<open>What an argument is: no flag (parsing ends before it), \<open>--\<close> (parsing ends after it), a flag
  without a name, or a flag with its name and the value after \<open>=\<close>, if there is one.\<close>

datatype flag_word = NotAFlag | EndOfFlags | Nameless | Flag string "string option"

definition flagWord :: "string \<Rightarrow> flag_word" where
  "flagWord s =
     (if length s < 2 \<or> hd s \<noteq> CHR ''-'' then NotAFlag
      else if s = ''--'' then EndOfFlags
      else let name = (if hd (tl s) = CHR ''-'' then tl (tl s) else tl s)
        in if hd name \<in> set ''-='' then Nameless
           else let rest = dropWhile (\<lambda>c. c \<noteq> CHR ''='') (tl name)
             in Flag (hd name # takeWhile (\<lambda>c. c \<noteq> CHR ''='') (tl name))
                  (if rest = [] then None else Some (tl rest)))"

definition setFlag :: "flag_value \<Rightarrow> string \<Rightarrow> flag_value option" where
  "setFlag old value = (case old of
     StrV _ \<Rightarrow> Some (StrV value)
   | IntV _ \<Rightarrow> map_option IntV (parseInt64 value)
   | BoolV _ \<Rightarrow> map_option BoolV (parseBool value))"

text \<open>A bool flag takes its value from \<open>=\<close> only and is true without; any other flag takes the next
  argument when there is no \<open>=\<close>.\<close>

fun parseFlags :: "flag_set \<Rightarrow> string list \<Rightarrow> flag_error + flag_set \<times> string list" where
  "parseFlags fs [] = Inr (fs, [])"
| "parseFlags fs (s # args) = (case flagWord s of
     NotAFlag \<Rightarrow> Inr (fs, s # args)
   | EndOfFlags \<Rightarrow> Inr (fs, args)
   | Nameless \<Rightarrow> Inl (BadFlagSyntax s)
   | Flag name given \<Rightarrow> (case fs name of
       None \<Rightarrow> Inl (if name \<in> set [''help'', ''h''] then HelpRequested else FlagNotDefined name)
     | Some old \<Rightarrow> (case given of
         Some value \<Rightarrow> (case setFlag old value of
             None \<Rightarrow> Inl (InvalidFlagValue name value)
           | Some new \<Rightarrow> parseFlags (fs(name \<mapsto> new)) args)
       | None \<Rightarrow> (case old of
           BoolV _ \<Rightarrow> parseFlags (fs(name \<mapsto> BoolV True)) args
         | _ \<Rightarrow> (case args of
             [] \<Rightarrow> Inl (FlagNeedsArgument name)
           | value # rest \<Rightarrow> (case setFlag old value of
               None \<Rightarrow> Inl (InvalidFlagValue name value)
             | Some new \<Rightarrow> parseFlags (fs(name \<mapsto> new)) rest))))))"

subsection \<open>Decimal numbers are read back\<close>

definition showInt :: "int \<Rightarrow> string" where
  "showInt i = (if i < 0 then CHR ''-'' # showNat (nat (- i)) else showNat (nat i))"

lemma digitVal_digit: "d < 10 \<Longrightarrow> digitVal (digit d) = Some (int d) \<and> digit d \<noteq> CHR ''_''"
proof
  assume d: "d < 10"
  show "digitVal (digit d) = Some (int d)" using d by (simp add: digitVal_def of_char_digit)
  show "digit d \<noteq> CHR ''_''"
  proof
    assume "digit d = CHR ''_''"
    then have "(48 + d :: nat) = of_char (CHR ''_'')" using d by (metis of_char_digit)
    then show False using d by simp
  qed
qed

lemma digitsVal_append:
  "digitsVal base (s @ t) n = (case digitsVal base s n of None \<Rightarrow> None | Some m \<Rightarrow> digitsVal base t m)"
  by (induction base s n rule: digitsVal.induct) (auto split: option.split)

lemma digitsVal_showNat: "digitsVal 10 (showNat n) 0 = Some (int n)"
proof (induction n rule: showNat.induct)
  case (1 n)
  have "10 * int (n div 10) + int (n mod 10) = int n" by presburger
  with 1 show ?case
    by (cases "n < 10") (simp_all add: showNat.simps [of n] digitVal_digit digitsVal_append)
qed

lemma set_showNat: "c \<in> set (showNat n) \<Longrightarrow> \<exists>d < 10. c = digit d"
proof (induction n rule: showNat.induct)
  case (1 n)
  then show ?case
    by (cases "n < 10") (auto simp: showNat.simps [of n] intro: exI [of _ "n mod 10"])
qed

lemma hd_showNat_zero: "0 < n \<Longrightarrow> hd (showNat n) \<noteq> CHR ''0''"
proof (induction n rule: showNat.induct)
  case (1 n)
  show ?case
  proof (cases "n < 10")
    case True
    have "digit n \<noteq> CHR ''0''"
    proof
      assume "digit n = CHR ''0''"
      then have "(48 + n :: nat) = of_char (CHR ''0'')" using True by (metis of_char_digit)
      then show False using "1.prems" by simp
    qed
    then show ?thesis using True by (simp add: showNat.simps [of n])
  next
    case False
    then show ?thesis using 1 hd_showNat [of "n div 10"] by (simp add: showNat.simps [of n])
  qed
qed

lemma showNat_0: "showNat 0 = ''0''"
  by code_simp

lemma parseUint_showNat: "parseUint (showNat n) = Some (int n)"
proof (cases "n = 0")
  case True
  then show ?thesis by (simp add: showNat_0 parseUint_def basePrefix_def)
next
  case False
  obtain c s where s: "showNat n = c # s" using hd_showNat [of n] by (cases "showNat n") auto
  have "c \<noteq> CHR ''0''" using hd_showNat_zero [of n] False s by simp
  then have "basePrefix (showNat n) = (10, showNat n)"
    by (auto simp: basePrefix_def s split: char.split bool.split list.split)
  moreover have "CHR ''_'' \<notin> set (showNat n)" using set_showNat digitVal_digit by metis
  ultimately show ?thesis using s digitsVal_showNat [of n] by (simp add: parseUint_def)
qed

lemma parseInt64_showInt:
  assumes "- (2 ^ 63) \<le> i" and "i < 2 ^ 63"
  shows "parseInt64 (showInt i) = Some i"
proof (cases "i < 0")
  case True
  then show ?thesis using assms by (simp add: parseInt64_def showInt_def parseUint_showNat nat_le_iff)
next
  case False
  have "hd (showNat (nat i)) \<notin> set ''+-''"
  proof -
    have "hd (showNat (nat i)) \<in> set (showNat (nat i))" using hd_showNat [of "nat i"] by simp
    then obtain d where "d < 10" "hd (showNat (nat i)) = digit d" using set_showNat by blast
    then have "(of_char (hd (showNat (nat i))) :: nat) \<ge> 48" by (simp add: of_char_digit)
    then show ?thesis by auto
  qed
  then show ?thesis
    using assms False by (auto simp: parseInt64_def showInt_def parseUint_showNat nat_less_iff)
qed

subsection \<open>Flags are read back\<close>

lemma flagWord_named:
  assumes "name \<noteq> []" and "hd name \<notin> set ''-=''" and "CHR ''='' \<notin> set name"
  shows "flagWord (CHR ''-'' # CHR ''-'' # name @ CHR ''='' # value) = Flag name (Some value)"
    and "flagWord (CHR ''-'' # CHR ''-'' # name) = Flag name None"
    and "flagWord (CHR ''-'' # name @ CHR ''='' # value) = Flag name (Some value)"
    and "flagWord (CHR ''-'' # name) = Flag name None"
proof -
  obtain c cs where "name = c # cs" "c \<noteq> CHR ''-''" "c \<noteq> CHR ''=''" "\<forall>x \<in> set cs. x \<noteq> CHR ''=''"
    using assms by (cases name) auto
  then show "flagWord (CHR ''-'' # CHR ''-'' # name @ CHR ''='' # value) = Flag name (Some value)"
    "flagWord (CHR ''-'' # CHR ''-'' # name) = Flag name None"
    "flagWord (CHR ''-'' # name @ CHR ''='' # value) = Flag name (Some value)"
    "flagWord (CHR ''-'' # name) = Flag name None"
    by (auto simp: flagWord_def)
qed

end
