(* ===== verification/Manager.thy ===== *)
theory Manager
  imports Flags MemServer
begin

text \<open>
  \<open>src/main.go\<close>, and what it calls to register the resource types and the controller
  (\<open>groupversion_info.go\<close>, \<open>SetupWithManager\<close>). The process parses its flags, creates a
  controller-runtime manager, builds the controller and starts the manager. controller-runtime,
  client-go and the cluster configuration are the record \<open>runtime_lib\<close>, an argument of the model.
  A process ends with an exit code and the state of the world then, or never ends (\<open>None\<close>).
\<close>

subsection \<open>The libraries\<close>

record 'sch manager_options =
  mo_Scheme :: 'sch
  mo_MetricsBindAddress :: string
  mo_Port :: int
  mo_LeaderElection :: bool
  mo_LeaderElectionID :: string

record controller_options =
  co_MaxConcurrentReconciles :: int
  co_For :: string

type_synonym 'w reconciler_fun =
  "namespaced_name \<Rightarrow> ('w sys, ctrl_result \<times> api_error option) prog"

type_synonym 'w event_recorder = "presto_cluster \<Rightarrow> string \<Rightarrow> string \<Rightarrow> string \<Rightarrow> 'w \<Rightarrow> 'w"

record ('cfg, 'sch, 'm, 'w, 'p) runtime_lib =
  rlNewScheme :: 'sch
  rlClientGoTypes :: "'sch \<Rightarrow> string option \<times> 'sch"
  rlAddTypes :: "string \<Rightarrow> string \<Rightarrow> string list \<Rightarrow> 'sch \<Rightarrow> string option \<times> 'sch"
  rlGetConfigOrDie :: "'p \<Rightarrow> 'cfg option \<times> 'p"
  rlNewManager :: "'cfg \<Rightarrow> 'sch manager_options \<Rightarrow> 'p \<Rightarrow> (string + 'm) \<times> 'p"
  rlGetClient :: "'m \<Rightarrow> 'w client"
  rlGetEventRecorderFor :: "'m \<Rightarrow> string \<Rightarrow> 'w event_recorder"
  rlComplete :: "'m \<Rightarrow> controller_options \<Rightarrow> 'w reconciler_fun \<Rightarrow> 'p \<Rightarrow> string option \<times> 'p"
  rlStart :: "'m \<Rightarrow> 'p \<Rightarrow> (string option \<times> 'p) option"

subsection \<open>The scheme\<close>

text \<open>\<open>SchemeBuilder.Register(&PrestoCluster{}, &PrestoClusterList{})\<close>, run by the package's \<open>init\<close>.\<close>

definition registeredTypes :: "string list" where
  "registeredTypes = [''PrestoCluster'', ''PrestoClusterList'']"

definition AddToScheme :: "('cfg, 'sch, 'm, 'w, 'p) runtime_lib \<Rightarrow> 'sch \<Rightarrow> string option \<times> 'sch" where
  "AddToScheme lib = rlAddTypes lib GroupVersion_Group GroupVersion_Version registeredTypes"

text \<open>The \<open>init\<close> of main: both errors are dropped.\<close>

definition initScheme :: "('cfg, 'sch, 'm, 'w, 'p) runtime_lib \<Rightarrow> 'sch" where
  "initScheme lib = snd (AddToScheme lib (snd (rlClientGoTypes lib (rlNewScheme lib))))"

subsection \<open>The flags\<close>

record flags =
  fl_metricsAddr :: string
  fl_maxConcurrentReconciles :: int
  fl_enableLeaderElection :: bool

definition metricsAddrFlag :: string where "metricsAddrFlag = ''metrics-addr''"
definition maxReconcilesFlag :: string where "maxReconcilesFlag = ''maxConcurrentReconciles''"
definition leaderElectionFlag :: string where "leaderElectionFlag = ''enable-leader-election''"

text \<open>\<open>flag.StringVar\<close> and its like panic when the name is taken.\<close>

definition declareFlag :: "string \<Rightarrow> flag_value \<Rightarrow> flag_set \<Rightarrow> flag_set option" where
  "declareFlag name v fs = (if fs name = None then Some (fs(name \<mapsto> v)) else None)"

text \<open>The flags of main, beside those (\<open>taken\<close>) that imported packages have declared.\<close>

definition declareFlags :: "flag_set \<Rightarrow> flag_set option" where
  "declareFlags taken =
     Option.bind (declareFlag metricsAddrFlag (StrV '':18080'') taken) (\<lambda>fs.
     Option.bind (declareFlag maxReconcilesFlag (IntV 1) fs) (\<lambda>fs.
     declareFlag leaderElectionFlag (BoolV False) fs))"

fun strOf :: "flag_value option \<Rightarrow> string" where
  "strOf (Some (StrV s)) = s" | "strOf _ = []"
fun intOf :: "flag_value option \<Rightarrow> int" where
  "intOf (Some (IntV i)) = i" | "intOf _ = 0"
fun boolOf :: "flag_value option \<Rightarrow> bool" where
  "boolOf (Some (BoolV b)) = b" | "boolOf _ = False"

definition flagsOf :: "flag_set \<Rightarrow> flags" where
  "flagsOf fs = \<lparr>fl_metricsAddr = strOf (fs metricsAddrFlag),
     fl_maxConcurrentReconciles = intOf (fs maxReconcilesFlag),
     fl_enableLeaderElection = boolOf (fs leaderElectionFlag)\<rparr>"

text \<open>The values of the three variables after \<open>flag.Parse()\<close>; \<open>None\<close> when the process exits there.\<close>

definition commandLine :: "flag_set \<Rightarrow> string list \<Rightarrow> flags option" where
  "commandLine taken args = Option.bind (declareFlags taken) (\<lambda>fs.
     case parseFlags fs args of Inl _ \<Rightarrow> None | Inr (fs', _) \<Rightarrow> Some (flagsOf fs'))"

subsection \<open>The process\<close>

definition managerOptions :: "'sch \<Rightarrow> flags \<Rightarrow> 'sch manager_options" where
  "managerOptions scheme fl = \<lparr>mo_Scheme = scheme, mo_MetricsBindAddress = fl_metricsAddr fl,
     mo_Port = 9443, mo_LeaderElection = fl_enableLeaderElection fl,
     mo_LeaderElectionID = ''0eaddc39.k8s.io''\<rparr>"

text \<open>The reconciler of \<open>PrestoClusterReconciler{Client, Recorder}\<close>: events go to the recorder.\<close>

definition managerReconciler :: "('cfg, 'sch, 'm, 'w, 'p) runtime_lib \<Rightarrow> runtime_env \<Rightarrow> 'm
    \<Rightarrow> 'w reconciler_fun" where
  "managerReconciler lib env mgr = Reconcile env
     ((rlGetClient lib mgr)\<lparr>clEvent := rlGetEventRecorderFor lib mgr ''presto-operator''\<rparr>)"

definition SetupWithManager :: "('cfg, 'sch, 'm, 'w, 'p) runtime_lib \<Rightarrow> 'w reconciler_fun \<Rightarrow> 'm
    \<Rightarrow> int \<Rightarrow> 'p \<Rightarrow> string option \<times> 'p" where
  "SetupWithManager lib r mgr maxConcurrentReconciles =
     rlComplete lib mgr \<lparr>co_MaxConcurrentReconciles = maxConcurrentReconciles,
       co_For = ''PrestoCluster''\<rparr> r"

definition main :: "('cfg, 'sch, 'm, 'w, 'p) runtime_lib \<Rightarrow> runtime_env \<Rightarrow> flag_set \<Rightarrow> string list
    \<Rightarrow> 'p \<Rightarrow> (nat \<times> 'p) option" where
  "main lib env taken args p =
     (let scheme = initScheme lib in
      case commandLine taken args of
        None \<Rightarrow> Some (2, p)
      | Some fl \<Rightarrow> (case rlGetConfigOrDie lib p of
          (None, p) \<Rightarrow> Some (1, p)
        | (Some cfg, p) \<Rightarrow> (case rlNewManager lib cfg (managerOptions scheme fl) p of
            (Inl err, p) \<Rightarrow> Some (1, p)
          | (Inr mgr, p) \<Rightarrow>
              (case SetupWithManager lib (managerReconciler lib env mgr) mgr
                  (fl_maxConcurrentReconciles fl) p of
                (Some err, p) \<Rightarrow> Some (1, p)
              | (None, p) \<Rightarrow> (case rlStart lib mgr p of
                  None \<Rightarrow> None
                | Some (Some err, p) \<Rightarrow> Some (1, p)
                | Some (None, p) \<Rightarrow> Some (0, p))))))"

subsection \<open>Command lines\<close>

lemmas flag_names = metricsAddrFlag_def maxReconcilesFlag_def leaderElectionFlag_def

text \<open>A command line that gives every flag, as the deployment manifests of the operator do.\<close>

definition renderFlags :: "flags \<Rightarrow> string list" where
  "renderFlags fl =
     [''--'' @ metricsAddrFlag @ ''='' @ fl_metricsAddr fl,
      ''-'' @ maxReconcilesFlag, showInt (fl_maxConcurrentReconciles fl)]
     @ (if fl_enableLeaderElection fl then [''--'' @ leaderElectionFlag] else [])"

definition ownFlag :: "string \<Rightarrow> bool" where
  "ownFlag name \<longleftrightarrow> name \<in> set [metricsAddrFlag, maxReconcilesFlag, leaderElectionFlag]"

lemma declareFlags_free:
  assumes "\<forall>name. ownFlag name \<longrightarrow> taken name = None"
  shows "declareFlags taken = Some (taken(metricsAddrFlag \<mapsto> StrV '':18080'',
    maxReconcilesFlag \<mapsto> IntV 1, leaderElectionFlag \<mapsto> BoolV False))"
  using assms by (simp add: declareFlags_def declareFlag_def ownFlag_def flag_names)

lemmas own_flag_words =
  flagWord_named(1) [of metricsAddrFlag, unfolded flag_names, simplified]
  flagWord_named(4) [of maxReconcilesFlag, unfolded flag_names, simplified]
  flagWord_named(2) [of leaderElectionFlag, unfolded flag_names, simplified]

text \<open>C39: what is written on the command line reaches the manager: every setting, with any 64-bit
  number of concurrent reconciles and any address, is read back from its flags; arguments after
  \<open>--\<close> are ignored.\<close>

theorem command_line_roundtrip:
  assumes "\<forall>name. ownFlag name \<longrightarrow> taken name = None"
    and "- (2 ^ 63) \<le> fl_maxConcurrentReconciles fl" and "fl_maxConcurrentReconciles fl < 2 ^ 63"
  shows "commandLine taken (renderFlags fl @ ''--'' # rest) = Some fl"
proof -
  have "flagWord ''--'' = EndOfFlags" by (simp add: flagWord_def)
  then show ?thesis
    using declareFlags_free [OF assms(1)] parseInt64_showInt [OF assms(2,3)]
    by (cases fl) (simp add: commandLine_def renderFlags_def flag_names own_flag_words setFlag_def
        flagsOf_def fun_upd_apply)
qed

theorem command_line_roundtrip_witness:
  "commandLine [''kubeconfig'' \<mapsto> StrV []]
     (renderFlags \<lparr>fl_metricsAddr = ''127.0.0.1:8080'', fl_maxConcurrentReconciles = 4,
        fl_enableLeaderElection = True\<rparr> @ ''--'' # [])
   = Some \<lparr>fl_metricsAddr = ''127.0.0.1:8080'', fl_maxConcurrentReconciles = 4,
        fl_enableLeaderElection = True\<rparr>"
  by (rule command_line_roundtrip) (simp_all add: ownFlag_def flag_names)

subsection \<open>Exit codes\<close>

text \<open>The manager \<open>mgr\<close> is ready to be started in the world \<open>q\<close>: it was created with the settings of
  the command line, and its controller handles the clusters with the operator's own reconciler.\<close>

definition readyToStart :: "('cfg, 'sch, 'm, 'w, 'p) runtime_lib \<Rightarrow> runtime_env \<Rightarrow> flags \<Rightarrow> 'p
    \<Rightarrow> 'm \<Rightarrow> 'p \<Rightarrow> bool" where
  "readyToStart lib env fl p mgr q \<longleftrightarrow> (\<exists>cfg p1 p2. rlGetConfigOrDie lib p = (Some cfg, p1)
     \<and> rlNewManager lib cfg (managerOptions (initScheme lib) fl) p1 = (Inr mgr, p2)
     \<and> rlComplete lib mgr \<lparr>co_MaxConcurrentReconciles = fl_maxConcurrentReconciles fl,
         co_For = hd registeredTypes\<rparr> (managerReconciler lib env mgr) p2 = (None, q))"


end
