(* ===== verification/PreStop.thy ===== *)
theory PreStop
  imports PreStopScript
begin

text \<open>
  What the script of \<open>src/controllers/preStopScript.go\<close> does when a worker pod stops: it reads the
  ports out of \<open>config.properties\<close>, asks the server to shut down, over http and then https, and polls
  the server until it no longer answers. \<open>curl\<close> is a parameter: the http code of a PUT, and whether
  a GET connects. The polling loop may run forever: \<open>pollState\<close> is then \<open>None\<close>.
\<close>

subsection \<open>cat, grep and sed\<close>

text \<open>A basic regular expression of literal characters and dots, at the start of a string and anywhere.\<close>

fun matchesHere :: "string \<Rightarrow> string \<Rightarrow> bool" where
  "matchesHere [] s = True"
| "matchesHere (p # ps) [] = False"
| "matchesHere (p # ps) (c # cs) = ((p = CHR ''.'' \<or> p = c) \<and> matchesHere ps cs)"

fun grepLine :: "string \<Rightarrow> string \<Rightarrow> bool" where
  "grepLine p [] = matchesHere p []"
| "grepLine p (c # cs) = (matchesHere p (c # cs) \<or> grepLine p cs)"

text \<open>\<open>s/^.*=\(.*\)$/\1/\<close>: what follows the last \<open>=\<close>; a line without one stays.\<close>

definition sedValue :: "string \<Rightarrow> string" where
  "sedValue l = (if CHR ''='' \<in> set l then rev (takeWhile (\<lambda>c. c \<noteq> CHR ''='') (rev l)) else l)"

definition fileLines :: "string \<Rightarrow> string list" where
  "fileLines content = (let ls = splitOn newline content in if last ls = [] then butlast ls else ls)"

text \<open>\<open>$(...)\<close> drops the newlines at the end of the output.\<close>

definition substituted :: "string \<Rightarrow> string" where
  "substituted out = rev (dropWhile (\<lambda>c. c = newline) (rev out))"

definition portOf :: "string \<Rightarrow> string \<Rightarrow> string" where
  "portOf key content =
     substituted (concat (map line (map sedValue (filter (grepLine key) (fileLines content)))))"

subsection \<open>The shutdown\<close>

record 'w curl =
  curlPut :: "string \<Rightarrow> 'w \<Rightarrow> string \<times> 'w"
  curlGet :: "string \<Rightarrow> 'w \<Rightarrow> bool \<times> 'w"

definition stateUrl :: "string \<Rightarrow> string \<Rightarrow> string" where
  "stateUrl scheme port = scheme @ ''://localhost:'' @ port @ ''/v1/info/state''"

text \<open>\<open>while curl url; do sleep 1; done\<close>.\<close>

partial_function (option) pollState :: "(string \<Rightarrow> 'w \<Rightarrow> bool \<times> 'w) \<Rightarrow> string \<Rightarrow> 'w \<Rightarrow> 'w option" where
  "pollState get url w = (case get url w of (up, w') \<Rightarrow> if up then pollState get url w' else Some w')"

datatype hook_exit = ExitFailure | ExitSuccess

text \<open>The http code of the last request, empty if there was none.\<close>

definition requestShutdown :: "'w curl \<Rightarrow> string \<Rightarrow> string \<Rightarrow> 'w \<Rightarrow> string \<times> 'w" where
  "requestShutdown cu http_port https_port w =
     (let (res, w) = (if http_port \<noteq> [] then curlPut cu (stateUrl ''http'' http_port) w else ([], w))
      in if (res = [] \<or> res \<noteq> ''200'') \<and> https_port \<noteq> []
         then curlPut cu (stateUrl ''https'' https_port) w else (res, w))"

definition preStopRun :: "'w curl \<Rightarrow> string \<Rightarrow> string \<Rightarrow> 'w \<Rightarrow> (hook_exit \<times> 'w) option" where
  "preStopRun cu http_port https_port w =
     (let (res, w) = requestShutdown cu http_port https_port w
      in if res = [] \<or> res \<noteq> ''200'' then Some (ExitFailure, w)
         else map_option (Pair ExitSuccess) (pollState (curlGet cu) (stateUrl ''http'' http_port) w))"

definition preStopHook :: "'w curl \<Rightarrow> string \<Rightarrow> 'w \<Rightarrow> (hook_exit \<times> 'w) option" where
  "preStopHook cu configProperties w =
     preStopRun cu (portOf ''http-server.http.port'' configProperties)
       (portOf ''http-server.https.port'' configProperties) w"

subsection \<open>The loop\<close>

text \<open>The world after \<open>k\<close> polls.\<close>

definition polled :: "(string \<Rightarrow> 'w \<Rightarrow> bool \<times> 'w) \<Rightarrow> string \<Rightarrow> nat \<Rightarrow> 'w \<Rightarrow> 'w" where
  "polled get url k w = ((\<lambda>w. snd (get url w)) ^^ k) w"

lemma polled_0 [simp]: "polled get url 0 w = w"
  by (simp add: polled_def)

lemma polled_Suc: "polled get url (Suc k) w = polled get url k (snd (get url w))"
  by (simp add: polled_def funpow_Suc_right del: funpow.simps(2))

lemma polled_Suc_right: "polled get url (Suc k) w = snd (get url (polled get url k w))"
  by (simp add: polled_def)

lemma pollState_down: "\<not> fst (get url w) \<Longrightarrow> pollState get url w = Some (snd (get url w))"
  by (subst pollState.simps) (simp add: split_beta)

lemma pollState_up: "fst (get url w) \<Longrightarrow> pollState get url w = pollState get url (snd (get url w))"
  by (subst pollState.simps) (simp add: split_beta)

lemma pollState_stops:
  "\<forall>i < k. fst (get url (polled get url i w)) \<Longrightarrow> \<not> fst (get url (polled get url k w)) \<Longrightarrow>
     pollState get url w = Some (polled get url (Suc k) w)"
proof (induction k arbitrary: w)
  case 0
  then show ?case by (simp add: pollState_down polled_Suc)
next
  case (Suc k)
  have "pollState get url (snd (get url w)) = Some (polled get url (Suc k) (snd (get url w)))"
    by (rule Suc.IH) (use Suc.prems in \<open>auto simp flip: polled_Suc\<close>)
  moreover have "fst (get url w)" using Suc.prems(1) by force
  ultimately show ?case by (simp add: pollState_up polled_Suc [of _ _ "Suc k"])
qed

lemma pollState_result:
  assumes "pollState get url w = Some w'"
  shows "\<exists>k. w' = polled get url (Suc k) w \<and>
     (\<forall>i < k. fst (get url (polled get url i w))) \<and> \<not> fst (get url (polled get url k w))"
  using assms
proof (rule pollState.raw_induct [rotated])
  fix poll :: "(string \<Rightarrow> 'a \<Rightarrow> bool \<times> 'a) \<Rightarrow> string \<Rightarrow> 'a \<Rightarrow> 'a option" and get url w w'
  assume ih: "\<And>get url w w'. poll get url w = Some w' \<Longrightarrow> \<exists>k. w' = polled get url (Suc k) w \<and>
     (\<forall>i < k. fst (get url (polled get url i w))) \<and> \<not> fst (get url (polled get url k w))"
    and step: "(case get url w of (up, w') \<Rightarrow> if up then poll get url w' else Some w') = Some w'"
  show "\<exists>k. w' = polled get url (Suc k) w \<and>
     (\<forall>i < k. fst (get url (polled get url i w))) \<and> \<not> fst (get url (polled get url k w))"
  proof (cases "fst (get url w)")
    case True
    then have "poll get url (snd (get url w)) = Some w'" using step by (simp add: split_beta)
    from ih [OF this] obtain k where k: "w' = polled get url (Suc (Suc k)) w"
      "\<forall>i < k. fst (get url (polled get url (Suc i) w))" "\<not> fst (get url (polled get url (Suc k) w))"
      by (auto simp: polled_Suc)
    with True show ?thesis by (intro exI [of _ "Suc k"]) (auto simp: less_Suc_eq_0_disj)
  next
    case False
    then show ?thesis using step by (intro exI [of _ 0]) (simp add: split_beta polled_Suc)
  qed
qed

lemma pollState_iff:
  "pollState get url w = Some w' \<longleftrightarrow> (\<exists>k. w' = polled get url (Suc k) w \<and>
     (\<forall>i < k. fst (get url (polled get url i w))) \<and> \<not> fst (get url (polled get url k w)))"
  using pollState_result pollState_stops by metis

subsection \<open>Properties of the hook\<close>

lemma fileLines_lines: "\<forall>l \<in> set ls. newline \<notin> set l \<Longrightarrow> fileLines (concat (map line ls)) = ls"
  by (simp add: fileLines_def splitOn_lines)

lemma sedValue_pair: "CHR ''='' \<notin> set v \<Longrightarrow> sedValue (k @ CHR ''='' # v) = v"
proof -
  assume "CHR ''='' \<notin> set v"
  then have "takeWhile (\<lambda>c. c \<noteq> CHR ''='') (rev v @ CHR ''='' # rev k) = rev v"
    by (subst takeWhile_append2) auto
  then show ?thesis by (simp add: sedValue_def)
qed

lemma substituted_line: "v = [] \<or> last v \<noteq> newline \<Longrightarrow> substituted (v @ [newline]) = v"
  by (cases v rule: rev_cases) (auto simp: substituted_def)



text \<open>C32: the hook fails at once exactly when the server did not accept the shutdown, over http or
  https; it succeeds exactly when the server did and a later poll, at the http port, found it down;
  and it blocks, forever if need be, while the polls find it up.\<close>

theorem hook_outcomes:
  assumes "requestShutdown cu http https w = (res, w1)"
  shows "(preStopRun cu http https w = Some (ExitFailure, w') \<longleftrightarrow> res \<noteq> ''200'' \<and> w' = w1)
    \<and> (preStopRun cu http https w = Some (ExitSuccess, w') \<longleftrightarrow> res = ''200'' \<and>
        (\<exists>k. w' = polled (curlGet cu) (stateUrl ''http'' http) (Suc k) w1
          \<and> (\<forall>i < k. fst (curlGet cu (stateUrl ''http'' http) (polled (curlGet cu) (stateUrl ''http'' http) i w1)))
          \<and> \<not> fst (curlGet cu (stateUrl ''http'' http) (polled (curlGet cu) (stateUrl ''http'' http) k w1))))
    \<and> (preStopRun cu http https w = None \<longleftrightarrow> res = ''200'' \<and>
        (\<forall>k. fst (curlGet cu (stateUrl ''http'' http) (polled (curlGet cu) (stateUrl ''http'' http) k w1))))"
proof -
  let ?url = "stateUrl ''http'' http"
  let ?up = "\<lambda>k. fst (curlGet cu ?url (polled (curlGet cu) ?url k w1))"
  have none: "pollState (curlGet cu) ?url w1 = None \<longleftrightarrow> (\<forall>k. ?up k)"
  proof
    assume n: "pollState (curlGet cu) ?url w1 = None"
    show "\<forall>k. ?up k"
    proof (rule ccontr)
      assume "\<not> (\<forall>k. ?up k)"
      then obtain k where "\<not> ?up k" by blast
      then have "\<not> ?up (LEAST k. \<not> ?up k)" by (rule LeastI)
      moreover have "\<forall>i < (LEAST k. \<not> ?up k). ?up i" using not_less_Least by blast
      ultimately show False using pollState_stops [of "LEAST k. \<not> ?up k" "curlGet cu" ?url w1] n by simp
    qed
  next
    assume "\<forall>k. ?up k"
    then show "pollState (curlGet cu) ?url w1 = None"
      using pollState_result [of "curlGet cu" ?url w1] by (cases "pollState (curlGet cu) ?url w1") auto
  qed
  show ?thesis
    using assms none pollState_iff [of "curlGet cu" ?url w1 w']
    by (auto simp: preStopRun_def)
qed

text \<open>A server that stops at the third poll, for the witnesses; it counts the requests.\<close>

definition stoppingCurl :: "nat curl" where
  "stoppingCurl = \<lparr>curlPut = (\<lambda>url n. (''200'', Suc n)), curlGet = (\<lambda>url n. (n < 3, Suc n))\<rparr>"

theorem hook_outcomes_witness:
  "preStopRun stoppingCurl ''8080'' [] 0 = Some (ExitSuccess, 4)"
proof -
  have r: "requestShutdown stoppingCurl ''8080'' [] 0 = (''200'', 1)"
    by (simp add: requestShutdown_def stoppingCurl_def)
  have n: "polled (curlGet stoppingCurl) url k m = m + k" for url k m
    by (induction k) (simp_all add: polled_Suc_right stoppingCurl_def)
  have "\<exists>k. 4 = polled (curlGet stoppingCurl) (stateUrl ''http'' ''8080'') (Suc k) 1 \<and>
      (\<forall>i < k. fst (curlGet stoppingCurl (stateUrl ''http'' ''8080'')
        (polled (curlGet stoppingCurl) (stateUrl ''http'' ''8080'') i 1))) \<and>
      \<not> fst (curlGet stoppingCurl (stateUrl ''http'' ''8080'')
        (polled (curlGet stoppingCurl) (stateUrl ''http'' ''8080'') k 1))"
    unfolding n by (rule exI [of _ 2]) (auto simp: stoppingCurl_def)
  with hook_outcomes [OF r, of 4] show ?thesis by blast
qed

text \<open>C33: a server that only speaks https is not waited for: the hook polls the http URL with an empty
  port, and when nothing listens there it returns a success after that one poll, without having
  asked the https port whether the server is down.\<close>

theorem https_only_server_is_not_awaited:
  assumes "https \<noteq> []" and "curlPut cu (stateUrl ''https'' https) w = (''200'', w1)"
    and "curlGet cu ''http://localhost:/v1/info/state'' w1 = (False, w2)"
  shows "preStopRun cu [] https w = Some (ExitSuccess, w2)"
proof -
  have "pollState (curlGet cu) ''http://localhost:/v1/info/state'' w1 = Some w2"
    using assms(3) by (simp add: pollState_down)
  then show ?thesis
    using assms(1,2) by (simp add: preStopRun_def requestShutdown_def stateUrl_def)
qed

text \<open>A server on https port 8443 that stays up: the world is whether it is up.\<close>

definition httpsCurl :: "bool curl" where
  "httpsCurl = \<lparr>curlPut = (\<lambda>url up. (if up \<and> url = stateUrl ''https'' ''8443'' then ''200'' else ''000'', up)),
     curlGet = (\<lambda>url up. (up \<and> url = stateUrl ''https'' ''8443'', up))\<rparr>"

theorem https_only_server_is_not_awaited_witness:
  "preStopRun httpsCurl [] ''8443'' True = Some (ExitSuccess, True)"
  by (rule https_only_server_is_not_awaited) (simp_all add: httpsCurl_def stateUrl_def)

end
