(* ===== verification/Edits.thy ===== *)
theory Edits
  imports Convergence
begin

text \<open>
  What an edit of a custom resource does to a cluster that has been set up. The reconciler compares
  nothing but the replica counts of the deployments, so that of all the fields of the specification
  only the number of workers has an effect.
\<close>

definition editSpec :: "namespaced_name \<Rightarrow> presto_cluster_spec \<Rightarrow> cluster_view \<Rightarrow> cluster_view" where
  "editSpec req sp v = v\<lparr>vwClusters := (vwClusters v)
     (req := map_option (\<lambda>c. c\<lparr>pc_Spec := sp\<rparr>) (vwClusters v req))\<rparr>"

lemma settled_editSpec:
  "settled req n wd v \<Longrightarrow> spec_Workers sp = Some n \<Longrightarrow> settled req n wd (editSpec req sp v)"
  by (auto simp: settled_def editSpec_def)

context api_server
begin

text \<open>A run after an edit that changes the number of workers.\<close>

lemma Reconcile_scales:
  assumes env: "env_ok env" and s: "holding v cs s" and v: "settled req n wd v0"
    and edit: "v = editSpec req sp v0" and m: "spec_Workers sp = Some m" "m \<noteq> n"
    and c: "vwClusters v req = Some c"
  shows "lands (\<lambda>x s'. x = (requeueUnless (dep_AvailableReplicas wd = m), None) \<and>
      (\<exists>wd'. dep_AvailableReplicas wd' = dep_AvailableReplicas wd \<and> depReplicas wd' = Some m \<and>
        holding (v\<lparr>vwDeployments := (vwDeployments v)(childKey req getWorkerDeploymentName \<mapsto> wd')\<rparr>)
          (cs @ inspectCalls req @ [CallUpdate (DeploymentObj (getDesiredWorkerDeployment env c)),
             CallGet DeploymentKind (childKey req getWorkerDeploymentName)]) s'))
    (Reconcile env cl req) s"
proof -
  let ?ins = "inspectedView v req" and ?key = "childKey req getWorkerDeploymentName"
  let ?r = "requestReconciler env cl ?ins" and ?d = "getDesiredWorkerDeployment env c"
  obtain cd where cd: "vwDeployments v (childKey req getCoordinatorDeploymentName) = Some cd" "depReplicas cd = Some 1"
    and wd: "vwDeployments v ?key = Some wd" "depReplicas wd = Some n"
    and st: "status_AvailableWorkers (pc_Status c) = dep_AvailableReplicas wd"
    and sp: "spec_Workers (pc_Spec c) = Some m"
    and maps: "vwConfigMaps v (childKey req getPrestoConfigMapName) \<noteq> None"
      "vwConfigMaps v (childKey req getCatalogConfigMapName) \<noteq> None"
      "vwServices v (childKey req getCoordinatorServiceName) \<noteq> None"
    using v c m(1) edit by (auto simp: settled_def editSpec_def)
  obtain s1 where s1: "inspect env cl req emptyInspected s = (Done (None, ?ins), s1)"
    "holding v (cs @ inspectCalls req) s1"
    using landsE [OF inspect_lands [OF env s, of req]] by metis
  have calm: "calm (sysWorld s1)" "view (sysWorld s1) = v" using s1(2) by (auto simp: holding_def)
  have key: "keyOf (pc_ObjectMeta c) = req" using cluster_keyed [OF calm(1)] calm(2) c by blast
  have dkey: "keyOf (dep_ObjectMeta ?d) = ?key" using key by (simp add: desired_keys [OF env] flip: key)
  have ins: "ins_cluster ?ins = Some c" using c by (simp add: inspectedView_def Let_def)
  have "reconcile ?r = orReturn (reconcileWorkerDeployment ?r) (\<lambda>err. ret (emptyResult, Some err))
      (ret (emptyResult, None))"
    by (rule reconcile_worker_only [where cd = "getDesiredCoordinatorDeployment env c" and ci = cd and m = 1])
      (use cd ins maps in \<open>auto simp: desired_Some desired_replicas inspectedView_def Let_def\<close>)
  moreover have "reconcileWorkerDeployment ?r = update cl (DeploymentObj ?d)"
    using worker_deployment.scale [of ?r ?d wd m n] wd sp m(2) ins
    by (simp add: desired_Some desired_replicas inspectedView_def Let_def)
  moreover obtain w d' where w: "clUpdate cl (DeploymentObj ?d) (sysWorld s1) = (None, w)" "calm w"
    "depReplicas d' = Some m" "dep_AvailableReplicas d' = dep_AvailableReplicas wd"
    "view w = v\<lparr>vwDeployments := (vwDeployments v)(?key \<mapsto> d')\<rparr>"
    using update_deployment [OF calm(1), of ?d wd] calm(2) wd(1) dkey sp
    by (auto simp: desired_replicas defaultReplicas_def)
  moreover define s2 where "s2 = after (CallUpdate (DeploymentObj ?d)) w s1"
  ultimately have rec: "reconcile ?r s1 = (Done (emptyResult, None), s2)"
    by (simp add: orReturn_def bindP_def update_def apiCall_def ret_def after_def)
  let ?v2 = "v\<lparr>vwDeployments := (vwDeployments v)(?key \<mapsto> d')\<rparr>"
  have s2: "holding ?v2 (cs @ inspectCalls req @ [CallUpdate (DeploymentObj ?d)]) s2"
    using w(2,5) s1(2) by (simp add: s2_def holding_def after_def)
  have run: "Reconcile env cl req s
    = updatePrestoClusterStatus (requestUpdater env cl ?ins) (nn_Name req) (nn_Namespace req) s2"
    using Reconcile_run [OF s1(1)] rec ins by simp
  have "vwClusters ?v2 req = Some c" "vwDeployments ?v2 ?key = Some d'" using c by simp_all
  note status = status_lands [OF env s2 this(1) sp ins this(2)]
  show ?thesis
    using status w(3,4) st unfolding lands_def run by auto
qed

end

text \<open>C7: an edit of a settled cluster has one effect at most: the next run updates the worker
  deployment, exactly when the number of workers was changed, and writes nothing else. Any other edit
  (of the image, the resources, the etc, catalog or core-site entries) leaves the cluster settled as it
  is and never reaches its config maps, its service or its pods.\<close>

theorem spec_edit_run:
  assumes "env_ok env" and "api_server cl calm view" and "calm (sysWorld s)"
    and "settled req n wd v" and "view (sysWorld s) = editSpec req sp v" and "spec_Workers sp = Some m"
    and "vwClusters (editSpec req sp v) req = Some c"
  shows "\<exists>s' wd'. Reconcile env cl req s = (Done (requeueUnless (dep_AvailableReplicas wd = m), None), s')
    \<and> sysCalls s' = sysCalls s @ inspectCalls req
        @ (if m = n then [] else [CallUpdate (DeploymentObj (getDesiredWorkerDeployment env c))])
        @ [CallGet DeploymentKind (childKey req getWorkerDeploymentName)]
    \<and> view (sysWorld s') = (view (sysWorld s))\<lparr>vwDeployments :=
        (vwDeployments v)(childKey req getWorkerDeploymentName \<mapsto> wd')\<rparr>
    \<and> (m = n \<longrightarrow> wd' = wd) \<and> settled req m wd' (view (sysWorld s'))"
proof -
  note holding = api_server.holding_def [OF assms(2)]
  have hold: "api_server.holding calm view (editSpec req sp v) (sysCalls s) s"
    using assms(3,5) by (simp add: holding)
  let ?key = "childKey req getWorkerDeploymentName"
  have wd: "vwDeployments v ?key = Some wd" using assms(4) by (simp add: settled_def)
  show ?thesis
  proof (cases "m = n")
    case True
    have same: "settled req m wd (editSpec req sp v)" using settled_editSpec [OF assms(4)] assms(6) True by simp
    have keep: "(editSpec req sp v)\<lparr>vwDeployments := (vwDeployments v)(?key \<mapsto> wd)\<rparr> = editSpec req sp v"
      using wd by (simp add: editSpec_def fun_upd_idem)
    from api_server.Reconcile_settled [OF assms(2,1) hold same] show ?thesis
      using True same keep assms(5) unfolding lands_def holding by auto
  next
    case False
    from api_server.Reconcile_scales [OF assms(2,1) hold assms(4) refl assms(6) False assms(7)]
    obtain s' wd' where s': "Reconcile env cl req s = (Done (requeueUnless (dep_AvailableReplicas wd = m), None), s')"
      "dep_AvailableReplicas wd' = dep_AvailableReplicas wd" "depReplicas wd' = Some m"
      "view (sysWorld s') = (editSpec req sp v)\<lparr>vwDeployments := (vwDeployments v)(?key \<mapsto> wd')\<rparr>"
      "sysCalls s' = sysCalls s @ inspectCalls req @ [CallUpdate (DeploymentObj
         (getDesiredWorkerDeployment env c)), CallGet DeploymentKind ?key]"
      unfolding lands_def holding by (auto simp: editSpec_def)
    have "settled req m wd' (view (sysWorld s'))"
      using assms(4,6) s'(2-4) by (auto simp: settled_def editSpec_def)
    then show ?thesis using s' False assms(5) by auto
  qed
qed

text \<open>The sample cluster is set up, then scaled to five workers.\<close>

definition scaledSpec :: presto_cluster_spec where
  "scaledSpec = (pc_Spec sampleCluster)\<lparr>spec_Workers := Some 5\<rparr>"

lemma viewOk_editSpec: "viewOk v \<Longrightarrow> viewOk (editSpec req sp v)"
  by (auto simp: viewOk_def keyed_def editSpec_def split: if_splits)

theorem spec_edit_run_witness:
  "\<exists>s s' wd wd'. settled sampleReq 2 wd (mwView (sysWorld s))
     \<and> snd (Reconcile std_env memClient sampleReq
          (s\<lparr>sysWorld := \<lparr>mwView = editSpec sampleReq scaledSpec (mwView (sysWorld s)), mwFaults = []\<rparr>\<rparr>)) = s'
     \<and> settled sampleReq 5 wd' (mwView (sysWorld s'))"
proof -
  obtain s :: "mem_world sys" and wd where s: "memCalm (sysWorld s)" "settled sampleReq 2 wd (mwView (sysWorld s))"
    using mem.Reconcile_lands [OF std_env_ok sample_world] by (auto simp: lands_def mem.holding_def)
  let ?s = "s\<lparr>sysWorld := \<lparr>mwView = editSpec sampleReq scaledSpec (mwView (sysWorld s)), mwFaults = []\<rparr>\<rparr>"
  have calm: "memCalm (sysWorld ?s)" using s(1) viewOk_editSpec by (simp add: memCalm_def)
  obtain c where "vwClusters (editSpec sampleReq scaledSpec (mwView (sysWorld s))) sampleReq = Some c"
    using s(2) by (auto simp: settled_def editSpec_def)
  from spec_edit_run [OF std_env_ok mem.api_server_axioms calm s(2) _ _ this, of 5]
  obtain s' wd' where "snd (Reconcile std_env memClient sampleReq ?s) = s'"
    "settled sampleReq 5 wd' (mwView (sysWorld s'))" by (auto simp: scaledSpec_def)
  then show ?thesis using s(2) by blast
qed

end
