(* ===== verification/Permissions.thy ===== *)
theory Permissions
  imports MemServer
begin

text \<open>
  The permissions of the operator: the \<open>kubebuilder:rbac\<close> markers of \<open>src/controllers/controller.go\<close>,
  from which its cluster role is generated, against what the calls of a run need. A permission is an
  API group, a resource and a verb; a subresource is written after a slash. The group of the core
  API is \<open>core\<close>, as in the markers.
\<close>

type_synonym permission = "string \<times> string \<times> string"

record rbac_rule =
  rule_groups :: string
  rule_resources :: string
  rule_verbs :: "string list"

subsection \<open>What is granted\<close>

definition readVerbs :: "string list" where
  "readVerbs = [''get'', ''list'', ''watch'']"

definition allVerbs :: "string list" where
  "allVerbs = [''get'', ''list'', ''watch'', ''create'', ''update'', ''patch'', ''delete'']"

definition operatorRules :: "rbac_rule list" where
  "operatorRules =
    [\<lparr>rule_groups = ''prestooperator.k8s.io'', rule_resources = ''prestoclusters'', rule_verbs = allVerbs\<rparr>,
     \<lparr>rule_groups = ''prestooperator.k8s.io'', rule_resources = ''prestoclusters/status'',
       rule_verbs = [''get'', ''update'', ''patch'']\<rparr>,
     \<lparr>rule_groups = ''apps'', rule_resources = ''deployments'', rule_verbs = allVerbs\<rparr>,
     \<lparr>rule_groups = ''apps'', rule_resources = ''deployments/status'', rule_verbs = [''get'']\<rparr>,
     \<lparr>rule_groups = ''core'', rule_resources = ''pods'', rule_verbs = readVerbs\<rparr>,
     \<lparr>rule_groups = ''core'', rule_resources = ''pods/status'', rule_verbs = [''get'']\<rparr>,
     \<lparr>rule_groups = ''core'', rule_resources = ''services'', rule_verbs = allVerbs\<rparr>,
     \<lparr>rule_groups = ''core'', rule_resources = ''services/status'', rule_verbs = [''get'']\<rparr>,
     \<lparr>rule_groups = ''core'', rule_resources = ''events'', rule_verbs = allVerbs\<rparr>,
     \<lparr>rule_groups = ''core'', rule_resources = ''events/status'', rule_verbs = [''get'']\<rparr>,
     \<lparr>rule_groups = ''core'', rule_resources = ''configmaps'', rule_verbs = allVerbs\<rparr>,
     \<lparr>rule_groups = ''extensions'', rule_resources = ''ingresses'', rule_verbs = allVerbs\<rparr>,
     \<lparr>rule_groups = ''extensions'', rule_resources = ''ingresses/status'', rule_verbs = [''get'']\<rparr>]"

definition granted :: "rbac_rule list \<Rightarrow> permission list" where
  "granted rules = concat (map (\<lambda>r. map (\<lambda>verb. (rule_groups r, rule_resources r, verb)) (rule_verbs r)) rules)"

subsection \<open>What a call needs\<close>

fun resourceOf :: "api_kind \<Rightarrow> string \<times> string" where
  "resourceOf PrestoClusterKind = (GroupVersion_Group, ''prestoclusters'')"
| "resourceOf ConfigMapKind = (''core'', ''configmaps'')"
| "resourceOf DeploymentKind = (''apps'', ''deployments'')"
| "resourceOf ServiceKind = (''core'', ''services'')"
| "resourceOf IngressKind = (''extensions'', ''ingresses'')"

definition verbOn :: "api_kind \<Rightarrow> string \<Rightarrow> permission" where
  "verbOn k verb = (fst (resourceOf k), snd (resourceOf k), verb)"

text \<open>The manager's client reads through a cache, which lists and watches the kind. A recorder creates
  an event, and patches it when it recurs. Where the admission plugin
  \<open>OwnerReferencesPermissionEnforcement\<close> is on, to create an object that blocks the deletion of its
  owner takes the right to update the finalizers of the owner.\<close>

definition blocksOwner :: "object_meta \<Rightarrow> bool" where
  "blocksOwner m = list_ex (\<lambda>ref. or_BlockOwnerDeletion ref = Some True) (om_OwnerReferences m)"

definition finalizersUpdate :: permission where
  "finalizersUpdate = (GroupVersion_Group, ''prestoclusters/finalizers'', ''update'')"

fun needed :: "bool \<Rightarrow> api_call \<Rightarrow> permission list" where
  "needed enforced (CallGet k _) = map (verbOn k) readVerbs"
| "needed enforced (CallCreate o') = verbOn (objKind o') ''create'' #
     (if enforced \<and> blocksOwner (objMeta o') then [finalizersUpdate] else [])"
| "needed enforced (CallUpdate o') = [verbOn (objKind o') ''update'']"
| "needed enforced (CallDelete o') = [verbOn (objKind o') ''delete'']"
| "needed enforced (CallStatusUpdate _) = [(GroupVersion_Group, ''prestoclusters/status'', ''update'')]"
| "needed enforced (CallEvent _ _ _ _) = [(''core'', ''events'', ''create''), (''core'', ''events'', ''patch'')]"

text \<open>All that runs ever need without the plugin.\<close>

definition leastRules :: "rbac_rule list" where
  "leastRules =
    [\<lparr>rule_groups = ''prestooperator.k8s.io'', rule_resources = ''prestoclusters'', rule_verbs = readVerbs\<rparr>,
     \<lparr>rule_groups = ''prestooperator.k8s.io'', rule_resources = ''prestoclusters/status'',
       rule_verbs = [''update'']\<rparr>,
     \<lparr>rule_groups = ''apps'', rule_resources = ''deployments'',
       rule_verbs = readVerbs @ [''create'', ''update'']\<rparr>,
     \<lparr>rule_groups = ''core'', rule_resources = ''services'', rule_verbs = readVerbs @ [''create'']\<rparr>,
     \<lparr>rule_groups = ''core'', rule_resources = ''configmaps'', rule_verbs = readVerbs @ [''create'']\<rparr>,
     \<lparr>rule_groups = ''core'', rule_resources = ''events'', rule_verbs = [''create'', ''patch'']\<rparr>]"

lemma least_granted: "set (granted leastRules) \<subseteq> set (granted operatorRules)"
proof -
  have "list_all (\<lambda>p. p \<in> set (granted operatorRules)) (granted leastRules)" by code_simp
  then show ?thesis by (auto simp: list_all_iff)
qed

lemma finalizers_not_granted: "finalizersUpdate \<notin> set (granted operatorRules)"
  by code_simp

text \<open>The kinds of calls a run may make, whatever object they are about.\<close>

definition runKinds :: "(api_kind \<times> string) list" where
  "runKinds = List.product [PrestoClusterKind, ConfigMapKind, DeploymentKind, ServiceKind] readVerbs
     @ map (\<lambda>k. (k, ''create'')) [ConfigMapKind, DeploymentKind, ServiceKind] @ [(DeploymentKind, ''update'')]"

lemma runKinds_least: "\<forall>(k, verb) \<in> set runKinds. verbOn k verb \<in> set (granted leastRules)"
  by code_simp

lemma other_least:
  "(GroupVersion_Group, ''prestoclusters/status'', ''update'') \<in> set (granted leastRules)"
  "(''core'', ''events'', ''create'') \<in> set (granted leastRules)"
  "(''core'', ''events'', ''patch'') \<in> set (granted leastRules)"
  by code_simp+

lemma childKeys_kinds: "(k, key) \<in> set (childKeys req) \<Longrightarrow> k \<in> set [ConfigMapKind, DeploymentKind, ServiceKind]"
  by (auto simp: childKeys_def Let_def)

lemma allowed_kinds:
  "allowedCall req (CallGet k key) \<Longrightarrow> set (map (Pair k) readVerbs) \<subseteq> set runKinds"
  "allowedCall req (CallCreate o') \<Longrightarrow> (objKind o', ''create'') \<in> set runKinds"
  "allowedCall req (CallUpdate o') \<Longrightarrow> (objKind o', ''update'') \<in> set runKinds"
  by (auto simp: runKinds_def dest!: childKeys_kinds)

lemma allowed_least:
  assumes "allowedCall req c"
  shows "set (needed False c) \<subseteq> set (granted leastRules)"
proof -
  have least: "verbOn k verb \<in> set (granted leastRules)" if "(k, verb) \<in> set runKinds" for k verb
    using that runKinds_least by blast
  show ?thesis
  proof (cases c)
    case (CallGet k key)
    then show ?thesis using assms allowed_kinds(1) [of req k key] least by auto
  qed (use assms least allowed_kinds(2,3) other_least in auto)
qed

lemma blocksOwner_desired:
  assumes "\<forall>m gvk. or_BlockOwnerDeletion (NewControllerRef env m gvk) = Some True"
    and "o' \<in> set (desiredObjects env c)"
  shows "blocksOwner (objMeta o') \<longleftrightarrow> objKind o' \<noteq> ConfigMapKind"
  using assms(2)
  by (auto simp: desiredObjects_def blocksOwner_def assms(1) getDesiredPrestoConfigMap_def
      getDesiredCatalogConfigMap_def newConfigmap_def toOwnerReference_def Let_def childMeta_def
      getDesiredCoordinatorDeployment_def getDesiredCoordinatorService_def getDesiredWorkerDeployment_def)

subsection \<open>The operator's role is enough\<close>

text \<open>C8: the role of the operator grants whatever a run needs, and a run needs little of it: no delete,
  no pods, no ingresses. Where the plugin is on, though, the creation of a deployment or of the
  service is denied, since they block the deletion of the cluster and its finalizers are not granted;
  config maps are created all the same.\<close>

theorem run_permissions:
  assumes "env_ok env" and "getKeyed cl"
    and "\<forall>m gvk. or_BlockOwnerDeletion (NewControllerRef env m gvk) = Some True"
    and "Reconcile env cl req s = (r, s')" and "sysCalls s' = sysCalls s @ cs" and "c \<in> set cs"
  shows "set (needed False c) \<subseteq> set (granted leastRules) \<inter> set (granted operatorRules)
    \<and> (set (needed True c) \<subseteq> set (granted operatorRules) \<longleftrightarrow>
        \<not> (\<exists>o'. c = CallCreate o' \<and> objKind o' \<noteq> ConfigMapKind))"
proof -
  have run: "runCall env req c"
    using emitsE [OF Reconcile_emits_runCall [OF assms(1,2)] assms(4)] assms(5,6)
    by (metis list_all_iff same_append_eq)
  note least = allowed_least [OF runCall_allowed [OF assms(1) run]]
  have "set (needed True c) \<subseteq> set (granted operatorRules) \<longleftrightarrow>
      \<not> (\<exists>o'. c = CallCreate o' \<and> objKind o' \<noteq> ConfigMapKind)"
  proof (cases c)
    case (CallCreate o')
    then obtain pc where "o' \<in> set (desiredObjects env pc)" using run by auto
    then show ?thesis
      using CallCreate least least_granted blocksOwner_desired [OF assms(3), of o' pc] finalizers_not_granted
      by auto
  qed (use least least_granted in auto)
  then show ?thesis using least least_granted by blast
qed

theorem run_permissions_witness:
  "list_all (\<lambda>c. set (needed False c) \<subseteq> set (granted operatorRules))
     (sysCalls (snd (Reconcile std_env memClient sampleReq (sampleWorld []))))"
proof -
  obtain r s' where run: "Reconcile std_env memClient sampleReq (sampleWorld []) = (r, s')" by fastforce
  have block: "\<forall>m gvk. or_BlockOwnerDeletion (NewControllerRef std_env m gvk) = Some True"
    by (simp add: std_env_def)
  have "sysCalls s' = sysCalls (sampleWorld []) @ sysCalls s'" by (simp add: sampleWorld_def)
  from run_permissions [OF std_env_ok memClient_keyed block run this] run show ?thesis
    by (simp add: list_all_iff)
qed

end
