(* ===== verification/Validation.thy ===== *)
theory Validation
  imports Controller
begin

text \<open>
  What the API server accepts. The documentation of Kubernetes states rules for names, labels, config
  map keys, pod templates and services; \<open>validObject\<close> collects those the operator's objects are subject
  to, and \<open>acceptable\<close> is what they come to for the custom resource.
\<close>

subsection \<open>Names, labels and keys\<close>

definition charIn :: "nat \<Rightarrow> nat \<Rightarrow> char \<Rightarrow> bool" where
  "charIn lo hi c \<longleftrightarrow> lo \<le> of_char c \<and> of_char c \<le> hi"

definition lowerLetter :: "char \<Rightarrow> bool" where
  "lowerLetter = charIn 97 122"

definition lowerAlnum :: "char \<Rightarrow> bool" where
  "lowerAlnum c \<longleftrightarrow> lowerLetter c \<or> charIn 48 57 c"

definition alnum :: "char \<Rightarrow> bool" where
  "alnum c \<longleftrightarrow> lowerAlnum c \<or> charIn 65 90 c"

text \<open>A part of a DNS name: lower case letters, digits and dashes, with no dash at either end.\<close>

definition dnsPart :: "string \<Rightarrow> bool" where
  "dnsPart s \<longleftrightarrow> s \<noteq> [] \<and> list_all (\<lambda>c. lowerAlnum c \<or> c = CHR ''-'') s \<and> lowerAlnum (hd s) \<and> lowerAlnum (last s)"

text \<open>The name of most objects (RFC 1123), and the name of a service (RFC 1035).\<close>

definition dnsSubdomain :: "string \<Rightarrow> bool" where
  "dnsSubdomain s \<longleftrightarrow> length s \<le> 253 \<and> list_all dnsPart (splitOn CHR ''.'' s)"

definition dnsLabel :: "string \<Rightarrow> bool" where
  "dnsLabel s \<longleftrightarrow> length s \<le> 63 \<and> dnsPart s \<and> lowerLetter (hd s)"

definition labelValue :: "string \<Rightarrow> bool" where
  "labelValue s \<longleftrightarrow> length s \<le> 63 \<and> (s = [] \<or>
     list_all (\<lambda>c. alnum c \<or> c \<in> set ''-_.'') s \<and> alnum (hd s) \<and> alnum (last s))"

definition keyChars :: "string \<Rightarrow> bool" where
  "keyChars = list_all (\<lambda>c. alnum c \<or> c \<in> set ''-_.'')"

definition configKey :: "string \<Rightarrow> bool" where
  "configKey s \<longleftrightarrow> s \<noteq> [] \<and> keyChars s"

subsection \<open>Objects\<close>

definition validLabels :: "strmap \<Rightarrow> bool" where
  "validLabels m \<longleftrightarrow> (\<forall>v \<in> ran (mapLookup m). labelValue v)"

definition validMeta :: "object_meta \<Rightarrow> bool" where
  "validMeta m \<longleftrightarrow> dnsSubdomain (om_Name m) \<and> validLabels (om_Labels m)"

definition validPort :: "int32 \<Rightarrow> bool" where
  "validPort p \<longleftrightarrow> 1 \<le> sint p \<and> sint p \<le> 65535"

definition validContainer :: "string set \<Rightarrow> container \<Rightarrow> bool" where
  "validContainer volumes ct \<longleftrightarrow> dnsLabel (ct_Name ct) \<and> list_all validPort (ct_Ports ct)
     \<and> (\<forall>m \<in> set (ct_VolumeMounts ct). vm_Name m \<in> volumes \<and> CHR '':'' \<notin> set (vm_MountPath m))
     \<and> distinct (map vm_MountPath (ct_VolumeMounts ct))"

definition validPodSpec :: "pod_spec \<Rightarrow> bool" where
  "validPodSpec ps \<longleftrightarrow> ps_Containers ps \<noteq> [] \<and> distinct (map ct_Name (ps_Containers ps))
     \<and> distinct (map vol_Name (ps_Volumes ps))
     \<and> list_all (validContainer (set (map vol_Name (ps_Volumes ps)))) (ps_Containers ps)"

definition validDeployment :: "deployment \<Rightarrow> bool" where
  "validDeployment d \<longleftrightarrow> validMeta (dep_ObjectMeta d)
     \<and> (\<forall>n. depReplicas d = Some n \<longrightarrow> 0 \<le> sint n)
     \<and> mapKeys (ds_MatchLabels (dep_Spec d)) \<noteq> {} \<and> validLabels (ds_TemplateLabels (dep_Spec d))
     \<and> selects (ds_MatchLabels (dep_Spec d)) (ds_TemplateLabels (dep_Spec d))
     \<and> validPodSpec (ds_PodSpec (dep_Spec d))"

definition validService :: "service \<Rightarrow> bool" where
  "validService svc \<longleftrightarrow> validLabels (om_Labels (svc_ObjectMeta svc)) \<and> dnsLabel (om_Name (svc_ObjectMeta svc))
     \<and> validLabels (svc_Selector svc) \<and> svc_Ports svc \<noteq> []
     \<and> list_all (\<lambda>p. validPort (sp_Port p) \<and> (\<exists>t. sp_TargetPort p = IntVal t \<and> validPort t)) (svc_Ports svc)"

definition validConfigMap :: "config_map \<Rightarrow> bool" where
  "validConfigMap cm \<longleftrightarrow> validMeta (cm_ObjectMeta cm) \<and> (\<forall>k \<in> mapKeys (cm_Data cm). configKey k)"

fun validObject :: "api_object \<Rightarrow> bool" where
  "validObject (ConfigMapObj cm) = validConfigMap cm"
| "validObject (DeploymentObj d) = validDeployment d"
| "validObject (ServiceObj svc) = validService svc"
| "validObject (IngressObj ing) = validMeta (ing_ObjectMeta ing)"

subsection \<open>What this asks of a cluster\<close>

definition acceptableKeys :: "presto_cluster_spec \<Rightarrow> bool" where
  "acceptableKeys spec \<longleftrightarrow>
     (\<forall>k \<in> mapKeys (cc_EtcConfig (spec_CoordinatorConfig spec))
        \<union> mapKeys (wc_EtcConfig (spec_WorkerConfig spec)). keyChars k)
     \<and> (\<forall>k \<in> mapKeys (spec_CatalogConfig spec) \<union> mapKeys (spec_Coresite spec). configKey k)"

definition acceptable :: "presto_cluster \<Rightarrow> bool" where
  "acceptable c \<longleftrightarrow> dnsLabel (om_Name (pc_ObjectMeta c)) \<and> acceptableKeys (pc_Spec c)
     \<and> (\<forall>n. spec_Workers (pc_Spec c) = Some n \<longrightarrow> 0 \<le> sint n)
     \<and> ''pre-stop.sh'' \<notin> mapKeys (wc_EtcConfig (spec_WorkerConfig (pc_Spec c)))"

lemmas char_classes = charIn_def lowerLetter_def lowerAlnum_def alnum_def

lemma lowerAlnum_special: "lowerAlnum c \<Longrightarrow> c \<notin> set ''-_./:''"
  by (auto simp: char_classes)

lemma dnsPart_no_dot: "dnsPart s \<Longrightarrow> CHR ''.'' \<notin> set s"
  using lowerAlnum_special by (fastforce simp: dnsPart_def list_all_iff)

lemma dnsPart_append: "dnsPart s \<Longrightarrow> list_all (\<lambda>c. lowerAlnum c \<or> c = CHR ''-'') t \<Longrightarrow>
    t \<noteq> [] \<Longrightarrow> lowerAlnum (last t) \<Longrightarrow> dnsPart (s @ t)"
  by (simp add: dnsPart_def)

lemma childName_valid:
  assumes "dnsLabel s" and "list_all (\<lambda>c. lowerAlnum c \<or> c = CHR ''-'') t" and "length t \<le> 190"
    and "t \<noteq> []" and "lowerAlnum (last t)"
  shows "dnsSubdomain (s @ t)"
proof -
  have "dnsPart (s @ t)" using assms by (intro dnsPart_append) (simp_all add: dnsLabel_def)
  then show ?thesis using dnsPart_no_dot [of "s @ t"] assms by (simp add: dnsSubdomain_def dnsLabel_def)
qed

lemma childNames_valid:
  assumes "dnsLabel s"
  shows "dnsSubdomain (getPrestoConfigMapName s)" and "dnsSubdomain (getCatalogConfigMapName s)"
    and "dnsSubdomain (s @ ''-coordinator'')" and "dnsSubdomain (s @ ''-worker'')"
  unfolding getPrestoConfigMapName_def getCatalogConfigMapName_def
  by (rule childName_valid [OF assms]; simp add: char_classes)+

lemma dnsLabel_labelValue: "dnsLabel s \<Longrightarrow> labelValue s"
  by (auto simp: dnsLabel_def labelValue_def dnsPart_def list_all_iff alnum_def)

lemma keyChars_special: "keyChars k \<Longrightarrow> CHR ''/'' \<notin> set k \<and> CHR '':'' \<notin> set k"
  by (auto simp: keyChars_def list_all_iff char_classes)

subsection \<open>The objects of a cluster\<close>

lemma keyChars_append: "keyChars (p @ k) \<longleftrightarrow> keyChars p \<and> keyChars k"
  by (simp add: keyChars_def)

lemma literal_keys: "keyChars ''coordinator.''" "keyChars ''worker.''" "configKey ''pre-stop.sh''"
  by (simp_all add: keyChars_def configKey_def char_classes)

lemma dom_prefixedLookup: "dom (prefixedLookup p m) = (@) p ` mapKeys m"
proof (intro set_eqI iffI)
  fix k assume "k \<in> dom (prefixedLookup p m)"
  then have "take (length p) k = p" "drop (length p) k \<in> mapKeys m"
    by (auto simp: prefixedLookup_def mapKeys_def split: if_splits)
  then show "k \<in> (@) p ` mapKeys m" by (metis append_take_drop_id image_eqI)
qed (auto simp: mapKeys_def)

lemma prestoData_keys:
  assumes "env_ok env"
  shows "mapKeys (cm_Data (getDesiredPrestoConfigMap env c)) = insert ''pre-stop.sh''
    ((@) ''worker.'' ` mapKeys (wc_EtcConfig (spec_WorkerConfig (pc_Spec c)))
     \<union> (@) ''coordinator.'' ` mapKeys (cc_EtcConfig (spec_CoordinatorConfig (pc_Spec c))))"
proof -
  have "mapLookup (cm_Data (getDesiredPrestoConfigMap env c)) =
      (prefixedLookup ''coordinator.'' (cc_EtcConfig (spec_CoordinatorConfig (pc_Spec c)))
        ++ prefixedLookup ''worker.'' (wc_EtcConfig (spec_WorkerConfig (pc_Spec c))))
      (''pre-stop.sh'' \<mapsto> preStopScript)"
    using prestoData_eq [OF assms, of c, unfolded prestoData_def]
    by (auto simp: fun_eq_iff map_add_def split: option.split)
  then show ?thesis
    by (simp add: mapKeys_def dom_prefixedLookup [unfolded mapKeys_def] del: append_Cons)
qed

lemma catalogData_keys:
  assumes "env_ok env"
  shows "mapKeys (cm_Data (getDesiredCatalogConfigMap env c))
    = mapKeys (spec_CatalogConfig (pc_Spec c)) \<union> mapKeys (spec_Coresite (pc_Spec c))"
  using catalogData_eq [OF assms, of c] by (auto simp: catalogData_def mapKeys_def)

lemma configMap_labels:
  "env_ok env \<Longrightarrow> om_Labels (cm_ObjectMeta (getDesiredPrestoConfigMap env c)) = None"
  "env_ok env \<Longrightarrow> om_Labels (cm_ObjectMeta (getDesiredCatalogConfigMap env c)) = None"
  by (simp_all add: getDesiredPrestoConfigMap_def getDesiredCatalogConfigMap_def newConfigmap_def
      zeroObjectMeta_def Let_def)

lemma prefixed_key: "keyChars p \<Longrightarrow> p \<noteq> [] \<Longrightarrow> configKey (p @ k) \<longleftrightarrow> keyChars k"
  by (simp add: configKey_def keyChars_append)

lemma prestoConfigMap_valid:
  assumes "env_ok env" and "dnsLabel (om_Name (pc_ObjectMeta c))"
  shows "validConfigMap (getDesiredPrestoConfigMap env c) \<longleftrightarrow>
    (\<forall>k \<in> mapKeys (cc_EtcConfig (spec_CoordinatorConfig (pc_Spec c)))
        \<union> mapKeys (wc_EtcConfig (spec_WorkerConfig (pc_Spec c))). keyChars k)"
proof -
  have "validMeta (cm_ObjectMeta (getDesiredPrestoConfigMap env c))"
    using childNames_valid(1) [OF assms(2)]
    by (simp add: validMeta_def validLabels_def configMap_labels configmap_metas assms(1))
  moreover have "configKey (''coordinator.'' @ k) \<longleftrightarrow> keyChars k" "configKey (''worker.'' @ k) \<longleftrightarrow> keyChars k" for k
    by (rule prefixed_key [OF literal_keys(1) list.distinct(2)] prefixed_key [OF literal_keys(2) list.distinct(2)])+
  ultimately show ?thesis
    by (simp add: validConfigMap_def prestoData_keys [OF assms(1)] literal_keys(3) ball_Un conj_commute
        del: append_Cons)
qed

lemma catalogConfigMap_valid:
  assumes "env_ok env" and "dnsLabel (om_Name (pc_ObjectMeta c))"
  shows "validConfigMap (getDesiredCatalogConfigMap env c) \<longleftrightarrow>
    (\<forall>k \<in> mapKeys (spec_CatalogConfig (pc_Spec c)) \<union> mapKeys (spec_Coresite (pc_Spec c)). configKey k)"
  using assms childNames_valid [OF assms(2)]
  by (auto simp: validConfigMap_def validMeta_def validLabels_def configMap_labels configmap_metas catalogData_keys)

text \<open>The labels carry the name of the cluster and one of three fixed words.\<close>

lemma controllerLabels_valid:
  assumes "labelValue app"
  shows "validLabels (controllerLabels app c) \<longleftrightarrow> labelValue (om_Name (pc_ObjectMeta c))"
proof -
  have "validLabels m \<longleftrightarrow> (\<forall>k \<in> mapKeys m. labelValue (the (mapLookup m k)))" for m
    by (force simp: validLabels_def mapKeys_def ran_def dom_def)
  then show ?thesis using assms by (simp add: controllerLabels_lookup)
qed

lemma app_labels: "labelValue ''presto-coordinator''" "labelValue ''presto-worker''"
  "labelValue ''presto-coordinator-service''"
  by (simp_all add: labelValue_def char_classes)

lemma service_valid:
  assumes "env_ok env"
  shows "validService (getDesiredCoordinatorService env c) \<longleftrightarrow> dnsLabel (om_Name (pc_ObjectMeta c))"
  using dnsLabel_labelValue [of "om_Name (pc_ObjectMeta c)"] app_labels
  by (auto simp: validService_def getDesiredCoordinatorService_def childMeta_def controllerLabels_valid
      validPort_def env_ok_fromInt [OF assms])

text \<open>The mounts of both deployments: their volumes are declared, their paths hold no colon.\<close>

definition mountsOk :: "volume_mount list \<Rightarrow> bool" where
  "mountsOk ms \<longleftrightarrow> (\<forall>m \<in> set ms. vm_Name m \<in> {''config'', ''catalog''} \<and> CHR '':'' \<notin> set (vm_MountPath m))"

lemma mountsOk_append [simp]: "mountsOk (ms @ ms') \<longleftrightarrow> mountsOk ms \<and> mountsOk ms'"
  by (auto simp: mountsOk_def)

lemma mountsOk_family:
  assumes "mount_family mount vol dir sub" and "vol \<in> {''config'', ''catalog''}" and "CHR '':'' \<notin> set dir"
    and "\<forall>k \<in> set ks. CHR '':'' \<notin> set k"
  shows "mountsOk (map mount ks)"
  using assms(2-4) by (auto simp: mountsOk_def mount_family.mount_volume [OF assms(1)]
      mount_family.mount_path [OF assms(1)])

lemma acceptable_keys:
  assumes "acceptableKeys (pc_Spec c)"
  shows "\<forall>k \<in> mapKeys (cc_EtcConfig (spec_CoordinatorConfig (pc_Spec c))). CHR '':'' \<notin> set k"
    and "\<forall>k \<in> mapKeys (wc_EtcConfig (spec_WorkerConfig (pc_Spec c))). CHR '':'' \<notin> set k"
    and "\<forall>k \<in> mapKeys (spec_CatalogConfig (pc_Spec c)). CHR '':'' \<notin> set k"
    and "\<forall>k \<in> mapKeys (spec_Coresite (pc_Spec c)). CHR '':'' \<notin> set k"
    and "noSlash (cc_EtcConfig (spec_CoordinatorConfig (pc_Spec c)))"
    and "noSlash (wc_EtcConfig (spec_WorkerConfig (pc_Spec c)))"
  using assms keyChars_special by (auto simp: acceptableKeys_def configKey_def noSlash_def)

lemma mounts_ok:
  assumes "env_ok env" and "acceptableKeys (pc_Spec c)"
  shows "mountsOk (coordinatorVolumeMounts env c)" and "mountsOk (workerVolumeMounts env c)"
proof -
  have pre: "mountsOk [preStopMount]" by (simp add: mountsOk_def preStopMount_def)
  note families = mountsOk_family [OF coordinator_etc.mount_family_axioms]
    mountsOk_family [OF worker_etc.mount_family_axioms] mountsOk_family [OF catalog.mount_family_axioms]
    mountsOk_family [OF coresite.mount_family_axioms]
  note keys = acceptable_keys [OF assms(2)]
  show "mountsOk (coordinatorVolumeMounts env c)"
    unfolding coordinatorVolumeMounts_eq [OF assms(1)] mountsOk_append
    using keys by (intro conjI families) simp_all
  have "mountsOk ([preStopMount] @ map workerEtcMount (sorted_list_of_set
        (mapKeys (wc_EtcConfig (spec_WorkerConfig (pc_Spec c)))))
      @ map catalogMount (sorted_list_of_set (mapKeys (spec_CatalogConfig (pc_Spec c))))
      @ map coresiteMount (sorted_list_of_set (mapKeys (spec_Coresite (pc_Spec c)))))"
    unfolding mountsOk_append using keys by (intro conjI pre families) simp_all
  then show "mountsOk (workerVolumeMounts env c)" by (simp add: workerVolumeMounts_eq [OF assms(1)])
qed

lemma deployment_valid_iff:
  assumes "dnsLabel (om_Name (pc_ObjectMeta c))" and "env_ok env" and "mountsOk (workerVolumeMounts env c)"
    and "mountsOk (coordinatorVolumeMounts env c)"
  shows "validDeployment (getDesiredCoordinatorDeployment env c) \<longleftrightarrow>
      distinct (map vm_MountPath (coordinatorVolumeMounts env c))"
    and "validDeployment (getDesiredWorkerDeployment env c) \<longleftrightarrow>
      distinct (map vm_MountPath (workerVolumeMounts env c))
      \<and> (\<forall>n. spec_Workers (pc_Spec c) = Some n \<longrightarrow> 0 \<le> sint n)"
proof -
  note name = childNames_valid(3,4) [OF assms(1)] dnsLabel_labelValue [OF assms(1)]
  have names: "dnsLabel ''presto-coordinator''" "dnsLabel ''presto-worker''"
    by (simp_all add: dnsLabel_def dnsPart_def char_classes)
  have labels: "mapKeys (controllerLabels app c) \<noteq> {}" "selects (controllerLabels app c) (controllerLabels app c)"
    for app by (simp_all add: controllerLabels_lookup selects_controllerLabels)
  have vols: "set (map vol_Name (configVolumes c)) = {''config'', ''catalog''}"
    "distinct (map vol_Name (configVolumes c))" by (simp_all add: configVolumes_def)
  note defs = validDeployment_def validMeta_def validPodSpec_def validContainer_def validPort_def Let_def
    childMeta_def
  show "validDeployment (getDesiredCoordinatorDeployment env c) \<longleftrightarrow>
      distinct (map vm_MountPath (coordinatorVolumeMounts env c))"
    using assms(4) unfolding mountsOk_def
    by (simp add: defs getDesiredCoordinatorDeployment_def name names labels vols
        controllerLabels_valid app_labels del: set_map)
  show "validDeployment (getDesiredWorkerDeployment env c) \<longleftrightarrow>
      distinct (map vm_MountPath (workerVolumeMounts env c))
      \<and> (\<forall>n. spec_Workers (pc_Spec c) = Some n \<longrightarrow> 0 \<le> sint n)"
    using assms(3) unfolding mountsOk_def
    by (auto simp: defs getDesiredWorkerDeployment_def name names labels vols
        controllerLabels_valid app_labels simp del: set_map)
qed

lemma sample_acceptable: "acceptable sampleCluster"
  by (simp add: acceptable_def acceptableKeys_def sample_keys)
    (simp add: sampleCluster_def mapKeys_def fmdom'_alt_def dnsLabel_def dnsPart_def configKey_def
      keyChars_def char_classes)



end
