(* ===== verification/CallBounds.thy ===== *)
theory CallBounds
  imports Requests
begin

text \<open>
  The cost of a run in calls to the API server. \<open>callsUpTo n m\<close> bounds the calls of a program, whichever
  of them fail and whether it returns or panics; its rules follow the program, and the bound of a run
  is the sum of the bounds of its parts. The bound is attained.
\<close>

definition callsUpTo :: "nat \<Rightarrow> ('w sys, 'a) prog \<Rightarrow> bool" where
  "callsUpTo n m \<longleftrightarrow> (\<forall>s. length (sysCalls (snd (m s))) \<le> length (sysCalls s) + n)"

named_theorems cost_intros "bounds on the calls of a program"

lemma callsUpToD: "callsUpTo n m \<Longrightarrow> m s = (r, s') \<Longrightarrow> length (sysCalls s') \<le> length (sysCalls s) + n"
  by (metis callsUpTo_def snd_conv)

lemma callsUpTo_mono: "callsUpTo n m \<Longrightarrow> n \<le> k \<Longrightarrow> callsUpTo k m"
  unfolding callsUpTo_def using add_left_mono le_trans by blast

lemma callsUpTo_ret [cost_intros]: "callsUpTo n (ret x)"
  by (simp add: callsUpTo_def ret_def)

lemma callsUpTo_deref [cost_intros]: "callsUpTo n (deref p)"
  by (cases p) (simp_all add: callsUpTo_def ret_def panic_def)

lemma callsUpTo_apiCall: "callsUpTo (Suc 0) (apiCall c f)"
  by (simp add: callsUpTo_def apiCall_def split: prod.split)

lemma callsUpTo_calls [cost_intros]:
  "callsUpTo (Suc 0) (getCluster cl key)" "callsUpTo (Suc 0) (getConfigMap cl key)" "callsUpTo (Suc 0) (getDeployment cl key)"
  "callsUpTo (Suc 0) (getService cl key)" "callsUpTo (Suc 0) (create cl obj)" "callsUpTo (Suc 0) (update cl obj)"
  "callsUpTo (Suc 0) (delete cl obj)" "callsUpTo (Suc 0) (statusUpdate cl pc)" "callsUpTo (Suc 0) (event cl pc t r msg)"
  unfolding call_defs by (rule callsUpTo_apiCall)+

lemma callsUpTo_bindP:
  assumes "callsUpTo n m" and "\<And>x. callsUpTo k (f x)"
  shows "callsUpTo (n + k) (bindP m f)"
  unfolding callsUpTo_def
proof
  fix s
  obtain r s1 where m: "m s = (r, s1)" by fastforce
  note first = callsUpToD [OF assms(1) m]
  show "length (sysCalls (snd (bindP m f s))) \<le> length (sysCalls s) + (n + k)"
  proof (cases r)
    case (Done x)
    obtain r2 s2 where f: "f x s1 = (r2, s2)" by fastforce
    then show ?thesis using first callsUpToD [OF assms(2) f] m Done by (simp add: bindP_def)
  next
    case Panicked
    then show ?thesis using first m by (simp add: bindP_def)
  qed
qed

lemma callsUpTo_orReturn:
  assumes "callsUpTo n m" and "\<And>e. callsUpTo k (h e)" and "callsUpTo k rest"
  shows "callsUpTo (n + k) (orReturn m h rest)"
  unfolding orReturn_def by (rule callsUpTo_bindP [OF assms(1)]) (use assms(2,3) in \<open>auto split: option.split\<close>)

lemma callsUpTo_if [cost_intros]: "callsUpTo n m \<Longrightarrow> callsUpTo n m' \<Longrightarrow> callsUpTo n (if b then m else m')"
  by simp

lemma callsUpTo_option [cost_intros]:
  "callsUpTo n a \<Longrightarrow> (\<And>x. callsUpTo n (f x)) \<Longrightarrow> callsUpTo n (case p of None \<Rightarrow> a | Some x \<Rightarrow> f x)"
  by (cases p) simp_all

lemma callsUpTo_prod [cost_intros]: "(\<And>a b. callsUpTo n (f a b)) \<Longrightarrow> callsUpTo n (case p of (a, b) \<Rightarrow> f a b)"
  by (cases p) simp

subsection \<open>The parts of a run\<close>

lemma inspectStep_cost:
  assumes "callsUpTo (Suc 0) getObj" and "\<And>i. callsUpTo n (rest i)"
  shows "callsUpTo (Suc n) (inspectStep env getObj setObj ins rest)"
proof -
  have "callsUpTo (Suc 0 + n) (inspectStep env getObj setObj ins rest)"
    unfolding inspectStep_def
    by (rule callsUpTo_bindP [OF assms(1)]) (auto intro: cost_intros assms(2) split: sum.split)
  then show ?thesis by simp
qed

lemma inspect_cost: "callsUpTo 6 (inspect env cl req ins)"
proof -
  have "callsUpTo (Suc (Suc (Suc (Suc (Suc (Suc 0)))))) (inspect env cl req ins)"
    unfolding inspect_def inspector_call_defs Let_def by (intro inspectStep_cost cost_intros)
  then show ?thesis by (simp add: eval_nat_numeral)
qed

text \<open>A child takes one call at most: the contract of a child says which.\<close>

lemma static_child_cost:
  assumes "static_child run want seen obj"
  shows "callsUpTo (Suc 0) (run r)"
proof -
  note child = static_child.axioms(1) [OF assms]
  note laws = child_reconciler.create_missing [OF child, of r] child_reconciler.delete_unwanted [OF child, of r]
    child_reconciler.idle [OF child, of r] static_child.keep [OF assms, of r]
  have del: "callsUpTo (Suc 0) (bindP (delete cl o') (\<lambda>err. ret (g err)))" for cl o' and g :: "api_error option \<Rightarrow> api_error option"
    using callsUpTo_bindP [OF callsUpTo_calls(7) callsUpTo_ret, of 0] by simp
  show ?thesis
    by (cases "want (rec_desired r)"; cases "seen (rec_inspected r)") (auto simp: laws intro!: del cost_intros)
qed

lemma reconcileDeployment_cost: "callsUpTo (Suc 0) (reconcileDeployment r want seen)"
proof -
  have step: "callsUpTo (Suc 0) (bindP (deref p) f)" if "\<And>x. callsUpTo (Suc 0) (f x)" for p :: "int32 option" and f
    using callsUpTo_bindP [OF callsUpTo_deref that, of 0] by simp
  have del: "callsUpTo (Suc 0) (deleteDeployment r d)" for d
    unfolding deleteDeployment_def using callsUpTo_bindP [OF callsUpTo_calls(7) callsUpTo_ret, of 0] by simp
  show ?thesis
    unfolding reconcileDeployment_def createDeployment_def updateDeployment_def
    by (auto intro!: cost_intros step del split: option.split)
qed

lemma child_costs:
  "callsUpTo (Suc 0) (reconcilePrestoConfigMap r)" "callsUpTo (Suc 0) (reconcileCatalogConfigMap r)"
  "callsUpTo (Suc 0) (reconcileCoordinatorService r)" "callsUpTo (Suc 0) (reconcileCoordinatorDeployment r)"
  "callsUpTo (Suc 0) (reconcileWorkerDeployment r)"
  by (rule static_child_cost [OF presto_map.static_child_axioms]
      static_child_cost [OF catalog_map.static_child_axioms]
      static_child_cost [OF coordinator_service.static_child_axioms]
    | simp add: reconcileCoordinatorDeployment_def reconcileWorkerDeployment_def reconcileDeployment_cost)+

lemma reconcile_cost: "callsUpTo 5 (reconcile r)"
proof -
  have "callsUpTo (Suc 0 + (Suc 0 + (Suc 0 + (Suc 0 + (Suc 0 + 0))))) (reconcile r)"
    unfolding reconcile_def by (intro callsUpTo_if callsUpTo_orReturn callsUpTo_ret child_costs)
  then show ?thesis by (simp add: eval_nat_numeral)
qed

lemma status_cost: "callsUpTo 3 (updatePrestoClusterStatus u name ns)"
proof -
  have pure: "callsUpTo n (bindP (deref p) f)" if "\<And>x. callsUpTo n (f x)" for n and p :: "'p option" and f
    using callsUpTo_bindP [OF callsUpTo_deref that, of 0] by simp
  have derive: "callsUpTo (Suc 0) (deriveClusterStatus u name ns)"
    unfolding deriveClusterStatus_def currentDeployment_def Let_def
    using callsUpTo_bindP [OF callsUpTo_calls(3) callsUpTo_ret, of 0] by simp
  have store: "callsUpTo (Suc 0) (updateClusterStatus u st)" for st
    unfolding updateClusterStatus_def Let_def by (intro pure cost_intros)
  have report: "callsUpTo (Suc 0) (bindP (event cl c t m i) (\<lambda>_. ret None))" for cl c t m i
    using callsUpTo_bindP [OF callsUpTo_calls(9) callsUpTo_ret, of 0] by simp
  have "callsUpTo (Suc 0 + (Suc 0 + Suc 0 + 0)) (updatePrestoClusterStatus u name ns)"
    unfolding updatePrestoClusterStatus_def Let_def
    by (intro callsUpTo_bindP derive pure callsUpTo_orReturn callsUpTo_if store)
      (auto intro!: callsUpTo_bindP store cost_intros report pure split: option.split)
  then show ?thesis by (simp add: eval_nat_numeral)
qed

lemma Reconcile_cost: "callsUpTo 14 (Reconcile env cl req)"
proof -
  have "callsUpTo (6 + (5 + 3)) (Reconcile env cl req)"
    unfolding Reconcile_unfold
      bindP_passes [OF updatePrestoClusterStatus_error_result]
    by (intro callsUpTo_bindP inspect_cost reconcile_cost status_cost cost_intros)
  then show ?thesis by simp
qed

subsection \<open>The bound is attained\<close>

text \<open>A server that holds a cluster with an outdated status and nothing else, and accepts every write.\<close>

definition emptyClient :: "unit client" where
  "emptyClient = \<lparr>
     clGetCluster = (\<lambda>key w. (Inr busyCluster, w)),
     clGetConfigMap = (\<lambda>key w. (Inl (absent key), w)),
     clGetDeployment = (\<lambda>key w. (Inl (absent key), w)),
     clGetService = (\<lambda>key w. (Inl (absent key), w)),
     clCreate = (\<lambda>obj w. (None, w)), clUpdate = (\<lambda>obj w. (None, w)), clDelete = (\<lambda>obj w. (None, w)),
     clStatusUpdate = (\<lambda>c w. (None, w)), clEvent = (\<lambda>c t r m w. w)\<rparr>"

text \<open>C14: a run makes at most 14 calls, whichever of them fail: six reads to inspect, one call for each
  of the five children, and a read, a write and an event for the status. The bound is attained when
  the children have to be created and the status is out of date.\<close>

theorem run_call_bound:
  "length (sysCalls (snd (Reconcile env cl req s))) \<le> length (sysCalls s) + 14
   \<and> length (sysCalls (snd (Reconcile std_env emptyClient sampleReq \<lparr>sysWorld = (), sysCalls = []\<rparr>))) = 14"
proof
  show "length (sysCalls (snd (Reconcile env cl req s))) \<le> length (sysCalls s) + 14"
    using Reconcile_cost [of env cl req] by (simp add: callsUpTo_def)
  show "length (sysCalls (snd (Reconcile std_env emptyClient sampleReq \<lparr>sysWorld = (), sysCalls = []\<rparr>))) = 14"
  proof -
    let ?ins = "emptyInspected\<lparr>ins_cluster := Some busyCluster\<rparr>"
    let ?s = "\<lparr>sysWorld = (), sysCalls = []\<rparr> :: unit sys"
    note run = bindP_def ret_def apiCall_def orReturn_def call_defs emptyClient_def absent_def
    obtain s1 where s1: "inspect std_env emptyClient sampleReq emptyInspected ?s = (Done (None, ?ins), s1)"
      "length (sysCalls s1) = 6"
      by (simp add: inspect_def inspectStep_def inspector_call_defs Let_def run env_ok_ignore [OF std_env_ok])
    let ?r = "requestReconciler std_env emptyClient ?ins"
    obtain s2 where s2: "reconcile ?r s1 = (Done (emptyResult, None), s2)" "length (sysCalls s2) = 11"
      using s1(2)
      by (simp add: reconcile_def reconcilePrestoConfigMap_def reconcileCatalogConfigMap_def
          reconcileCoordinatorDeployment_def reconcileCoordinatorService_def reconcileWorkerDeployment_def
          reconcileDeployment_def createConfigMap_def createDeployment_def createService_def
          emptyInspected_def desired_Some run)
    have "length (sysCalls (snd (updatePrestoClusterStatus (requestUpdater std_env emptyClient ?ins)
        name ns s2))) = 14" for name ns
      using s2(2)
      by (simp add: updatePrestoClusterStatus_def deriveClusterStatus_def currentDeployment_def
          updateClusterStatus_def zeroDeployment_def busyCluster_def sampleCluster_def Let_def run)
    then show ?thesis using Reconcile_run [OF s1(1)] s2(1) by simp
  qed
qed

end
