(* ===== verification/Spec2Isabelle.thy ===== *)
theory Spec2Isabelle
  imports Interference Manager PreStop Edits Permissions Validation CallBounds CoreSite
begin

text \<open>
  A verification development of presto-on-k8s-operator, a Kubernetes operator written in Go. The
  operator watches \<open>PrestoCluster\<close> resources and keeps, for each of them, two config maps, a coordinator
  deployment, a coordinator service and a worker deployment in the API server.

  \<^bold>\<open>The program.\<close> \<open>main\<close> (\<open>src/main.go\<close>) parses the flags, creates a controller-runtime manager and
  starts it. For every request, the manager calls \<open>Reconcile\<close> (\<open>src/controllers/controller.go\<close>), which
  \<^enum> inspects the cluster and its five children (\<open>inspector.go\<close>): six reads;
  \<^enum> computes the desired objects from the cluster (\<open>desired.go\<close>, with the names and renderings of
    \<open>utils.go\<close> and the script of \<open>preStopScript.go\<close>);
  \<^enum> reconciles the children one after the other (\<open>reconciler.go\<close>): creates the missing ones, updates
    a deployment whose replica count differs, and stops at the first error;
  \<^enum> copies the available workers into the status (\<open>status.go\<close>), with an event, and asks for another
    run while workers are missing.
  The types are in \<open>src/api/v1alpha1/prestocluster_types.go\<close>, their generated deep copies in
  \<open>zz_generated.deepcopy.go\<close>. \<open>coresite.go\<close> holds a configuration file to which no other code refers.

  \<^bold>\<open>The theories\<close>, in the order of their imports.
  \<^item> \<open>Prelude\<close>: Go statements as programs over a state, whose outcome is a value or a panic; maps with an
    iteration order that is a parameter; the collections of rewrite rules.
  \<^item> \<open>GoStrings\<close>: the string operations of the standard library; \<open>Utils\<close>: \<open>utils.go\<close>.
  \<^item> \<open>ApiTypes\<close>: the custom resource and the Kubernetes objects, a record per struct; the record
    \<open>runtime_env\<close> of the library functions the code calls, and \<open>env_ok\<close>, their documentation.
  \<^item> \<open>DeepCopy\<close>: the generated code twice, on values and on an explicit store of pointers, maps and slices.
  \<^item> \<open>PreStopScript\<close>, \<open>PreStop\<close>: the text of the script, and what its commands do.
  \<^item> \<open>CoreSite\<close>: the text of \<open>coresite.go\<close>, block by block, and the settings it makes once filled in.
  \<^item> \<open>Desired\<close>: \<open>desired.go\<close>, and the files that are mounted into the containers.
  \<^item> \<open>ApiClient\<close>: the client as a record of functions on a world of any type; every call is recorded in
    the list \<open>sysCalls\<close>. \<open>Inspector\<close>, \<open>Reconciler\<close>, \<open>Status\<close>, \<open>Controller\<close>: one theory per file.
  \<^item> \<open>Server\<close>: the interface of a server that answers, and what the operator does against it.
    \<open>Safety\<close>: the interface of a server that may fail. \<open>MemServer\<close>: a server in memory that provides both.
  \<^item> \<open>Requests\<close>: properties of one request. \<open>CallBounds\<close>: its cost in calls. \<open>Permissions\<close>: the role that
    the markers of \<open>controller.go\<close> grant, against the calls of a run. \<open>Validation\<close>: the documented rules of
    the API server for the five children, against the fields of the resource.
  \<^item> \<open>Convergence\<close>: repeated requests. \<open>Edits\<close>: edits of a resource that is set up. \<open>Operator\<close>: traces in
    which users, pods and faults take part. \<open>Interference\<close>: runs that overlap with other runs.
  \<^item> \<open>Flags\<close>, \<open>Manager\<close>: the command line, the scheme and the process, from \<open>main.go\<close>.

  \<^bold>\<open>Interfaces\<close> are locales, each interpreted on the model of the code.
  \<^item> \<open>child_name\<close>, \<open>disjoint_names\<close>, \<open>pair_splitter\<close> (\<open>Utils\<close>), \<open>mount_family\<close> (\<open>Desired\<close>): naming functions,
    splitters and mounts of one shape.
  \<^item> \<open>deep_copy\<close> (\<open>DeepCopy\<close>): a copy has the value of the original, lives in fresh references, and leaves
    the store as it was. Interpreted for every generated function, from the leaves to the list.
  \<^item> \<open>child_reconciler\<close>, extended by \<open>static_child\<close> and \<open>scaled_child\<close> (\<open>Reconciler\<close>): what a child's
    reconciling function does with what is wanted and what is there. Interpreted for the five children.
  \<^item> \<open>api_server\<close> (\<open>Server\<close>): a server that stores what it is given. \<open>sound_api\<close> (\<open>Safety\<close>): a client that
    keeps an invariant, whether its calls fail or not. Interpreted for the server in memory, and
    \<open>sound_api\<close> again for that server among other runs.

  \<^bold>\<open>What is shown.\<close>
  \<^item> Desired state: it does not depend on the iteration order of maps; the containers see exactly the
    configured files; selectors match the pods of their own role and cluster; the children are owned
    by the cluster; and the API server accepts them exactly when the resource is \<open>acceptable\<close>.
  \<^item> One request: the inspection reads six objects in order; the reconciler refines a plan of calls;
    the status updater writes, reports and requeues exactly when it should; no run panics on validated
    objects; every call is one of a fixed list and granted by the operator's role, runs of two requests
    never write the same object, nothing is deleted, and there are 14 calls at most.
  \<^item> Many requests: one run takes a calm server to the desired state, the next one only reads; finitely
    many faults only delay; an edit of a settled cluster causes one write at most, and only when it
    changes the number of workers; what exists is not rewritten; settled clusters stay settled while others
    are handled; reachable states settle; overlapping runs are safe.
  \<^item> The helpers: round trips of the renderings, splitters and flags; deep copies share nothing; the
    outcomes of the pre-stop hook and of the process; the settings of the core-site file.

  \<^bold>\<open>Bounds and fuel.\<close> 32-bit counts are words. The polling loop of the script is a partial function to
  \<open>option\<close>, so that polling for ever is a value, and the property says exactly when it ends. Schedules
  of faults are finite lists of any length, one entry per call; one run more than the schedule has
  entries is enough, because every run makes at least one call. The field scanner and the flag parser
  are total.

  \<^bold>\<open>Not modelled.\<close> Log lines. The work queue, watches and caches of controller-runtime, whose place the
  traces of \<open>Operator\<close> take. Two effects of Go's aliasing: the client decodes the answer of a creation or
  an update into the object it was given, which the code reads again only through the pointer
  \<open>Spec.Workers\<close> that the worker deployment shares with the cluster; and the label maps that a
  deployment's selector and template share. The set-up of the integration tests (\<open>suite_test.go\<close>), which holds no test. The markers that generate
  manifests, and the manifests. Usage messages of the flags.
\<close>

end
